theory Spec2Isabelle
  imports Complex_Main "HOL-Library.Log_Nat" "HOL-Library.AList"
begin

section \<open>Python values\<close>

text \<open>
  A Python \<open>float\<close> is an IEEE 754 binary64 number. A finite one is kept as the rational
  it denotes (the two zeros are identified: they compare equal in Python); the other
  values are the two infinities and NaN.
\<close>

datatype double = Finite rat | PosInf | NegInf | NaN

text \<open>
  Rounding a rational to the nearest binary64 number, ties to even: \<open>ilog2 x\<close> is the
  binary exponent of \<open>x\<close>, \<open>quantum x\<close> the spacing of the binary64 numbers around \<open>x\<close>
  (53 significant bits, the subnormal spacing \<open>2 powi -1074\<close> below \<open>2 powi -1022\<close>), and a
  result of magnitude \<open>2 ^ 1024\<close> or more overflows to an infinity.
\<close>

definition ilog2 :: "rat \<Rightarrow> int" where
  "ilog2 x = (let (p, q) = quotient_of \<bar>x\<bar>; e = bitlen p - bitlen q
              in if 2 powi e \<le> \<bar>x\<bar> then e else e - 1)"

definition round_half_even :: "rat \<Rightarrow> int" where
  "round_half_even x =
     (let f = \<lfloor>x\<rfloor>; d = x - of_int f
      in if d < 1 / 2 then f else if 1 / 2 < d then f + 1 else if even f then f else f + 1)"

definition quantum :: "rat \<Rightarrow> rat" where
  "quantum x = 2 powi (max (ilog2 x) (- 1022) - 52)"

definition fl :: "rat \<Rightarrow> double" where
  "fl x = (if x = 0 then Finite 0
           else let r = of_int (round_half_even (x / quantum x)) * quantum x
                in if 2 ^ 1024 \<le> r then PosInf else if r \<le> - (2 ^ 1024) then NegInf
                   else Finite r)"

text \<open>The arithmetic of floats: the exact result, rounded; the IEEE rules at the infinities.\<close>

fun fmul :: "double \<Rightarrow> double \<Rightarrow> double" where
  "fmul (Finite a) (Finite b) = fl (a * b)"
| "fmul (Finite a) PosInf = (if a = 0 then NaN else if 0 < a then PosInf else NegInf)"
| "fmul (Finite a) NegInf = (if a = 0 then NaN else if 0 < a then NegInf else PosInf)"
| "fmul PosInf (Finite b) = (if b = 0 then NaN else if 0 < b then PosInf else NegInf)"
| "fmul NegInf (Finite b) = (if b = 0 then NaN else if 0 < b then NegInf else PosInf)"
| "fmul PosInf PosInf = PosInf"
| "fmul PosInf NegInf = NegInf"
| "fmul NegInf PosInf = NegInf"
| "fmul NegInf NegInf = PosInf"
| "fmul NaN y = NaN"
| "fmul x NaN = NaN"

fun fadd :: "double \<Rightarrow> double \<Rightarrow> double" where
  "fadd (Finite a) (Finite b) = fl (a + b)"
| "fadd (Finite a) PosInf = PosInf"
| "fadd (Finite a) NegInf = NegInf"
| "fadd PosInf (Finite b) = PosInf"
| "fadd NegInf (Finite b) = NegInf"
| "fadd PosInf PosInf = PosInf"
| "fadd PosInf NegInf = NaN"
| "fadd NegInf PosInf = NaN"
| "fadd NegInf NegInf = NegInf"
| "fadd NaN y = NaN"
| "fadd x NaN = NaN"

text \<open>\<open>fquot x y\<close> is the quotient by a divisor other than zero.\<close>

fun fquot :: "double \<Rightarrow> double \<Rightarrow> double" where
  "fquot (Finite a) (Finite b) = fl (a / b)"
| "fquot (Finite a) PosInf = Finite 0"
| "fquot (Finite a) NegInf = Finite 0"
| "fquot PosInf (Finite b) = (if 0 < b then PosInf else NegInf)"
| "fquot NegInf (Finite b) = (if 0 < b then NegInf else PosInf)"
| "fquot PosInf PosInf = NaN"
| "fquot PosInf NegInf = NaN"
| "fquot NegInf PosInf = NaN"
| "fquot NegInf NegInf = NaN"
| "fquot NaN y = NaN"
| "fquot x NaN = NaN"

text \<open>
  The values a column of the tables holds: \<open>None\<close> (SQL NULL), a boolean, an integer or a
  string. \<open>pyval\<close> adds floats, for the dictionaries the services return.
\<close>

datatype colval = CNone | CBool bool | CInt int | CStr string

datatype pyval = PNone | PBool bool | PInt int | PFloat double | PStr string

type_synonym dict = "(string \<times> pyval) list"

fun of_col :: "colval \<Rightarrow> pyval" where
  "of_col CNone = PNone"
| "of_col (CBool b) = PBool b"
| "of_col (CInt i) = PInt i"
| "of_col (CStr s) = PStr s"

datatype error =
    ValueError string
  | AttributeError string
  | KeyError string
  | TypeError
  | IndexError
  | ZeroDivisionError
  | OverflowError
  | MultipleResultsFound
  | DatabaseError

text \<open>Truth value testing (\<open>not x\<close>, \<open>x or y\<close>, \<open>if x\<close>).\<close>

fun truthy :: "colval \<Rightarrow> bool" where
  "truthy CNone = False"
| "truthy (CBool b) = b"
| "truthy (CInt i) = (i \<noteq> 0)"
| "truthy (CStr s) = (s \<noteq> [])"

definition py_or :: "colval \<Rightarrow> colval \<Rightarrow> colval" where
  "py_or a b = (if truthy a then a else b)"

text \<open>
  \<open>x < k\<close> and \<open>x > k\<close> against an integer literal: defined on integers and booleans
  (\<open>True\<close> is 1), a \<open>TypeError\<close> on \<open>None\<close> and on strings.
\<close>

fun py_lt_int :: "colval \<Rightarrow> int \<Rightarrow> error + bool" where
  "py_lt_int (CInt i) k = Inr (i < k)"
| "py_lt_int (CBool b) k = Inr ((if b then 1 else 0) < k)"
| "py_lt_int CNone k = Inl TypeError"
| "py_lt_int (CStr s) k = Inl TypeError"

fun py_gt_int :: "colval \<Rightarrow> int \<Rightarrow> error + bool" where
  "py_gt_int (CInt i) k = Inr (k < i)"
| "py_gt_int (CBool b) k = Inr (k < (if b then 1 else 0))"
| "py_gt_int CNone k = Inl TypeError"
| "py_gt_int (CStr s) k = Inl TypeError"

text \<open>\<open>str(x)\<close>, as an f-string renders an interpolated value.\<close>

definition digit_char :: "nat \<Rightarrow> char" where
  "digit_char d = char_of (48 + d)"

fun str_nat :: "nat \<Rightarrow> string" where
  "str_nat n = (if n < 10 then [digit_char n] else str_nat (n div 10) @ [digit_char (n mod 10)])"

declare str_nat.simps [simp del]

definition str_int :: "int \<Rightarrow> string" where
  "str_int i = (if i < 0 then CHR ''-'' # str_nat (nat (- i)) else str_nat (nat i))"

fun py_str :: "colval \<Rightarrow> string" where
  "py_str CNone = ''None''"
| "py_str (CBool b) = (if b then ''True'' else ''False'')"
| "py_str (CInt i) = str_int i"
| "py_str (CStr s) = s"

text \<open>
  An object is the map from its attribute names to their values; reading an attribute
  the object does not have raises \<open>AttributeError\<close>.
\<close>

type_synonym pyobj = "string \<Rightarrow> colval option"

definition getattr :: "pyobj \<Rightarrow> string \<Rightarrow> error + colval" where
  "getattr obj name = (case obj name of None \<Rightarrow> Inl (AttributeError name) | Some v \<Rightarrow> Inr v)"

definition dict_get :: "dict \<Rightarrow> string \<Rightarrow> pyval option" where
  "dict_get d k = map_of d k"

text \<open>
  \<open>x / n\<close> for a float and an integer: the integer is converted (too large an integer
  raises \<open>OverflowError\<close>), and a zero divisor raises \<open>ZeroDivisionError\<close>.
\<close>

definition float_of_int :: "int \<Rightarrow> error + double" where
  "float_of_int n = (case fl (of_int n) of Finite r \<Rightarrow> Inr (Finite r) | _ \<Rightarrow> Inl OverflowError)"

definition fdiv :: "double \<Rightarrow> double \<Rightarrow> error + double" where
  "fdiv x y = (if y = Finite 0 then Inl ZeroDivisionError else Inr (fquot x y))"

definition py_truediv :: "double \<Rightarrow> int \<Rightarrow> error + double" where
  "py_truediv x n = (case float_of_int n of Inl e \<Rightarrow> Inl e | Inr y \<Rightarrow> fdiv x y)"

text \<open>
  \<open>round(x, ndigits)\<close> on a float, for \<open>ndigits \<ge> 0\<close>: the decimal with \<open>ndigits\<close> places
  nearest to the exact value of \<open>x\<close> (ties to the even last digit), converted back to
  the nearest float; infinities and NaN round to themselves.
\<close>

fun py_round :: "double \<Rightarrow> nat \<Rightarrow> double" where
  "py_round (Finite a) ndigits = fl (of_int (round_half_even (a * 10 ^ ndigits)) / 10 ^ ndigits)"
| "py_round PosInf ndigits = PosInf"
| "py_round NegInf ndigits = NegInf"
| "py_round NaN ndigits = NaN"

text \<open>
  \<open>sum\<close> over floats: the integer 0 for no float, and otherwise the floats added to 0
  from left to right (interpreters from 3.12 on compensate the rounding of the partial
  sums; the two agree when the partial sums are exact).
\<close>

definition py_sum :: "double list \<Rightarrow> pyval" where
  "py_sum xs = (if xs = [] then PInt 0 else PFloat (foldl fadd (Finite 0) xs))"

section \<open>The tables\<close>

text \<open>
  \<open>models/profiles.py\<close> and \<open>models/class_upgrades.py\<close>: one record per row, a nullable
  column as an option. The field names carry a prefix, since both tables have an
  \<open>id\<close> and a \<open>user_id\<close>.
\<close>

record profiles =
  p_id :: int
  p_user_id :: string
  p_full_name :: string
  p_phone :: string
  p_membership_class :: string
  p_account_status :: string
  p_consecutive_months_paid :: "int option"
  p_months_late :: "int option"
  p_stripe_subscription_id :: "string option"
  p_created_at :: string
  p_updated_at :: string

record class_upgrades =
  u_id :: int
  u_user_id :: string
  u_profile_id :: "int option"
  u_from_class :: "string option"
  u_to_class :: "string option"
  u_status :: "string option"
  u_payments_in_new_class :: "int option"
  u_requested_at :: "string option"
  u_activated_at :: "string option"

record db =
  profiles_tbl :: "profiles list"
  class_upgrades_tbl :: "class_upgrades list"

definition col_int :: "int option \<Rightarrow> colval" where
  "col_int v = (case v of None \<Rightarrow> CNone | Some i \<Rightarrow> CInt i)"

definition col_str :: "string option \<Rightarrow> colval" where
  "col_str v = (case v of None \<Rightarrow> CNone | Some s \<Rightarrow> CStr s)"

text \<open>The attributes of a row are its columns (\<open>hasattr\<close> is \<open>\<noteq> None\<close>).\<close>

definition profiles_getattr :: "profiles \<Rightarrow> pyobj" where
  "profiles_getattr r name =
     (if name = ''id'' then Some (CInt (p_id r))
      else if name = ''user_id'' then Some (CStr (p_user_id r))
      else if name = ''full_name'' then Some (CStr (p_full_name r))
      else if name = ''phone'' then Some (CStr (p_phone r))
      else if name = ''membership_class'' then Some (CStr (p_membership_class r))
      else if name = ''account_status'' then Some (CStr (p_account_status r))
      else if name = ''consecutive_months_paid'' then Some (col_int (p_consecutive_months_paid r))
      else if name = ''months_late'' then Some (col_int (p_months_late r))
      else if name = ''stripe_subscription_id'' then Some (col_str (p_stripe_subscription_id r))
      else if name = ''created_at'' then Some (CStr (p_created_at r))
      else if name = ''updated_at'' then Some (CStr (p_updated_at r))
      else None)"

definition upgrades_getattr :: "class_upgrades \<Rightarrow> pyobj" where
  "upgrades_getattr r name =
     (if name = ''id'' then Some (CInt (u_id r))
      else if name = ''user_id'' then Some (CStr (u_user_id r))
      else if name = ''profile_id'' then Some (col_int (u_profile_id r))
      else if name = ''from_class'' then Some (col_str (u_from_class r))
      else if name = ''to_class'' then Some (col_str (u_to_class r))
      else if name = ''status'' then Some (col_str (u_status r))
      else if name = ''payments_in_new_class'' then Some (col_int (u_payments_in_new_class r))
      else if name = ''requested_at'' then Some (col_str (u_requested_at r))
      else if name = ''activated_at'' then Some (col_str (u_activated_at r))
      else None)"

text \<open>
  \<open>setattr(obj, key, value)\<close> on a row. The result is \<open>None\<close> when the value does not fit
  the column (another type, or NULL in a column that is not nullable): the database
  refuses such a row when the session is flushed. A key that is no column leaves the row
  as it is (the services guard \<open>setattr\<close> with \<open>hasattr\<close>).
\<close>

definition to_int :: "colval \<Rightarrow> int option" where
  "to_int v = (case v of CInt i \<Rightarrow> Some i | _ \<Rightarrow> None)"

definition to_str :: "colval \<Rightarrow> string option" where
  "to_str v = (case v of CStr s \<Rightarrow> Some s | _ \<Rightarrow> None)"

definition to_int_null :: "colval \<Rightarrow> int option option" where
  "to_int_null v = (case v of CInt i \<Rightarrow> Some (Some i) | CNone \<Rightarrow> Some None | _ \<Rightarrow> None)"

definition to_str_null :: "colval \<Rightarrow> string option option" where
  "to_str_null v = (case v of CStr s \<Rightarrow> Some (Some s) | CNone \<Rightarrow> Some None | _ \<Rightarrow> None)"

definition profiles_setattr :: "string \<Rightarrow> colval \<Rightarrow> profiles \<Rightarrow> profiles option" where
  "profiles_setattr key v r =
     (if key = ''id'' then map_option (\<lambda>x. r\<lparr>p_id := x\<rparr>) (to_int v)
      else if key = ''user_id'' then map_option (\<lambda>x. r\<lparr>p_user_id := x\<rparr>) (to_str v)
      else if key = ''full_name'' then map_option (\<lambda>x. r\<lparr>p_full_name := x\<rparr>) (to_str v)
      else if key = ''phone'' then map_option (\<lambda>x. r\<lparr>p_phone := x\<rparr>) (to_str v)
      else if key = ''membership_class'' then map_option (\<lambda>x. r\<lparr>p_membership_class := x\<rparr>) (to_str v)
      else if key = ''account_status'' then map_option (\<lambda>x. r\<lparr>p_account_status := x\<rparr>) (to_str v)
      else if key = ''consecutive_months_paid''
        then map_option (\<lambda>x. r\<lparr>p_consecutive_months_paid := x\<rparr>) (to_int_null v)
      else if key = ''months_late'' then map_option (\<lambda>x. r\<lparr>p_months_late := x\<rparr>) (to_int_null v)
      else if key = ''stripe_subscription_id''
        then map_option (\<lambda>x. r\<lparr>p_stripe_subscription_id := x\<rparr>) (to_str_null v)
      else if key = ''created_at'' then map_option (\<lambda>x. r\<lparr>p_created_at := x\<rparr>) (to_str v)
      else if key = ''updated_at'' then map_option (\<lambda>x. r\<lparr>p_updated_at := x\<rparr>) (to_str v)
      else Some r)"

definition upgrades_setattr :: "string \<Rightarrow> colval \<Rightarrow> class_upgrades \<Rightarrow> class_upgrades option" where
  "upgrades_setattr key v r =
     (if key = ''id'' then map_option (\<lambda>x. r\<lparr>u_id := x\<rparr>) (to_int v)
      else if key = ''user_id'' then map_option (\<lambda>x. r\<lparr>u_user_id := x\<rparr>) (to_str v)
      else if key = ''profile_id'' then map_option (\<lambda>x. r\<lparr>u_profile_id := x\<rparr>) (to_int_null v)
      else if key = ''from_class'' then map_option (\<lambda>x. r\<lparr>u_from_class := x\<rparr>) (to_str_null v)
      else if key = ''to_class'' then map_option (\<lambda>x. r\<lparr>u_to_class := x\<rparr>) (to_str_null v)
      else if key = ''status'' then map_option (\<lambda>x. r\<lparr>u_status := x\<rparr>) (to_str_null v)
      else if key = ''payments_in_new_class''
        then map_option (\<lambda>x. r\<lparr>u_payments_in_new_class := x\<rparr>) (to_int_null v)
      else if key = ''requested_at'' then map_option (\<lambda>x. r\<lparr>u_requested_at := x\<rparr>) (to_str_null v)
      else if key = ''activated_at'' then map_option (\<lambda>x. r\<lparr>u_activated_at := x\<rparr>) (to_str_null v)
      else Some r)"

section \<open>The services\<close>

text \<open>
  \<open>services/class_upgrades.py\<close>. Every service method runs on the session of the request
  and commits by itself. Whether a commit succeeds is decided outside the program, so
  it is an argument \<open>ok\<close> of the operation: when the commit fails, the method rolls
  back, the tables stay as they were, and the exception goes to the caller.
\<close>

definition upgrades_get_by_id :: "int \<Rightarrow> string \<Rightarrow> db \<Rightarrow> error + class_upgrades option" where
  "upgrades_get_by_id obj_id user_id s =
     (case filter (\<lambda>r. u_id r = obj_id \<and> (user_id \<noteq> [] \<longrightarrow> u_user_id r = user_id))
             (class_upgrades_tbl s) of
        [] \<Rightarrow> Inr None
      | [r] \<Rightarrow> Inr (Some r)
      | _ \<Rightarrow> Inl MultipleResultsFound)"

text \<open>
  \<open>get_list\<close> without a \<open>sort\<close> argument, as every caller here uses it: the rows of the
  user (of every user when \<open>user_id\<close> is empty) that agree with \<open>query_dict\<close> on each
  of its keys that is a column, newest \<open>id\<close> first, \<open>skip\<close> rows dropped and at most
  \<open>limit\<close> rows kept. The model returns the \<open>items\<close> of the result.
\<close>

definition upgrades_get_list ::
  "nat \<Rightarrow> nat \<Rightarrow> string \<Rightarrow> (string \<times> colval) list \<Rightarrow> db \<Rightarrow> class_upgrades list" where
  "upgrades_get_list skip limit user_id query_dict s =
     take limit (drop skip (rev (sort_key u_id
       (filter (\<lambda>r. (user_id \<noteq> [] \<longrightarrow> u_user_id r = user_id) \<and>
                    list_all (\<lambda>(field, v). case upgrades_getattr r field of
                                              None \<Rightarrow> True | Some c \<Rightarrow> c = v) query_dict)
          (class_upgrades_tbl s)))))"

definition upgrades_apply :: "(string \<times> colval) list \<Rightarrow> class_upgrades \<Rightarrow> class_upgrades option" where
  "upgrades_apply update_data obj =
     fold (\<lambda>(key, v) acc. case acc of
                            None \<Rightarrow> None
                          | Some r \<Rightarrow> if key \<noteq> ''user_id'' then upgrades_setattr key v r else Some r)
       update_data (Some obj)"

text \<open>
  \<open>update\<close>: \<open>None\<close> when the row is not there (or not the user's); otherwise the keys
  of \<open>update_data\<close> that are columns, except \<open>user_id\<close>, are set and the session commits.
  The commit fails when a value does not fit its column or the new \<open>id\<close> is taken.
\<close>

definition upgrades_update ::
  "bool \<Rightarrow> int \<Rightarrow> (string \<times> colval) list \<Rightarrow> string \<Rightarrow> db
     \<Rightarrow> (error + class_upgrades option) \<times> db" where
  "upgrades_update ok obj_id update_data user_id s =
     (case upgrades_get_by_id obj_id user_id s of
        Inl e \<Rightarrow> (Inl e, s)
      | Inr None \<Rightarrow> (Inr None, s)
      | Inr (Some obj) \<Rightarrow>
          (case upgrades_apply update_data obj of
             None \<Rightarrow> (Inl DatabaseError, s)
           | Some obj' \<Rightarrow>
               if ok \<and> (u_id obj' = obj_id \<or> u_id obj' \<notin> set (map u_id (class_upgrades_tbl s)))
               then (Inr (Some obj'),
                     s\<lparr>class_upgrades_tbl :=
                         map (\<lambda>r. if u_id r = obj_id then obj' else r) (class_upgrades_tbl s)\<rparr>)
               else (Inl DatabaseError, s)))"

text \<open>
  \<open>create\<close>: a non-empty \<open>user_id\<close> overrides the one of \<open>data\<close>; the row is built from
  the keys of \<open>data\<close> (a key that is no column makes the constructor raise
  \<open>TypeError\<close>), the database numbers it past every \<open>id\<close> in the table unless \<open>data\<close>
  brings an \<open>id\<close> of its own, and the session commits. \<open>user_id\<close> is not nullable.
\<close>

definition blank_upgrade :: class_upgrades where
  "blank_upgrade = \<lparr>u_id = 0, u_user_id = [], u_profile_id = None, u_from_class = None,
     u_to_class = None, u_status = None, u_payments_in_new_class = None,
     u_requested_at = None, u_activated_at = None\<rparr>"

definition next_id :: "int list \<Rightarrow> int" where
  "next_id ids = (if ids = [] then 1 else Max (set ids) + 1)"

definition upgrades_build :: "(string \<times> colval) list \<Rightarrow> class_upgrades option" where
  "upgrades_build data =
     fold (\<lambda>(key, v) acc. case acc of None \<Rightarrow> None | Some r \<Rightarrow> upgrades_setattr key v r)
       data (Some blank_upgrade)"

definition upgrades_create ::
  "bool \<Rightarrow> (string \<times> colval) list \<Rightarrow> string \<Rightarrow> db \<Rightarrow> (error + class_upgrades) \<times> db" where
  "upgrades_create ok data user_id s =
     (let data' = (if user_id \<noteq> [] then AList.update ''user_id'' (CStr user_id) data else data)
      in if \<not> list_all (\<lambda>(key, v). upgrades_getattr blank_upgrade key \<noteq> None) data'
         then (Inl TypeError, s)
         else (case upgrades_build data' of
                 None \<Rightarrow> (Inl DatabaseError, s)
               | Some obj0 \<Rightarrow>
                   let ids = map u_id (class_upgrades_tbl s);
                       obj = (if map_of data' ''id'' = None then obj0\<lparr>u_id := next_id ids\<rparr> else obj0)
                   in if ok \<and> map_of data' ''user_id'' \<noteq> None \<and> u_id obj \<notin> set ids
                      then (Inr obj, s\<lparr>class_upgrades_tbl := class_upgrades_tbl s @ [obj]\<rparr>)
                      else (Inl DatabaseError, s)))"

text \<open>
  Modelled from the spec: \<open>ProfilesService\<close> (\<open>services/profiles.py\<close> is not among the
  sources). The spec gives the member ledger as \<open>get_profile_by_member(member_id)\<close> and
  \<open>update_profile(profile_id, fields)\<close>, reading and writing whole fields; the two
  methods \<open>MembershipService\<close> calls are taken in the shape every service of the
  repository has (\<open>Class_upgradesService\<close> above), over the rows of \<open>models/profiles.py\<close>.
\<close>

definition profiles_get_list :: "nat \<Rightarrow> nat \<Rightarrow> string \<Rightarrow> db \<Rightarrow> profiles list" where
  "profiles_get_list skip limit user_id s =
     take limit (drop skip (rev (sort_key p_id
       (filter (\<lambda>r. user_id \<noteq> [] \<longrightarrow> p_user_id r = user_id) (profiles_tbl s)))))"

definition profiles_get_by_id :: "int \<Rightarrow> string \<Rightarrow> db \<Rightarrow> error + profiles option" where
  "profiles_get_by_id obj_id user_id s =
     (case filter (\<lambda>r. p_id r = obj_id \<and> (user_id \<noteq> [] \<longrightarrow> p_user_id r = user_id))
             (profiles_tbl s) of
        [] \<Rightarrow> Inr None
      | [r] \<Rightarrow> Inr (Some r)
      | _ \<Rightarrow> Inl MultipleResultsFound)"

definition profiles_apply :: "(string \<times> colval) list \<Rightarrow> profiles \<Rightarrow> profiles option" where
  "profiles_apply update_data obj =
     fold (\<lambda>(key, v) acc. case acc of
                            None \<Rightarrow> None
                          | Some r \<Rightarrow> if key \<noteq> ''user_id'' then profiles_setattr key v r else Some r)
       update_data (Some obj)"

definition profiles_update ::
  "bool \<Rightarrow> int \<Rightarrow> (string \<times> colval) list \<Rightarrow> string \<Rightarrow> db \<Rightarrow> (error + profiles option) \<times> db" where
  "profiles_update ok obj_id update_data user_id s =
     (case profiles_get_by_id obj_id user_id s of
        Inl e \<Rightarrow> (Inl e, s)
      | Inr None \<Rightarrow> (Inr None, s)
      | Inr (Some obj) \<Rightarrow>
          (case profiles_apply update_data obj of
             None \<Rightarrow> (Inl DatabaseError, s)
           | Some obj' \<Rightarrow>
               if ok \<and> (p_id obj' = obj_id \<or> p_id obj' \<notin> set (map p_id (profiles_tbl s)))
               then (Inr (Some obj'),
                     s\<lparr>profiles_tbl := map (\<lambda>r. if p_id r = obj_id then obj' else r) (profiles_tbl s)\<rparr>)
               else (Inl DatabaseError, s)))"

section \<open>\<open>MembershipService\<close>\<close>

text \<open>
  \<open>services/membership.py\<close>. The texts of the messages, with the characters beyond ASCII
  as the bytes of their UTF-8 encoding; the pieces of an f-string are numbered.
\<close>

definition msg_not_found :: string where
  "msg_not_found = ''Perfil n'' @ [CHR 0xC3, CHR 0xA3] @ ''o encontrado''"

definition msg_join_fee :: string where
  "msg_join_fee = ''Taxa de ades'' @ [CHR 0xC3, CHR 0xA3] @ ''o n'' @ [CHR 0xC3, CHR 0xA3] @ ''o paga''"

definition msg_months_1 :: string where
  "msg_months_1 = ''Necess'' @ [CHR 0xC3, CHR 0xA1] @ ''rio 6 meses pagos consecutivos. Voc'' @ [CHR 0xC3, CHR 0xAA] @ '' tem ''"

definition msg_months_2 :: string where
  "msg_months_2 = '' meses.''"

definition msg_arrears :: string where
  "msg_arrears = ''Mais de 2 meses em atraso. Regularize seus pagamentos.''"

definition msg_status :: string where
  "msg_status = ''Status da conta: ''"

definition msg_downgrade :: string where
  "msg_downgrade = ''N'' @ [CHR 0xC3, CHR 0xA3] @ ''o '' @ [CHR 0xC3, CHR 0xA9] @ '' poss'' @ [CHR 0xC3, CHR 0xAD] @ ''vel fazer downgrade de classe''"

definition msg_pending :: string where
  "msg_pending = ''Voc'' @ [CHR 0xC3, CHR 0xAA] @ '' j'' @ [CHR 0xC3, CHR 0xA1] @ '' tem uma solicita'' @ [CHR 0xC3, CHR 0xA7, CHR 0xC3, CHR 0xA3] @ ''o de upgrade pendente''"

definition msg_requested_1 :: string where
  "msg_requested_1 = ''Upgrade de classe ''"

definition msg_requested_2 :: string where
  "msg_requested_2 = '' para ''"

definition msg_requested_3 :: string where
  "msg_requested_3 = '' solicitado. O novo limite estar'' @ [CHR 0xC3, CHR 0xA1] @ '' dispon'' @ [CHR 0xC3, CHR 0xAD] @ ''vel ap'' @ [CHR 0xC3, CHR 0xB3] @ ''s 3 pagamentos.''"

definition msg_processed :: string where
  "msg_processed = ''Pagamento processado com sucesso''"

definition msg_activated_1 :: string where
  "msg_activated_1 = ''Upgrade para classe ''"

definition msg_activated_2 :: string where
  "msg_activated_2 = '' ativado! Novo limite dispon'' @ [CHR 0xC3, CHR 0xAD] @ ''vel.''"

definition class_info :: "(string \<times> dict) list" where
  "class_info =
     [(''A'', [(''monthly'', PFloat (Finite 25)), (''limit'', PFloat (Finite 2000))]),
      (''B'', [(''monthly'', PFloat (Finite 50)), (''limit'', PFloat (Finite 3000))]),
      (''C'', [(''monthly'', PFloat (Finite 75)), (''limit'', PFloat (Finite 5000))]),
      (''D'', [(''monthly'', PFloat (Finite 100)), (''limit'', PFloat (Finite 10000))])]"

definition get_class_limits :: "colval \<Rightarrow> dict" where
  "get_class_limits class_type =
     (let default = [(''monthly'', PInt 0), (''limit'', PInt 0)]
      in case class_type of
           CStr c \<Rightarrow> (case map_of class_info c of None \<Rightarrow> default | Some d \<Rightarrow> d)
         | _ \<Rightarrow> default)"

text \<open>
  \<open>check_eligibility\<close>, on the \<open>items\<close> that \<open>get_list(user_id=user_id, limit=1)\<close> gave.
  The attributes are read by the names the method uses.
\<close>

definition check_eligibility_items :: "pyobj list \<Rightarrow> error + dict" where
  "check_eligibility_items items =
     (case items of
        [] \<Rightarrow> Inr [(''eligible'', PBool False), (''reason'', PStr msg_not_found)]
      | profile # _ \<Rightarrow>
     (case getattr profile ''join_fee_paid'' of Inl e \<Rightarrow> Inl e | Inr join_fee_paid \<Rightarrow>
        if \<not> truthy join_fee_paid
        then Inr [(''eligible'', PBool False), (''reason'', PStr msg_join_fee)]
        else
     (case getattr profile ''paid_months_count'' of Inl e \<Rightarrow> Inl e | Inr paid_months_count \<Rightarrow>
     (case py_lt_int (py_or paid_months_count (CInt 0)) 6 of Inl e \<Rightarrow> Inl e | Inr too_few \<Rightarrow>
        if too_few
        then Inr [(''eligible'', PBool False),
                  (''reason'', PStr (msg_months_1 @ py_str (py_or paid_months_count (CInt 0))
                                      @ msg_months_2))]
        else
     (case getattr profile ''months_in_arrears'' of Inl e \<Rightarrow> Inl e | Inr months_in_arrears \<Rightarrow>
     (case py_gt_int (py_or months_in_arrears (CInt 0)) 2 of Inl e \<Rightarrow> Inl e | Inr too_late \<Rightarrow>
        if too_late
        then Inr [(''eligible'', PBool False), (''reason'', PStr msg_arrears)]
        else
     (case getattr profile ''membership_status'' of Inl e \<Rightarrow> Inl e | Inr membership_status \<Rightarrow>
        if membership_status \<noteq> CStr ''active''
        then Inr [(''eligible'', PBool False),
                  (''reason'', PStr (msg_status @ py_str membership_status))]
        else
     (case getattr profile ''membership_class'' of Inl e \<Rightarrow> Inl e | Inr membership_class \<Rightarrow>
     (case dict_get (get_class_limits membership_class) ''limit'' of
        None \<Rightarrow> Inl (KeyError ''limit'')
      | Some limit \<Rightarrow>
          Inr [(''eligible'', PBool True),
               (''class'', of_col membership_class),
               (''limit'', limit),
               (''paid_months'', of_col paid_months_count)])))))))))"

definition check_eligibility :: "string \<Rightarrow> db \<Rightarrow> error + dict" where
  "check_eligibility user_id s =
     check_eligibility_items (map profiles_getattr (profiles_get_list 0 1 user_id s))"

definition class_order :: "(string \<times> int) list" where
  "class_order = [(''A'', 1), (''B'', 2), (''C'', 3), (''D'', 4)]"

definition class_order_get :: "string \<Rightarrow> int" where
  "class_order_get c = (case map_of class_order c of None \<Rightarrow> 0 | Some n \<Rightarrow> n)"

text \<open>
  \<open>request_class_upgrade\<close>. \<open>ok_create\<close> and \<open>ok_update\<close> say whether the commit of
  \<open>create\<close> and the commit of the profile's \<open>update\<close> succeed; \<open>now1\<close> and \<open>now2\<close> are
  the two readings of the clock, formatted \<open>%Y-%m-%d %H:%M:%S\<close>. The result is the
  returned dictionary or the exception raised, with the tables as the call leaves them.
\<close>

definition request_class_upgrade ::
  "bool \<Rightarrow> bool \<Rightarrow> string \<Rightarrow> string \<Rightarrow> string \<Rightarrow> string \<Rightarrow> db \<Rightarrow> (error + dict) \<times> db" where
  "request_class_upgrade ok_create ok_update now1 now2 user_id to_class s =
     (case profiles_get_list 0 1 user_id s of
        [] \<Rightarrow> (Inl (ValueError msg_not_found), s)
      | profile # _ \<Rightarrow>
          let from_class = p_membership_class profile
          in if class_order_get to_class \<le> class_order_get from_class
             then (Inl (ValueError msg_downgrade), s)
             else if upgrades_get_list 0 20 user_id [(''status'', CStr ''pending'')] s \<noteq> []
             then (Inl (ValueError msg_pending), s)
             else
               (case upgrades_create ok_create
                       [(''user_id'', CStr user_id),
                        (''profile_id'', CInt (p_id profile)),
                        (''from_class'', CStr from_class),
                        (''to_class'', CStr to_class),
                        (''status'', CStr ''pending''),
                        (''payments_in_new_class'', CInt 0),
                        (''requested_at'', CStr now1)] user_id s of
                  (Inl e, s1) \<Rightarrow> (Inl e, s1)
                | (Inr upgrade, s1) \<Rightarrow>
                    (case profiles_update ok_update (p_id profile)
                            [(''membership_class'', CStr to_class), (''updated_at'', CStr now2)]
                            user_id s1 of
                       (Inl e, s2) \<Rightarrow> (Inl e, s2)
                     | (Inr _, s2) \<Rightarrow>
                         (Inr [(''success'', PBool True),
                               (''message'', PStr (msg_requested_1 @ from_class @ msg_requested_2
                                                    @ to_class @ msg_requested_3)),
                               (''upgrade_id'', PInt (u_id upgrade))], s2))))"

text \<open>
  \<open>process_monthly_payment\<close>. \<open>ok1\<close> and \<open>ok2\<close> are the outcomes of the commits of the
  two updates, \<open>now\<close> the formatted reading of the clock at the activation.
  \<open>upgrade.payments_in_new_class or 0\<close> is 0 for NULL and the counter otherwise.
\<close>

definition process_monthly_payment ::
  "bool \<Rightarrow> bool \<Rightarrow> string \<Rightarrow> string \<Rightarrow> db \<Rightarrow> (error + dict) \<times> db" where
  "process_monthly_payment ok1 ok2 now user_id s =
     (case profiles_get_list 0 1 user_id s of
        [] \<Rightarrow> (Inr [(''success'', PBool False), (''message'', PStr msg_not_found)], s)
      | profile # _ \<Rightarrow>
          (case upgrades_get_list 0 20 user_id [(''status'', CStr ''pending'')] s of
             [] \<Rightarrow> (Inr [(''success'', PBool True), (''message'', PStr msg_processed)], s)
           | upgrade # _ \<Rightarrow>
               let new_payments =
                     (case u_payments_in_new_class upgrade of None \<Rightarrow> 0 | Some n \<Rightarrow> n) + 1
               in (case upgrades_update ok1 (u_id upgrade)
                          [(''payments_in_new_class'', CInt new_payments)] user_id s of
                     (Inl e, s1) \<Rightarrow> (Inl e, s1)
                   | (Inr _, s1) \<Rightarrow>
                       if 3 \<le> new_payments
                       then (case upgrades_update ok2 (u_id upgrade)
                                    [(''status'', CStr ''active''), (''activated_at'', CStr now)]
                                    user_id s1 of
                               (Inl e, s2) \<Rightarrow> (Inl e, s2)
                             | (Inr _, s2) \<Rightarrow>
                                 (Inr [(''success'', PBool True),
                                       (''message'',
                                        PStr (msg_activated_1 @ py_str (col_str (u_to_class upgrade))
                                               @ msg_activated_2)),
                                       (''upgrade_activated'', PBool True)], s2))
                       else (Inr [(''success'', PBool True), (''message'', PStr msg_processed)], s1))))"

section \<open>Calendar dates\<close>

text \<open>
  \<open>datetime.date\<close>: a valid date has a year from 1 to 9999. Only the date of
  \<open>datetime.now()\<close> matters to the calculator: the time of day is neither formatted nor
  compared.
\<close>

record date =
  year :: int
  month :: int
  day :: int

definition is_leap :: "int \<Rightarrow> bool" where
  "is_leap y = (y mod 4 = 0 \<and> (y mod 100 \<noteq> 0 \<or> y mod 400 = 0))"

definition days_in_month :: "int \<Rightarrow> int \<Rightarrow> int" where
  "days_in_month y m =
     (if m = 2 then (if is_leap y then 29 else 28)
      else if m = 4 \<or> m = 6 \<or> m = 9 \<or> m = 11 then 30 else 31)"

definition valid_date :: "date \<Rightarrow> bool" where
  "valid_date d = (1 \<le> year d \<and> year d \<le> 9999 \<and> 1 \<le> month d \<and> month d \<le> 12 \<and>
                   1 \<le> day d \<and> day d \<le> days_in_month (year d) (month d))"

text \<open>
  \<open>dt + relativedelta(months=i)\<close> for \<open>i \<ge> 0\<close>: twelve months make a year, the month
  wraps past December, and the day is cut to the length of the month reached.
  \<open>shift_months\<close> is the date reached; \<open>add_months\<close> raises the \<open>ValueError\<close> of
  \<open>datetime.replace\<close> when its year is past 9999 (the messages of library exceptions are
  kept without the data they quote).
\<close>

definition shift_months :: "date \<Rightarrow> int \<Rightarrow> date" where
  "shift_months dt i =
     (let years = i div 12; months = i mod 12;
          y0 = year dt + years; m0 = month dt + months;
          y = (if 12 < m0 then y0 + 1 else y0);
          m = (if 12 < m0 then m0 - 12 else m0)
      in \<lparr>year = y, month = m, day = min (days_in_month y m) (day dt)\<rparr>)"

definition add_months :: "date \<Rightarrow> int \<Rightarrow> error + date" where
  "add_months dt i =
     (let r = shift_months dt i
      in if year r < 1 \<or> 9999 < year r then Inl (ValueError ''year is out of range'') else Inr r)"

text \<open>\<open>strftime("%Y-%m-%d")\<close>: four digits of year, two of month, two of day.\<close>

definition pad :: "nat \<Rightarrow> int \<Rightarrow> string" where
  "pad w n = (let s = str_nat (nat n) in replicate (w - length s) CHR ''0'' @ s)"

definition strftime :: "date \<Rightarrow> string" where
  "strftime d = pad 4 (year d) @ ''-'' @ pad 2 (month d) @ ''-'' @ pad 2 (day d)"

text \<open>
  A \<open>str\<close> is held as the bytes of its UTF-8 encoding (so are the messages above).
  \<open>utf8_head\<close> reads the first character of a string: its code point, and the rest.
  Bytes that are no encoding of a character (a stray continuation byte, a sequence cut
  short or longer than its code point needs) are read as no character.
\<close>

definition continuation :: "char \<Rightarrow> bool" where
  "continuation c = (128 \<le> (of_char c :: nat) \<and> (of_char c :: nat) < 192)"

definition utf8_head :: "string \<Rightarrow> (nat \<times> string) option" where
  "utf8_head s =
     (case s of
        [] \<Rightarrow> None
      | a # r \<Rightarrow>
          let n = (of_char a :: nat) in
          if n < 128 then Some (n, r)
          else if 192 \<le> n \<and> n < 224 then
            (case r of
               b # r1 \<Rightarrow>
                 let cp = (n - 192) * 64 + (of_char b - 128)
                 in if continuation b \<and> 128 \<le> cp then Some (cp, r1) else None
             | _ \<Rightarrow> None)
          else if 224 \<le> n \<and> n < 240 then
            (case r of
               b # c # r2 \<Rightarrow>
                 let cp = (n - 224) * 4096 + (of_char b - 128) * 64 + (of_char c - 128)
                 in if continuation b \<and> continuation c \<and> 2048 \<le> cp then Some (cp, r2)
                    else None
             | _ \<Rightarrow> None)
          else if 240 \<le> n \<and> n < 248 then
            (case r of
               b # c # d # r3 \<Rightarrow>
                 let cp = (n - 240) * 262144 + (of_char b - 128) * 4096
                          + (of_char c - 128) * 64 + (of_char d - 128)
                 in if continuation b \<and> continuation c \<and> continuation d \<and>
                       65536 \<le> cp \<and> cp \<le> 1114111
                    then Some (cp, r3) else None
             | _ \<Rightarrow> None)
          else None)"

text \<open>
  The decimal digits of Unicode (category Nd), which \<open>\d\<close> matches in the pattern of
  \<open>strptime\<close> and \<open>int\<close> converts: the digits of a script are ten consecutive code points
  from its zero. \<open>decimal_zeros\<close> lists the zeros of version 14.0 of the database, the
  one of CPython 3.11 (later versions add scripts); the first is the ASCII \<open>0\<close>.
\<close>

definition decimal_zeros :: "nat list" where
  "decimal_zeros =
     [48, 1632, 1776, 1984, 2406, 2534, 2662, 2790, 2918, 3046, 3174, 3302, 3430, 3558, 3664,
      3792, 3872, 4160, 4240, 6112, 6160, 6470, 6608, 6784, 6800, 6992, 7088, 7232, 7248,
      42528, 43216, 43264, 43472, 43504, 43600, 44016, 65296, 66720, 68912, 69734, 69872,
      69942, 70096, 70384, 70736, 70864, 71248, 71360, 71472, 71904, 72016, 72784, 73040,
      73120, 92768, 92864, 93008, 120782, 120792, 120802, 120812, 120822, 123200, 123632,
      125264, 130032]"

definition decimal_digit :: "nat \<Rightarrow> int option" where
  "decimal_digit c =
     (case find (\<lambda>z. z \<le> c \<and> c < z + 10) decimal_zeros of
        None \<Rightarrow> None
      | Some z \<Rightarrow> Some (int (c - z)))"

text \<open>\<open>\d\<close> at the head of a string: the value of the digit, and the rest.\<close>

definition digit :: "string \<Rightarrow> (int \<times> string) option" where
  "digit s =
     (case utf8_head s of
        None \<Rightarrow> None
      | Some (c, rest) \<Rightarrow>
          (case decimal_digit c of None \<Rightarrow> None | Some v \<Rightarrow> Some (v, rest)))"

text \<open>
  \<open>strptime(s, "%Y-%m-%d").date()\<close>. The pattern is
  \<open>(\d\d\d\d)-(1[0-2]|0[1-9]|[1-9])-(3[0-1]|[1-2]\d|0[1-9]|[1-9]| [1-9])\<close>: of the
  alternatives of the month and of the day the first that lets the match go on is
  taken, nothing may follow the day, each group is converted by \<open>int\<close>, and the three
  numbers must be a valid date. \<open>is_digit\<close> and \<open>digit_val\<close> are for the ASCII digits
  of the classes \<open>[0-9]\<close>.
\<close>

definition digit_val :: "char \<Rightarrow> int" where
  "digit_val c = int (of_char c) - 48"

definition is_digit :: "char \<Rightarrow> bool" where
  "is_digit c = (48 \<le> (of_char c :: nat) \<and> (of_char c :: nat) \<le> 57)"

definition parse_year :: "string \<Rightarrow> (int \<times> string) option" where
  "parse_year s =
     (case digit s of None \<Rightarrow> None | Some (y1, s1) \<Rightarrow>
     (case digit s1 of None \<Rightarrow> None | Some (y2, s2) \<Rightarrow>
     (case digit s2 of None \<Rightarrow> None | Some (y3, s3) \<Rightarrow>
     (case digit s3 of None \<Rightarrow> None | Some (y4, s4) \<Rightarrow>
        Some (1000 * y1 + 100 * y2 + 10 * y3 + y4, s4)))))"

definition parse_month :: "string \<Rightarrow> (int \<times> string) option" where
  "parse_month s =
     (case s of
        a # b # rest \<Rightarrow>
          if a = CHR ''1'' \<and> (b = CHR ''0'' \<or> b = CHR ''1'' \<or> b = CHR ''2'') \<and>
             take 1 rest = ''-''
          then Some (10 + digit_val b, drop 1 rest)
          else if a = CHR ''0'' \<and> is_digit b \<and> b \<noteq> CHR ''0'' \<and> take 1 rest = ''-''
          then Some (digit_val b, drop 1 rest)
          else if is_digit a \<and> a \<noteq> CHR ''0'' \<and> b = CHR ''-''
          then Some (digit_val a, rest)
          else None
      | _ \<Rightarrow> None)"

definition parse_day :: "string \<Rightarrow> (int \<times> string) option" where
  "parse_day s =
     (case s of
        [] \<Rightarrow> None
      | [a] \<Rightarrow> if is_digit a \<and> a \<noteq> CHR ''0'' then Some (digit_val a, []) else None
      | a # b # rest \<Rightarrow>
          if a = CHR ''3'' \<and> (b = CHR ''0'' \<or> b = CHR ''1'') then Some (30 + digit_val b, rest)
          else
            (case (if a = CHR ''1'' \<or> a = CHR ''2'' then digit (b # rest) else None) of
               Some (v, rest1) \<Rightarrow> Some (10 * digit_val a + v, rest1)
             | None \<Rightarrow>
                 if a = CHR ''0'' \<and> is_digit b \<and> b \<noteq> CHR ''0'' then Some (digit_val b, rest)
                 else if is_digit a \<and> a \<noteq> CHR ''0'' then Some (digit_val a, b # rest)
                 else if a = CHR '' '' \<and> is_digit b \<and> b \<noteq> CHR ''0''
                 then Some (digit_val b, rest)
                 else None))"

definition strptime :: "string \<Rightarrow> error + date" where
  "strptime s =
     (case parse_year s of
        Some (y, sep # rest) \<Rightarrow>
          if sep = CHR ''-''
          then (case parse_month rest of
                  None \<Rightarrow> Inl (ValueError ''time data does not match format'')
                | Some (m, rest1) \<Rightarrow>
                    (case parse_day rest1 of
                       None \<Rightarrow> Inl (ValueError ''time data does not match format'')
                     | Some (d, rest2) \<Rightarrow>
                         if rest2 \<noteq> [] then Inl (ValueError ''unconverted data remains'')
                         else let r = \<lparr>year = y, month = m, day = d\<rparr>
                              in if valid_date r then Inr r
                                 else Inl (ValueError ''date is out of range'')))
          else Inl (ValueError ''time data does not match format'')
      | _ \<Rightarrow> Inl (ValueError ''time data does not match format''))"

text \<open>The order of dates, and \<open>toordinal\<close>: the days from 0001-01-01, which is day 1.\<close>

definition date_less :: "date \<Rightarrow> date \<Rightarrow> bool" where
  "date_less a b =
     (year a < year b \<or> (year a = year b \<and>
        (month a < month b \<or> (month a = month b \<and> day a < day b))))"

definition days_before_year :: "int \<Rightarrow> int" where
  "days_before_year y = (y - 1) * 365 + (y - 1) div 4 - (y - 1) div 100 + (y - 1) div 400"

definition days_before_month :: "int \<Rightarrow> int \<Rightarrow> int" where
  "days_before_month y m = sum_list (map (days_in_month y) [1..m - 1])"

definition toordinal :: "date \<Rightarrow> int" where
  "toordinal d = days_before_year (year d) + days_before_month (year d) (month d) + day d"

text \<open>
  The day after a date in the calendar, to say what a number of days between two dates
  is: \<open>n\<close> days after \<open>d\<close> is \<open>(next_day ^^ n) d\<close>.
\<close>

definition next_day :: "date \<Rightarrow> date" where
  "next_day d =
     (if day d < days_in_month (year d) (month d) then d\<lparr>day := day d + 1\<rparr>
      else if month d < 12 then d\<lparr>month := month d + 1, day := 1\<rparr>
      else \<lparr>year = year d + 1, month = 1, day = 1\<rparr>)"

section \<open>\<open>RepaymentCalculator\<close>\<close>

text \<open>
  \<open>services/repayment_calculator.py\<close>. The dictionaries the two methods build and read
  have fixed keys, so they are records: an installment, a repayment plan (its fields
  under the prefix \<open>rp_\<close>), an overdue entry (\<open>od_\<close>) and the overdue report.
\<close>

record installment =
  installment_number :: int
  amount :: double
  due_date :: string
  status :: string

record repayment_plan =
  rp_approved_amount :: double
  rp_administrative_fee :: double
  rp_total_to_repay :: double
  rp_installments :: int
  rp_installment_amount :: double
  rp_schedule :: "installment list"
  rp_first_due_date :: string
  rp_last_due_date :: string

record overdue_entry =
  od_installment_number :: int
  od_amount :: double
  od_due_date :: string
  od_days_overdue :: int

record overdue_report =
  has_overdue :: bool
  overdue_count :: nat
  overdue_installments :: "overdue_entry list"
  total_overdue_amount :: pyval

text \<open>
  The loop of \<open>calculate_repayment_plan\<close> over \<open>range(1, installments + 1)\<close>: the first date
  that cannot be built ends it with the exception.
\<close>

fun build_schedule :: "date \<Rightarrow> double \<Rightarrow> int list \<Rightarrow> error + installment list" where
  "build_schedule current_date installment_amount [] = Inr []"
| "build_schedule current_date installment_amount (i # rest) =
     (case add_months current_date i of
        Inl e \<Rightarrow> Inl e
      | Inr due \<Rightarrow>
          (case build_schedule current_date installment_amount rest of
             Inl e \<Rightarrow> Inl e
           | Inr tail \<Rightarrow>
               Inr (\<lparr>installment_number = i, amount = py_round installment_amount 2,
                     due_date = strftime due, status = ''pending''\<rparr> # tail)))"

text \<open>
  \<open>calculate_repayment_plan\<close>; \<open>current_date\<close> is the date of \<open>datetime.now()\<close>. The
  literals \<open>1.02\<close> and \<open>0.02\<close> are the floats nearest to them.
\<close>

definition calculate_repayment_plan :: "date \<Rightarrow> double \<Rightarrow> int \<Rightarrow> error + repayment_plan" where
  "calculate_repayment_plan current_date approved_amount installments =
     (if installments < 1 \<or> 12 < installments
      then Inl (ValueError ''Installments must be between 1 and 12'')
      else
        let total_to_repay = fmul approved_amount (fl (102 / 100))
        in (case py_truediv total_to_repay installments of
              Inl e \<Rightarrow> Inl e
            | Inr installment_amount \<Rightarrow>
                (case build_schedule current_date installment_amount [1..installments] of
                   Inl e \<Rightarrow> Inl e
                 | Inr [] \<Rightarrow> Inl IndexError
                 | Inr (first # others) \<Rightarrow>
                     Inr \<lparr>rp_approved_amount = approved_amount,
                          rp_administrative_fee = fmul approved_amount (fl (2 / 100)),
                          rp_total_to_repay = py_round total_to_repay 2,
                          rp_installments = installments,
                          rp_installment_amount = py_round installment_amount 2,
                          rp_schedule = first # others,
                          rp_first_due_date = due_date first,
                          rp_last_due_date = due_date (last (first # others))\<rparr>)))"

text \<open>
  The loop of \<open>check_overdue_installments\<close>: only a pending installment has its due date
  parsed, and the first one that does not parse ends the loop with the exception.
\<close>

fun overdue_scan :: "date \<Rightarrow> installment list \<Rightarrow> error + overdue_entry list" where
  "overdue_scan today [] = Inr []"
| "overdue_scan today (inst # rest) =
     (if status inst = ''pending''
      then (case strptime (due_date inst) of
              Inl e \<Rightarrow> Inl e
            | Inr due \<Rightarrow>
                (case overdue_scan today rest of
                   Inl e \<Rightarrow> Inl e
                 | Inr overdue \<Rightarrow>
                     if date_less due today
                     then Inr (\<lparr>od_installment_number = installment_number inst,
                                od_amount = amount inst,
                                od_due_date = due_date inst,
                                od_days_overdue = toordinal today - toordinal due\<rparr> # overdue)
                     else Inr overdue))
      else overdue_scan today rest)"

text \<open>
  \<open>check_overdue_installments\<close>; \<open>today\<close> is the date of \<open>datetime.now()\<close>. The list it is
  given stays with the caller, so the model returns it too, as the call leaves it: the
  method reads the records with \<open>get\<close> and assigns to none of them, nor to the list.
\<close>

definition check_overdue_installments ::
  "date \<Rightarrow> installment list \<Rightarrow> (error + overdue_report) \<times> installment list" where
  "check_overdue_installments today insts =
     (case overdue_scan today insts of
        Inl e \<Rightarrow> (Inl e, insts)
      | Inr overdue \<Rightarrow>
          (Inr \<lparr>has_overdue = (0 < length overdue),
                overdue_count = length overdue,
                overdue_installments = overdue,
                total_overdue_amount = py_sum (map od_amount overdue)\<rparr>, insts))"

text \<open>
  The exact value of a finite float, and the exact sum of the amounts of a schedule.
\<close>

definition finite_value :: "double \<Rightarrow> rat" where
  "finite_value d = (case d of Finite a \<Rightarrow> a | _ \<Rightarrow> 0)"

definition schedule_total :: "installment list \<Rightarrow> rat" where
  "schedule_total sched = sum_list (map (\<lambda>inst. finite_value (amount inst)) sched)"

section \<open>Sample data\<close>

text \<open>A member of class B with one pending upgrade from A, used to instantiate the results.\<close>

definition demo_profile :: profiles where
  "demo_profile = \<lparr>p_id = 1, p_user_id = ''u1'', p_full_name = ''Ana'', p_phone = ''555'',
     p_membership_class = ''B'', p_account_status = ''active'',
     p_consecutive_months_paid = Some 7, p_months_late = Some 0,
     p_stripe_subscription_id = None, p_created_at = ''2024-01-01 00:00:00'',
     p_updated_at = ''2024-01-01 00:00:00''\<rparr>"

definition demo_upgrade :: class_upgrades where
  "demo_upgrade = \<lparr>u_id = 1, u_user_id = ''u1'', u_profile_id = Some 1, u_from_class = Some ''A'',
     u_to_class = Some ''B'', u_status = Some ''pending'', u_payments_in_new_class = Some 0,
     u_requested_at = Some ''2024-08-01 10:00:00'', u_activated_at = None\<rparr>"

definition demo_db :: db where
  "demo_db = \<lparr>profiles_tbl = [demo_profile], class_upgrades_tbl = [demo_upgrade]\<rparr>"


text \<open>The same member with a second, newer pending upgrade.\<close>

definition demo_upgrade_c :: class_upgrades where
  "demo_upgrade_c = \<lparr>u_id = 2, u_user_id = ''u1'', u_profile_id = Some 1, u_from_class = Some ''B'',
     u_to_class = Some ''C'', u_status = Some ''pending'', u_payments_in_new_class = Some 0,
     u_requested_at = Some ''2024-08-15 10:00:00'', u_activated_at = None\<rparr>"

definition demo_db_two :: db where
  "demo_db_two = \<lparr>profiles_tbl = [demo_profile], class_upgrades_tbl = [demo_upgrade, demo_upgrade_c]\<rparr>"

definition demo_profile_c :: profiles where
  "demo_profile_c = demo_profile\<lparr>p_membership_class := ''C''\<rparr>"

definition demo_db2 :: db where
  "demo_db2 = \<lparr>profiles_tbl = [demo_profile],
               class_upgrades_tbl = [demo_upgrade\<lparr>u_payments_in_new_class := Some 2\<rparr>]\<rparr>"

definition demo_profile_a :: profiles where
  "demo_profile_a = demo_profile\<lparr>p_membership_class := ''A''\<rparr>"

definition demo_db_a :: db where
  "demo_db_a = \<lparr>profiles_tbl = [demo_profile_a], class_upgrades_tbl = []\<rparr>"

definition demo_profile_new :: profiles where
  "demo_profile_new = demo_profile\<lparr>p_consecutive_months_paid := Some 0,
                                    p_account_status := ''paused''\<rparr>"

definition demo_today :: date where
  "demo_today = \<lparr>year = 2026, month = 11, day = 3\<rparr>"

text \<open>
  Six installments seen on \<open>demo_today\<close>: one paid; pending ones due ten days before, on
  the day, ten days after, the day before (written with one digit for the day) and, with
  the Arabic-Indic digit eight as its last character, on 2024-02-28.
\<close>

definition demo_installments :: "installment list" where
  "demo_installments =
     [\<lparr>installment_number = 1, amount = Finite 85, due_date = ''2026-09-24'', status = ''paid''\<rparr>,
      \<lparr>installment_number = 2, amount = Finite 85, due_date = ''2026-10-24'', status = ''pending''\<rparr>,
      \<lparr>installment_number = 3, amount = Finite 85, due_date = ''2026-11-03'', status = ''pending''\<rparr>,
      \<lparr>installment_number = 4, amount = Finite 85, due_date = ''2026-11-13'', status = ''pending''\<rparr>,
      \<lparr>installment_number = 5, amount = Finite (201 / 2), due_date = ''2026-11-2'',
        status = ''pending''\<rparr>,
      \<lparr>installment_number = 6, amount = Finite (169 / 4),
        due_date = ''2024-02-2'' @ [CHR 0xD9, CHR 0xA8], status = ''pending''\<rparr>]"

text \<open>
  The plan for 6.25 in three installments, asked on \<open>demo_today\<close>: the total is the
  float 6.38 and each installment the float 2.12.
\<close>

definition demo_plan :: repayment_plan where
  "demo_plan =
     \<lparr>rp_approved_amount = Finite (25 / 4),
      rp_administrative_fee = Finite (1 / 8),
      rp_total_to_repay = Finite (7183241405655941 / 1125899906842624),
      rp_installments = 3,
      rp_installment_amount = Finite (2386907802506363 / 1125899906842624),
      rp_schedule =
        [\<lparr>installment_number = 1, amount = Finite (2386907802506363 / 1125899906842624),
          due_date = ''2026-12-03'', status = ''pending''\<rparr>,
         \<lparr>installment_number = 2, amount = Finite (2386907802506363 / 1125899906842624),
          due_date = ''2027-01-03'', status = ''pending''\<rparr>,
         \<lparr>installment_number = 3, amount = Finite (2386907802506363 / 1125899906842624),
          due_date = ''2027-02-03'', status = ''pending''\<rparr>],
      rp_first_due_date = ''2026-12-03'',
      rp_last_due_date = ''2027-02-03''\<rparr>"


section \<open>Lists of rows\<close>

lemma filter_key_single:
  assumes "distinct (map f xs)" and "x \<in> set xs" and "Q x"
  shows "filter (\<lambda>r. f r = f x \<and> Q r) xs = [x]"
  using assms
proof (induction xs)
  case Nil
  then show ?case by simp
next
  case (Cons a xs)
  show ?case
  proof (cases "a = x")
    case True
    with Cons.prems have "f x \<notin> f ` set xs" by simp
    then have "\<forall>r \<in> set xs. f r \<noteq> f x" by (metis imageI)
    then have "filter (\<lambda>r. f r = f x \<and> Q r) xs = []" by (simp add: filter_empty_conv)
    with True Cons.prems show ?thesis by simp
  next
    case False
    with Cons.prems have "x \<in> set xs" by simp
    with Cons.prems have "f a \<noteq> f x" by auto
    with Cons \<open>x \<in> set xs\<close> show ?thesis by simp
  qed
qed

lemma newest_first_member:
  "u \<in> set (take n (drop k (rev (sort_key f xs)))) \<Longrightarrow> u \<in> set xs"
  by (metis in_set_dropD in_set_takeD set_rev set_sort)

lemma newest_first_nonempty:
  "xs \<noteq> [] \<Longrightarrow> take (Suc n) (drop 0 (rev (sort_key f xs))) \<noteq> []"
  by (cases "rev (sort_key f xs)") (auto dest: arg_cong[where f=length])

lemma pending_match:
  "(case upgrades_getattr r ''status'' of None \<Rightarrow> True | Some c \<Rightarrow> c = CStr ''pending'')
     = (u_status r = Some ''pending'')"
  by (simp add: upgrades_getattr_def col_str_def split: option.splits)


lemma key_inj:
  "distinct (map f xs) \<Longrightarrow> r \<in> set xs \<Longrightarrow> u \<in> set xs \<Longrightarrow> f r = f u \<Longrightarrow> r = u"
  by (meson distinct_map inj_onD)

lemma replace_keys:
  "f u' = k \<Longrightarrow> map f (map (\<lambda>r. if f r = k then u' else r) xs) = map f xs"
  by (induction xs) auto

lemma replace_keys_comp:
  "f u' = k \<Longrightarrow> map (f \<circ> (\<lambda>r. if f r = k then u' else r)) xs = map f xs"
  by (induction xs) auto

lemma replace_member:
  "u \<in> set xs \<Longrightarrow> u' \<in> set (map (\<lambda>r. if f r = f u then u' else r) xs)"
  by (induction xs) auto

lemma replace_twice:
  "f u' = k \<Longrightarrow>
   map (\<lambda>r. if f r = k then u'' else r) (map (\<lambda>r. if f r = k then u' else r) xs)
     = map (\<lambda>r. if f r = k then u'' else r) xs"
  by (induction xs) auto

lemma insort_key_commute:
  assumes "\<And>y. f (g y) = f y"
  shows "insort_key f (g x) (map g xs) = map g (insort_key f x xs)"
  by (induction xs) (simp_all add: assms)

lemma sort_key_commute:
  assumes "\<And>y. f (g y) = f y"
  shows "sort_key f (map g xs) = map g (sort_key f xs)"
  by (induction xs) (simp_all add: insort_key_commute[of f g, OF assms])

lemma pending_list_eq:
  "upgrades_get_list 0 20 user_id [(''status'', CStr ''pending'')] s =
     take 20 (drop 0 (rev (sort_key u_id
       (filter (\<lambda>r. (user_id \<noteq> [] \<longrightarrow> u_user_id r = user_id) \<and> u_status r = Some ''pending'')
          (class_upgrades_tbl s)))))"
  by (simp add: upgrades_get_list_def pending_match)

lemma upgrades_get_by_id_present:
  assumes "distinct (map u_id (class_upgrades_tbl s))" and "u \<in> set (class_upgrades_tbl s)"
    and "user_id \<noteq> [] \<longrightarrow> u_user_id u = user_id"
  shows "upgrades_get_by_id (u_id u) user_id s = Inr (Some u)"
  using filter_key_single[OF assms(1,2), of "\<lambda>r. user_id \<noteq> [] \<longrightarrow> u_user_id r = user_id"] assms(3)
  by (simp add: upgrades_get_by_id_def)

lemma upgrades_update_present:
  assumes "distinct (map u_id (class_upgrades_tbl s))" and "u \<in> set (class_upgrades_tbl s)"
    and "user_id \<noteq> [] \<longrightarrow> u_user_id u = user_id"
    and "upgrades_apply update_data u = Some u'" and "u_id u' = u_id u"
  shows "upgrades_update True (u_id u) update_data user_id s =
           (Inr (Some u'),
            s\<lparr>class_upgrades_tbl :=
                map (\<lambda>r. if u_id r = u_id u then u' else r) (class_upgrades_tbl s)\<rparr>)"
  using upgrades_get_by_id_present[OF assms(1,2,3)] assms(4,5)
  by (simp add: upgrades_update_def)

lemma apply_payments:
  "upgrades_apply [(''payments_in_new_class'', CInt n)] u = Some (u\<lparr>u_payments_in_new_class := Some n\<rparr>)"
  by (simp add: upgrades_apply_def upgrades_setattr_def to_int_null_def)

lemma apply_activate:
  "upgrades_apply [(''status'', CStr ''active''), (''activated_at'', CStr now)] u =
     Some (u\<lparr>u_status := Some ''active'', u_activated_at := Some now\<rparr>)"
  by (simp add: upgrades_apply_def upgrades_setattr_def to_str_null_def)


lemma newest_first_distinct:
  assumes "distinct (map f xs)"
  shows "distinct (take n (drop k (rev (sort_key f (filter M xs)))))"
proof -
  have "distinct xs" using assms by (simp add: distinct_map)
  then have "distinct (rev (sort_key f (filter M xs)))" by simp
  then show ?thesis by (intro distinct_take distinct_drop)
qed

lemma pending_headD:
  assumes wf: "distinct (map u_id (class_upgrades_tbl s))"
    and pend: "upgrades_get_list 0 20 user_id [(''status'', CStr ''pending'')] s = u # rest"
  shows "u \<in> set (class_upgrades_tbl s)" and "user_id \<noteq> [] \<longrightarrow> u_user_id u = user_id"
    and "u_status u = Some ''pending''"
    and "\<forall>r \<in> set rest. u_id r \<noteq> u_id u"
proof -
  let ?M = "\<lambda>r. (user_id \<noteq> [] \<longrightarrow> u_user_id r = user_id) \<and> u_status r = Some ''pending''"
  let ?L = "take 20 (drop 0 (rev (sort_key u_id (filter ?M (class_upgrades_tbl s)))))"
  have L: "?L = u # rest" using pend by (simp only: pending_list_eq)
  have "u \<in> set ?L" unfolding L by simp
  then have "u \<in> set (filter ?M (class_upgrades_tbl s))" by (rule newest_first_member)
  then show mem: "u \<in> set (class_upgrades_tbl s)" and "user_id \<noteq> [] \<longrightarrow> u_user_id u = user_id"
    and "u_status u = Some ''pending''" by simp_all
  have "distinct ?L" using wf by (rule newest_first_distinct)
  then have nu: "u \<notin> set rest" unfolding L by simp
  show "\<forall>r \<in> set rest. u_id r \<noteq> u_id u"
  proof
    fix r assume r: "r \<in> set rest"
    then have "r \<in> set ?L" unfolding L by simp
    then have "r \<in> set (filter ?M (class_upgrades_tbl s))" by (rule newest_first_member)
    then have rm: "r \<in> set (class_upgrades_tbl s)" by simp
    from r nu have "r \<noteq> u" by blast
    then show "u_id r \<noteq> u_id u" using key_inj[OF wf rm mem] by blast
  qed
qed

lemma replace_pending_head:
  assumes wf: "distinct (map u_id (class_upgrades_tbl s))"
    and pend: "upgrades_get_list 0 20 user_id [(''status'', CStr ''pending'')] s = u # rest"
    and s1: "class_upgrades_tbl s1 = map (\<lambda>r. if u_id r = u_id u then u' else r) (class_upgrades_tbl s)"
    and same: "u_id u' = u_id u" "u_user_id u' = u_user_id u" "u_status u' = u_status u"
  shows "upgrades_get_list 0 20 user_id [(''status'', CStr ''pending'')] s1 = u' # rest"
proof -
  let ?M = "\<lambda>r. (user_id \<noteq> [] \<longrightarrow> u_user_id r = user_id) \<and> u_status r = Some ''pending''"
  let ?g = "\<lambda>r. if u_id r = u_id u then u' else r"
  note d = pending_headD[OF wf pend]
  have "\<forall>r \<in> set (class_upgrades_tbl s). (?M \<circ> ?g) r = ?M r"
    using key_inj[OF wf _ d(1)] d(2,3) same(2,3) by auto
  then have "filter (?M \<circ> ?g) (class_upgrades_tbl s) = filter ?M (class_upgrades_tbl s)"
    by (intro filter_cong) auto
  then have f: "filter ?M (map ?g (class_upgrades_tbl s)) = map ?g (filter ?M (class_upgrades_tbl s))"
    by (simp only: filter_map)
  have k: "u_id (?g y) = u_id y" for y using same(1) by simp
  have "upgrades_get_list 0 20 user_id [(''status'', CStr ''pending'')] s1
          = map ?g (take 20 (drop 0 (rev (sort_key u_id (filter ?M (class_upgrades_tbl s))))))"
    unfolding pending_list_eq s1 f sort_key_commute[of u_id ?g, OF k]
    by (simp only: rev_map drop_map take_map)
  also have "take 20 (drop 0 (rev (sort_key u_id (filter ?M (class_upgrades_tbl s))))) = u # rest"
    using pend by (simp only: pending_list_eq)
  finally have e: "upgrades_get_list 0 20 user_id [(''status'', CStr ''pending'')] s1
                     = u' # map ?g rest" by simp
  have "map ?g rest = map (\<lambda>r. r) rest"
    by (rule map_cong) (use d(4) in auto)
  with e show ?thesis by simp
qed

lemma pmp_count:
  assumes wf: "distinct (map u_id (class_upgrades_tbl s))"
    and prof: "profiles_get_list 0 1 user_id s \<noteq> []"
    and pend: "upgrades_get_list 0 20 user_id [(''status'', CStr ''pending'')] s = u # rest"
    and cnt: "u_payments_in_new_class u = Some n" and lt: "n + 1 < 3"
  shows "process_monthly_payment True ok2 now user_id s =
           (Inr [(''success'', PBool True), (''message'', PStr msg_processed)],
            s\<lparr>class_upgrades_tbl :=
                map (\<lambda>r. if u_id r = u_id u then u\<lparr>u_payments_in_new_class := Some (n + 1)\<rparr> else r)
                  (class_upgrades_tbl s)\<rparr>)"
proof -
  from prof obtain p ps where p: "profiles_get_list 0 1 user_id s = p # ps"
    by (cases "profiles_get_list 0 1 user_id s") auto
  note d = pending_headD[OF wf pend]
  have upd: "upgrades_update True (u_id u) [(''payments_in_new_class'', CInt (n + 1))] user_id s =
           (Inr (Some (u\<lparr>u_payments_in_new_class := Some (n + 1)\<rparr>)),
            s\<lparr>class_upgrades_tbl :=
                map (\<lambda>r. if u_id r = u_id u then u\<lparr>u_payments_in_new_class := Some (n + 1)\<rparr> else r)
                  (class_upgrades_tbl s)\<rparr>)"
    by (rule upgrades_update_present[OF wf d(1,2)]) (simp_all add: apply_payments)
  show ?thesis
    using lt p by (simp add: process_monthly_payment_def pend cnt upd)
qed

lemma replace_post:
  assumes wf: "distinct (map u_id (class_upgrades_tbl s))"
    and pend: "upgrades_get_list 0 20 user_id [(''status'', CStr ''pending'')] s = u # rest"
    and s1: "s1 = s\<lparr>class_upgrades_tbl :=
                map (\<lambda>r. if u_id r = u_id u then u' else r) (class_upgrades_tbl s)\<rparr>"
    and same: "u_id u' = u_id u" "u_user_id u' = u_user_id u" "u_status u' = u_status u"
  shows "distinct (map u_id (class_upgrades_tbl s1))"
    and "profiles_get_list 0 1 user_id s1 = profiles_get_list 0 1 user_id s"
    and "upgrades_get_list 0 20 user_id [(''status'', CStr ''pending'')] s1 = u' # rest"
proof -
  show "distinct (map u_id (class_upgrades_tbl s1))"
    using wf same(1) by (simp add: s1 replace_keys_comp)
  show "profiles_get_list 0 1 user_id s1 = profiles_get_list 0 1 user_id s"
    by (simp add: s1 profiles_get_list_def)
  have t: "class_upgrades_tbl s1
             = map (\<lambda>r. if u_id r = u_id u then u' else r) (class_upgrades_tbl s)"
    by (simp add: s1)
  show "upgrades_get_list 0 20 user_id [(''status'', CStr ''pending'')] s1 = u' # rest"
    by (rule replace_pending_head[OF wf pend t same])
qed

lemma pmp_activate:
  assumes wf: "distinct (map u_id (class_upgrades_tbl s))"
    and prof: "profiles_get_list 0 1 user_id s \<noteq> []"
    and pend: "upgrades_get_list 0 20 user_id [(''status'', CStr ''pending'')] s = u # rest"
    and cnt: "u_payments_in_new_class u = Some n" and ge: "3 \<le> n + 1"
  shows "process_monthly_payment True True now user_id s =
           (Inr [(''success'', PBool True),
                 (''message'', PStr (msg_activated_1 @ py_str (col_str (u_to_class u)) @ msg_activated_2)),
                 (''upgrade_activated'', PBool True)],
            s\<lparr>class_upgrades_tbl :=
                map (\<lambda>r. if u_id r = u_id u
                          then u\<lparr>u_payments_in_new_class := Some (n + 1), u_status := Some ''active'',
                                 u_activated_at := Some now\<rparr>
                          else r)
                  (class_upgrades_tbl s)\<rparr>)"
proof -
  from prof obtain p ps where p: "profiles_get_list 0 1 user_id s = p # ps"
    by (cases "profiles_get_list 0 1 user_id s") auto
  note d = pending_headD[OF wf pend]
  let ?u1 = "u\<lparr>u_payments_in_new_class := Some (n + 1)\<rparr>"
  let ?s1 = "s\<lparr>class_upgrades_tbl :=
                map (\<lambda>r. if u_id r = u_id u then ?u1 else r) (class_upgrades_tbl s)\<rparr>"
  have upd1: "upgrades_update True (u_id u) [(''payments_in_new_class'', CInt (n + 1))] user_id s =
           (Inr (Some ?u1), ?s1)"
    by (rule upgrades_update_present[OF wf d(1,2)]) (simp_all add: apply_payments)
  have wf1: "distinct (map u_id (class_upgrades_tbl ?s1))"
    using wf by (simp add: replace_keys_comp)
  have mem1: "?u1 \<in> set (class_upgrades_tbl ?s1)"
    using replace_member[OF d(1), of ?u1 u_id] by simp
  have "upgrades_update True (u_id ?u1) [(''status'', CStr ''active''), (''activated_at'', CStr now)]
          user_id ?s1 =
        (Inr (Some (?u1\<lparr>u_status := Some ''active'', u_activated_at := Some now\<rparr>)),
         ?s1\<lparr>class_upgrades_tbl :=
               map (\<lambda>r. if u_id r = u_id ?u1
                         then ?u1\<lparr>u_status := Some ''active'', u_activated_at := Some now\<rparr> else r)
                 (class_upgrades_tbl ?s1)\<rparr>)"
    by (rule upgrades_update_present[OF wf1 mem1]) (use d in \<open>simp_all add: apply_activate\<close>)
  then have upd2: "upgrades_update True (u_id u) [(''status'', CStr ''active''), (''activated_at'', CStr now)]
          user_id ?s1 =
        (Inr (Some (?u1\<lparr>u_status := Some ''active'', u_activated_at := Some now\<rparr>)),
         s\<lparr>class_upgrades_tbl :=
                map (\<lambda>r. if u_id r = u_id u
                          then u\<lparr>u_payments_in_new_class := Some (n + 1), u_status := Some ''active'',
                                 u_activated_at := Some now\<rparr>
                          else r)
                  (class_upgrades_tbl s)\<rparr>)"
    by (simp add: comp_def if_distrib cong: if_cong)
  show ?thesis
    using ge p by (simp add: process_monthly_payment_def pend cnt upd1 upd2)
qed


section \<open>The upgrade is activated by the third payment\<close>

text \<open>
  C1, as amended. Take a member with a profile whose newest pending upgrade \<open>u\<close> (the
  head of the list \<open>get_list\<close> returns, which is ordered by \<open>id\<close>, highest first) has
  \<open>payments_in_new_class = 0\<close>, in a table whose \<open>id\<close>s are distinct (the primary key),
  and let the commits succeed. Three calls of \<open>process_monthly_payment\<close> then go as
  follows: the first two return the plain success dictionary and leave \<open>u\<close> pending, at
  the head of the same list, with counter 1 and 2; the third returns
  \<open>upgrade_activated = True\<close> and leaves \<open>u\<close> with counter 3, status \<open>active\<close> and
  \<open>activated_at\<close> the time of that call. After each call the tables are the ones before
  the first call with the row of \<open>u\<close> replaced: no other row is written, so an older
  pending upgrade of the member stays pending with its counter as it was.
\<close>

theorem upgrade_activates_on_third_payment:
  assumes wf: "distinct (map u_id (class_upgrades_tbl s))"
    and prof: "profiles_get_list 0 1 user_id s \<noteq> []"
    and pend: "upgrades_get_list 0 20 user_id [(''status'', CStr ''pending'')] s = u # rest"
    and cnt: "u_payments_in_new_class u = Some 0"
    and c1: "process_monthly_payment True True t1 user_id s = (r1, s1)"
    and c2: "process_monthly_payment True True t2 user_id s1 = (r2, s2)"
    and c3: "process_monthly_payment True True t3 user_id s2 = (r3, s3)"
  shows "r1 = Inr [(''success'', PBool True), (''message'', PStr msg_processed)]
       \<and> s1 = s\<lparr>class_upgrades_tbl :=
                  map (\<lambda>r. if u_id r = u_id u then u\<lparr>u_payments_in_new_class := Some 1\<rparr> else r)
                    (class_upgrades_tbl s)\<rparr>
       \<and> upgrades_get_list 0 20 user_id [(''status'', CStr ''pending'')] s1
           = u\<lparr>u_payments_in_new_class := Some 1\<rparr> # rest
       \<and> r2 = Inr [(''success'', PBool True), (''message'', PStr msg_processed)]
       \<and> s2 = s\<lparr>class_upgrades_tbl :=
                  map (\<lambda>r. if u_id r = u_id u then u\<lparr>u_payments_in_new_class := Some 2\<rparr> else r)
                    (class_upgrades_tbl s)\<rparr>
       \<and> upgrades_get_list 0 20 user_id [(''status'', CStr ''pending'')] s2
           = u\<lparr>u_payments_in_new_class := Some 2\<rparr> # rest
       \<and> r3 = Inr [(''success'', PBool True),
                   (''message'', PStr (msg_activated_1 @ py_str (col_str (u_to_class u))
                                        @ msg_activated_2)),
                   (''upgrade_activated'', PBool True)]
       \<and> s3 = s\<lparr>class_upgrades_tbl :=
                  map (\<lambda>r. if u_id r = u_id u
                            then u\<lparr>u_payments_in_new_class := Some 3, u_status := Some ''active'',
                                   u_activated_at := Some t3\<rparr>
                            else r)
                    (class_upgrades_tbl s)\<rparr>
       \<and> upgrades_get_by_id (u_id u) user_id s3
           = Inr (Some (u\<lparr>u_payments_in_new_class := Some 3, u_status := Some ''active'',
                           u_activated_at := Some t3\<rparr>))"
proof -
  let ?u1 = "u\<lparr>u_payments_in_new_class := Some 1\<rparr>"
  let ?u2 = "u\<lparr>u_payments_in_new_class := Some 2\<rparr>"
  let ?u3 = "u\<lparr>u_payments_in_new_class := Some 3, u_status := Some ''active'',
               u_activated_at := Some t3\<rparr>"
  let ?rep = "\<lambda>x. s\<lparr>class_upgrades_tbl :=
                   map (\<lambda>r. if u_id r = u_id u then x else r) (class_upgrades_tbl s)\<rparr>"
  note d = pending_headD[OF wf pend]
  \<comment> \<open>first payment\<close>
  from pmp_count[OF wf prof pend cnt, of True t1] c1
  have r1: "r1 = Inr [(''success'', PBool True), (''message'', PStr msg_processed)]"
    and s1: "s1 = ?rep ?u1"
    by simp_all
  have post1: "distinct (map u_id (class_upgrades_tbl s1))"
    "profiles_get_list 0 1 user_id s1 = profiles_get_list 0 1 user_id s"
    "upgrades_get_list 0 20 user_id [(''status'', CStr ''pending'')] s1 = ?u1 # rest"
    by (rule replace_post[OF wf pend s1]; simp)+
  \<comment> \<open>second payment\<close>
  have prof1: "profiles_get_list 0 1 user_id s1 \<noteq> []" using prof post1(2) by simp
  have cnt1: "u_payments_in_new_class ?u1 = Some 1" by simp
  from pmp_count[OF post1(1) prof1 post1(3) cnt1, of True t2] c2
  have r2: "r2 = Inr [(''success'', PBool True), (''message'', PStr msg_processed)]"
    and s2': "s2 = s1\<lparr>class_upgrades_tbl :=
                map (\<lambda>r. if u_id r = u_id ?u1 then ?u2 else r) (class_upgrades_tbl s1)\<rparr>"
    by simp_all
  have post2: "distinct (map u_id (class_upgrades_tbl s2))"
    "profiles_get_list 0 1 user_id s2 = profiles_get_list 0 1 user_id s1"
    "upgrades_get_list 0 20 user_id [(''status'', CStr ''pending'')] s2 = ?u2 # rest"
    by (rule replace_post[OF post1(1) post1(3) s2']; simp)+
  have s2: "s2 = ?rep ?u2"
    unfolding s2' s1 by (simp add: replace_twice)
  \<comment> \<open>third payment\<close>
  have prof2: "profiles_get_list 0 1 user_id s2 \<noteq> []" using prof1 post2(2) by simp
  have cnt2: "u_payments_in_new_class ?u2 = Some 2" by simp
  from pmp_activate[OF post2(1) prof2 post2(3) cnt2, of t3] c3
  have r3: "r3 = Inr [(''success'', PBool True),
                   (''message'', PStr (msg_activated_1 @ py_str (col_str (u_to_class u))
                                        @ msg_activated_2)),
                   (''upgrade_activated'', PBool True)]"
    and s3': "s3 = s2\<lparr>class_upgrades_tbl :=
                map (\<lambda>r. if u_id r = u_id ?u2 then ?u3 else r) (class_upgrades_tbl s2)\<rparr>"
    by simp_all
  have s3: "s3 = ?rep ?u3"
    unfolding s3' s2 by (simp add: replace_twice)
  have wf3: "distinct (map u_id (class_upgrades_tbl s3))"
    using wf by (simp add: s3 replace_keys_comp)
  from replace_member[OF d(1), of ?u3 u_id]
  have mem3: "?u3 \<in> set (class_upgrades_tbl s3)" by (simp add: s3)
  have g3: "upgrades_get_by_id (u_id u) user_id s3 = Inr (Some ?u3)"
    using upgrades_get_by_id_present[OF wf3 mem3] d(2) by simp
  show ?thesis using r1 s1 post1(3) r2 s2 post2(3) r3 s3 g3 by simp
qed


lemma demo_db_two_lists:
  "profiles_get_list 0 1 ''u1'' demo_db_two = [demo_profile]"
  "upgrades_get_list 0 20 ''u1'' [(''status'', CStr ''pending'')] demo_db_two
     = [demo_upgrade_c, demo_upgrade]"
  "distinct (map u_id (class_upgrades_tbl demo_db_two))"
  by (simp_all add: demo_db_two_def profiles_get_list_def pending_list_eq demo_profile_def
      demo_upgrade_def demo_upgrade_c_def)


lemma demo_db_two_payments:
  "process_monthly_payment True True ''2024-09-01 10:00:00'' ''u1'' demo_db_two
     = (Inr [(''success'', PBool True), (''message'', PStr msg_processed)],
        \<lparr>profiles_tbl = [demo_profile],
         class_upgrades_tbl = [demo_upgrade, demo_upgrade_c\<lparr>u_payments_in_new_class := Some 1\<rparr>]\<rparr>)"
  "process_monthly_payment True True ''2024-10-01 10:00:00'' ''u1''
        \<lparr>profiles_tbl = [demo_profile],
         class_upgrades_tbl = [demo_upgrade, demo_upgrade_c\<lparr>u_payments_in_new_class := Some 1\<rparr>]\<rparr>
     = (Inr [(''success'', PBool True), (''message'', PStr msg_processed)],
        \<lparr>profiles_tbl = [demo_profile],
         class_upgrades_tbl = [demo_upgrade, demo_upgrade_c\<lparr>u_payments_in_new_class := Some 2\<rparr>]\<rparr>)"
  "process_monthly_payment True True ''2024-11-01 10:00:00'' ''u1''
        \<lparr>profiles_tbl = [demo_profile],
         class_upgrades_tbl = [demo_upgrade, demo_upgrade_c\<lparr>u_payments_in_new_class := Some 2\<rparr>]\<rparr>
     = (Inr [(''success'', PBool True),
             (''message'', PStr (msg_activated_1 @ ''C'' @ msg_activated_2)),
             (''upgrade_activated'', PBool True)],
        \<lparr>profiles_tbl = [demo_profile],
         class_upgrades_tbl = [demo_upgrade,
            demo_upgrade_c\<lparr>u_payments_in_new_class := Some 3, u_status := Some ''active'',
                            u_activated_at := Some ''2024-11-01 10:00:00''\<rparr>]\<rparr>)"
  by (simp_all add: process_monthly_payment_def demo_db_two_def profiles_get_list_def demo_profile_def
      pending_list_eq demo_upgrade_def demo_upgrade_c_def upgrades_update_def upgrades_get_by_id_def
      apply_payments apply_activate col_str_def)


text \<open>
  C1 as stated fails for a pending upgrade that is not the newest one. The member of
  \<open>demo_db_two\<close> has two pending upgrades with counter 0; the three payments count on the
  one with \<open>id\<close> 2, and the one with \<open>id\<close> 1 is as it was after the third call: pending,
  counter 0.
\<close>

theorem upgrade_activates_on_third_payment_counterexample:
  "demo_upgrade \<in> set (class_upgrades_tbl demo_db_two)
   \<and> u_user_id demo_upgrade = ''u1''
   \<and> u_status demo_upgrade = Some ''pending''
   \<and> u_payments_in_new_class demo_upgrade = Some 0
   \<and> profiles_get_list 0 1 ''u1'' demo_db_two = [demo_profile]
   \<and> (let (r1, s1) = process_monthly_payment True True ''2024-09-01 10:00:00'' ''u1'' demo_db_two;
            (r2, s2) = process_monthly_payment True True ''2024-10-01 10:00:00'' ''u1'' s1;
            (r3, s3) = process_monthly_payment True True ''2024-11-01 10:00:00'' ''u1'' s2
        in upgrades_get_by_id (u_id demo_upgrade) ''u1'' s3 = Inr (Some demo_upgrade)
         \<and> upgrades_get_list 0 20 ''u1'' [(''status'', CStr ''pending'')] s3 = [demo_upgrade])"
proof -
  have a: "demo_upgrade \<in> set (class_upgrades_tbl demo_db_two)"
    by (simp add: demo_db_two_def)
  have b: "u_user_id demo_upgrade = ''u1''" "u_status demo_upgrade = Some ''pending''"
    "u_payments_in_new_class demo_upgrade = Some 0"
    by (simp_all add: demo_upgrade_def)
  have c: "profiles_get_list 0 1 ''u1'' demo_db_two = [demo_profile]"
    by (rule demo_db_two_lists)
  have d: "upgrades_get_by_id (u_id demo_upgrade) ''u1''
             \<lparr>profiles_tbl = [demo_profile],
              class_upgrades_tbl = [demo_upgrade,
                demo_upgrade_c\<lparr>u_payments_in_new_class := Some 3, u_status := Some ''active'',
                                u_activated_at := Some ''2024-11-01 10:00:00''\<rparr>]\<rparr>
           = Inr (Some demo_upgrade)"
    by (simp add: demo_upgrade_def demo_upgrade_c_def upgrades_get_by_id_def)
  have e: "upgrades_get_list 0 20 ''u1'' [(''status'', CStr ''pending'')]
             \<lparr>profiles_tbl = [demo_profile],
              class_upgrades_tbl = [demo_upgrade,
                demo_upgrade_c\<lparr>u_payments_in_new_class := Some 3, u_status := Some ''active'',
                                u_activated_at := Some ''2024-11-01 10:00:00''\<rparr>]\<rparr>
           = [demo_upgrade]"
    by (simp add: demo_upgrade_def demo_upgrade_c_def pending_list_eq)
  show ?thesis
    unfolding demo_db_two_payments Let_def prod.case
    by (intro conjI a b c d e)
qed


text \<open>The same three payments, seen from the newest pending upgrade.\<close>

theorem upgrade_activates_on_third_payment_witness:
  "distinct (map u_id (class_upgrades_tbl demo_db_two))
   \<and> profiles_get_list 0 1 ''u1'' demo_db_two \<noteq> []
   \<and> upgrades_get_list 0 20 ''u1'' [(''status'', CStr ''pending'')] demo_db_two
       = [demo_upgrade_c, demo_upgrade]
   \<and> u_payments_in_new_class demo_upgrade_c = Some 0
   \<and> (let (r1, s1) = process_monthly_payment True True ''2024-09-01 10:00:00'' ''u1'' demo_db_two;
            (r2, s2) = process_monthly_payment True True ''2024-10-01 10:00:00'' ''u1'' s1;
            (r3, s3) = process_monthly_payment True True ''2024-11-01 10:00:00'' ''u1'' s2
        in r1 = Inr [(''success'', PBool True), (''message'', PStr msg_processed)]
         \<and> upgrades_get_list 0 20 ''u1'' [(''status'', CStr ''pending'')] s1
             = [demo_upgrade_c\<lparr>u_payments_in_new_class := Some 1\<rparr>, demo_upgrade]
         \<and> r2 = Inr [(''success'', PBool True), (''message'', PStr msg_processed)]
         \<and> upgrades_get_list 0 20 ''u1'' [(''status'', CStr ''pending'')] s2
             = [demo_upgrade_c\<lparr>u_payments_in_new_class := Some 2\<rparr>, demo_upgrade]
         \<and> r3 = Inr [(''success'', PBool True),
                     (''message'', PStr (msg_activated_1 @ py_str (col_str (u_to_class demo_upgrade_c))
                                          @ msg_activated_2)),
                     (''upgrade_activated'', PBool True)]
         \<and> s3 = \<lparr>profiles_tbl = [demo_profile],
                  class_upgrades_tbl = [demo_upgrade,
                    demo_upgrade_c\<lparr>u_payments_in_new_class := Some 3, u_status := Some ''active'',
                                    u_activated_at := Some ''2024-11-01 10:00:00''\<rparr>]\<rparr>
         \<and> upgrades_get_by_id (u_id demo_upgrade_c) ''u1'' s3
             = Inr (Some (demo_upgrade_c\<lparr>u_payments_in_new_class := Some 3,
                            u_status := Some ''active'',
                            u_activated_at := Some ''2024-11-01 10:00:00''\<rparr>)))"
proof -
  have h1: "distinct (map u_id (class_upgrades_tbl demo_db_two))"
    by (rule demo_db_two_lists)
  have h2: "profiles_get_list 0 1 ''u1'' demo_db_two \<noteq> []"
    by (simp add: demo_db_two_def profiles_get_list_def demo_profile_def)
  have h3: "upgrades_get_list 0 20 ''u1'' [(''status'', CStr ''pending'')] demo_db_two
              = demo_upgrade_c # [demo_upgrade]"
    by (rule demo_db_two_lists)
  have h4: "u_payments_in_new_class demo_upgrade_c = Some 0"
    by (simp add: demo_upgrade_c_def)
  obtain r1 s1 where c1:
    "process_monthly_payment True True ''2024-09-01 10:00:00'' ''u1'' demo_db_two = (r1, s1)"
    by (cases "process_monthly_payment True True ''2024-09-01 10:00:00'' ''u1'' demo_db_two")
  obtain r2 s2 where c2:
    "process_monthly_payment True True ''2024-10-01 10:00:00'' ''u1'' s1 = (r2, s2)"
    by (cases "process_monthly_payment True True ''2024-10-01 10:00:00'' ''u1'' s1")
  obtain r3 s3 where c3:
    "process_monthly_payment True True ''2024-11-01 10:00:00'' ''u1'' s2 = (r3, s3)"
    by (cases "process_monthly_payment True True ''2024-11-01 10:00:00'' ''u1'' s2")
  note t = upgrade_activates_on_third_payment[OF h1 h2 h3 h4 c1 c2 c3]
  have s3: "s3 = \<lparr>profiles_tbl = [demo_profile],
                  class_upgrades_tbl = [demo_upgrade,
                    demo_upgrade_c\<lparr>u_payments_in_new_class := Some 3, u_status := Some ''active'',
                                    u_activated_at := Some ''2024-11-01 10:00:00''\<rparr>]\<rparr>"
    using t by (simp add: demo_db_two_def demo_upgrade_def demo_upgrade_c_def)
  show ?thesis
    unfolding Let_def c1 c2 c3 prod.case using h1 h2 h3 h4 t s3 by (intro conjI) blast+
qed

section \<open>Requests that do not raise the class\<close>

text \<open>
  C7. When the member has a profile and \<open>to_class\<close> does not rank strictly above the
  profile's class in the order A < B < C < D (a class outside the order ranks 0), so for
  every downgrade and every request of the same class, \<open>request_class_upgrade\<close> raises
  the \<open>ValueError\<close> of the downgrade check and leaves both tables as they were: no
  upgrade record, no change of class.
\<close>

theorem request_class_upgrade_not_higher:
  assumes "profiles_get_list 0 1 user_id s = profile # rest"
    and "class_order_get to_class \<le> class_order_get (p_membership_class profile)"
  shows "request_class_upgrade ok_create ok_update now1 now2 user_id to_class s
           = (Inl (ValueError msg_downgrade), s)"
  using assms by (simp add: request_class_upgrade_def)

lemma class_order_values:
  "class_order_get ''A'' = 1" "class_order_get ''B'' = 2" "class_order_get ''C'' = 3"
  "class_order_get ''D'' = 4"
  by (simp_all add: class_order_get_def class_order_def)

lemma class_order_other:
  "c \<notin> {''A'', ''B'', ''C'', ''D''} \<Longrightarrow> class_order_get c = 0"
  by (simp add: class_order_get_def class_order_def)

theorem request_class_upgrade_not_higher_witness:
  "profiles_get_list 0 1 ''u1'' (demo_db\<lparr>profiles_tbl := [demo_profile_c]\<rparr>) = demo_profile_c # []
   \<and> class_order_get ''B'' \<le> class_order_get (p_membership_class demo_profile_c)
   \<and> class_order_get ''C'' \<le> class_order_get (p_membership_class demo_profile_c)
   \<and> request_class_upgrade True True ''2024-09-01 10:00:00'' ''2024-09-01 10:00:01'' ''u1'' ''B''
         (demo_db\<lparr>profiles_tbl := [demo_profile_c]\<rparr>)
       = (Inl (ValueError msg_downgrade), demo_db\<lparr>profiles_tbl := [demo_profile_c]\<rparr>)
   \<and> request_class_upgrade True True ''2024-09-01 10:00:00'' ''2024-09-01 10:00:01'' ''u1'' ''C''
         (demo_db\<lparr>profiles_tbl := [demo_profile_c]\<rparr>)
       = (Inl (ValueError msg_downgrade), demo_db\<lparr>profiles_tbl := [demo_profile_c]\<rparr>)"
proof -
  have h1: "profiles_get_list 0 1 ''u1'' (demo_db\<lparr>profiles_tbl := [demo_profile_c]\<rparr>)
              = demo_profile_c # []"
    by (simp add: profiles_get_list_def demo_profile_c_def demo_profile_def)
  have c: "p_membership_class demo_profile_c = ''C''"
    by (simp add: demo_profile_c_def)
  have h2: "class_order_get ''B'' \<le> class_order_get (p_membership_class demo_profile_c)"
    by (simp add: c class_order_values)
  have h3: "class_order_get ''C'' \<le> class_order_get (p_membership_class demo_profile_c)"
    by (simp add: c)
  show ?thesis
    using h1 h2 h3 request_class_upgrade_not_higher[OF h1 h2] request_class_upgrade_not_higher[OF h1 h3]
    by blast
qed


section \<open>What \<open>process_monthly_payment\<close> writes\<close>

lemma upgrades_update_outcome:
  assumes "distinct (map u_id (class_upgrades_tbl s))" and "u \<in> set (class_upgrades_tbl s)"
    and "user_id \<noteq> [] \<longrightarrow> u_user_id u = user_id"
    and "upgrades_apply update_data u = Some u'" and "u_id u' = u_id u"
  shows "upgrades_update ok (u_id u) update_data user_id s =
           (if ok then (Inr (Some u'),
                        s\<lparr>class_upgrades_tbl :=
                            map (\<lambda>r. if u_id r = u_id u then u' else r) (class_upgrades_tbl s)\<rparr>)
            else (Inl DatabaseError, s))"
  using upgrades_get_by_id_present[OF assms(1,2,3)] assms(4,5)
  by (simp add: upgrades_update_def)

lemma replace_nth:
  assumes "distinct (map f xs)" and "u \<in> set xs" and "i < length xs"
  shows "map (\<lambda>r. if f r = f u then u' else r) xs ! i = (if xs ! i = u then u' else xs ! i)"
proof -
  have "xs ! i \<in> set xs" using assms(3) by simp
  then have "f (xs ! i) = f u \<longleftrightarrow> xs ! i = u"
    using key_inj[OF assms(1) _ assms(2)] by blast
  then show ?thesis using assms(3) by simp
qed

lemma pmp_effect:
  assumes wf: "distinct (map u_id (class_upgrades_tbl s))"
    and run: "process_monthly_payment ok1 ok2 now user_id s = (res, s')"
  shows "s' = s \<or>
         (\<exists>u rest a b c.
            upgrades_get_list 0 20 user_id [(''status'', CStr ''pending'')] s = u # rest \<and>
            u \<in> set (class_upgrades_tbl s) \<and>
            s' = s\<lparr>class_upgrades_tbl :=
                    map (\<lambda>r. if u_id r = u_id u
                              then u\<lparr>u_payments_in_new_class := a, u_status := b,
                                     u_activated_at := c\<rparr>
                              else r) (class_upgrades_tbl s)\<rparr>)"
proof (cases "profiles_get_list 0 1 user_id s")
  case Nil
  with run show ?thesis by (simp add: process_monthly_payment_def)
next
  case (Cons p ps)
  show ?thesis
  proof (cases "upgrades_get_list 0 20 user_id [(''status'', CStr ''pending'')] s")
    case Nil
    with run Cons show ?thesis by (simp add: process_monthly_payment_def)
  next
    case pend: (Cons u rest)
    let ?M = "\<lambda>r. (user_id \<noteq> [] \<longrightarrow> u_user_id r = user_id) \<and> u_status r = Some ''pending''"
    have "u \<in> set (upgrades_get_list 0 20 user_id [(''status'', CStr ''pending'')] s)"
      by (simp add: pend)
    then have "u \<in> set (filter ?M (class_upgrades_tbl s))"
      unfolding pending_list_eq by (rule newest_first_member)
    then have mem: "u \<in> set (class_upgrades_tbl s)"
      and own: "user_id \<noteq> [] \<longrightarrow> u_user_id u = user_id" by simp_all
    define n where "n = (case u_payments_in_new_class u of None \<Rightarrow> 0 | Some n \<Rightarrow> n) + 1"
    let ?u1 = "u\<lparr>u_payments_in_new_class := Some n\<rparr>"
    let ?u2 = "u\<lparr>u_payments_in_new_class := Some n, u_status := Some ''active'',
                 u_activated_at := Some now\<rparr>"
    let ?rep = "\<lambda>x. s\<lparr>class_upgrades_tbl :=
                     map (\<lambda>r. if u_id r = u_id u then x else r) (class_upgrades_tbl s)\<rparr>"
    have upd1: "upgrades_update ok1 (u_id u) [(''payments_in_new_class'', CInt n)] user_id s =
                  (if ok1 then (Inr (Some ?u1), ?rep ?u1) else (Inl DatabaseError, s))"
      by (rule upgrades_update_outcome[OF wf mem own]) (simp_all add: apply_payments)
    have wf1: "distinct (map u_id (class_upgrades_tbl (?rep ?u1)))"
      using wf by (simp add: replace_keys_comp)
    have mem1: "?u1 \<in> set (class_upgrades_tbl (?rep ?u1))"
      using replace_member[OF mem, of ?u1 u_id] by simp
    have "upgrades_update ok2 (u_id ?u1) [(''status'', CStr ''active''), (''activated_at'', CStr now)]
            user_id (?rep ?u1) =
          (if ok2 then (Inr (Some (?u1\<lparr>u_status := Some ''active'', u_activated_at := Some now\<rparr>)),
                        (?rep ?u1)\<lparr>class_upgrades_tbl :=
                           map (\<lambda>r. if u_id r = u_id ?u1
                                     then ?u1\<lparr>u_status := Some ''active'', u_activated_at := Some now\<rparr>
                                     else r) (class_upgrades_tbl (?rep ?u1))\<rparr>)
           else (Inl DatabaseError, ?rep ?u1))"
      by (rule upgrades_update_outcome[OF wf1 mem1]) (use own in \<open>simp_all add: apply_activate\<close>)
    then have upd2: "upgrades_update ok2 (u_id u) [(''status'', CStr ''active''), (''activated_at'', CStr now)]
            user_id (?rep ?u1) =
          (if ok2 then (Inr (Some ?u2), ?rep ?u2) else (Inl DatabaseError, ?rep ?u1))"
      by (simp add: replace_twice)
    have s': "s' = s \<or> s' = ?rep ?u1 \<or> s' = ?rep ?u2"
      using run Cons by (simp add: process_monthly_payment_def pend n_def[symmetric] upd1 upd2
          split: if_splits)
    have e1: "?u1 = u\<lparr>u_payments_in_new_class := Some n, u_status := u_status u,
                       u_activated_at := u_activated_at u\<rparr>" by simp
    from s' show ?thesis
    proof (elim disjE)
      assume "s' = s" then show ?thesis by simp
    next
      assume "s' = ?rep ?u1"
      then have "s' = ?rep (u\<lparr>u_payments_in_new_class := Some n, u_status := u_status u,
                       u_activated_at := u_activated_at u\<rparr>)" by simp
      with mem pend show ?thesis by blast
    next
      assume "s' = ?rep ?u2"
      with mem pend show ?thesis by blast
    qed
  qed
qed


text \<open>
  C10. With distinct \<open>id\<close>s in the upgrades table, a call of \<open>process_monthly_payment\<close>,
  whatever its arguments and whether or not its commits succeed, leaves the profiles
  table as it was, keeps the number of upgrade rows, and leaves every upgrade row as it
  was except possibly the newest pending upgrade of the member, which changes at most in
  \<open>payments_in_new_class\<close>, \<open>status\<close> and \<open>activated_at\<close>.
\<close>

theorem process_monthly_payment_frame:
  assumes wf: "distinct (map u_id (class_upgrades_tbl s))"
    and run: "process_monthly_payment ok1 ok2 now user_id s = (res, s')"
  shows "profiles_tbl s' = profiles_tbl s
       \<and> length (class_upgrades_tbl s') = length (class_upgrades_tbl s)
       \<and> (\<forall>i < length (class_upgrades_tbl s).
             class_upgrades_tbl s' ! i = class_upgrades_tbl s ! i
             \<or> (\<exists>rest a b c.
                   upgrades_get_list 0 20 user_id [(''status'', CStr ''pending'')] s
                     = (class_upgrades_tbl s ! i) # rest
                   \<and> class_upgrades_tbl s' ! i =
                       (class_upgrades_tbl s ! i)\<lparr>u_payments_in_new_class := a, u_status := b,
                                                    u_activated_at := c\<rparr>))"
proof -
  from pmp_effect[OF wf run] show ?thesis
  proof (elim disjE exE conjE)
    assume "s' = s"
    then show ?thesis by simp
  next
    fix u rest a b c
    assume pend: "upgrades_get_list 0 20 user_id [(''status'', CStr ''pending'')] s = u # rest"
      and mem: "u \<in> set (class_upgrades_tbl s)"
      and s': "s' = s\<lparr>class_upgrades_tbl :=
                    map (\<lambda>r. if u_id r = u_id u
                              then u\<lparr>u_payments_in_new_class := a, u_status := b,
                                     u_activated_at := c\<rparr>
                              else r) (class_upgrades_tbl s)\<rparr>"
    let ?u' = "u\<lparr>u_payments_in_new_class := a, u_status := b, u_activated_at := c\<rparr>"
    have nth: "class_upgrades_tbl s' ! i =
                 (if class_upgrades_tbl s ! i = u then ?u' else class_upgrades_tbl s ! i)"
      if "i < length (class_upgrades_tbl s)" for i
      using replace_nth[OF wf mem that, of ?u'] by (simp add: s')
    have "class_upgrades_tbl s' ! i = class_upgrades_tbl s ! i
             \<or> (\<exists>rest a b c.
                   upgrades_get_list 0 20 user_id [(''status'', CStr ''pending'')] s
                     = (class_upgrades_tbl s ! i) # rest
                   \<and> class_upgrades_tbl s' ! i =
                       (class_upgrades_tbl s ! i)\<lparr>u_payments_in_new_class := a, u_status := b,
                                                    u_activated_at := c\<rparr>)"
      if i: "i < length (class_upgrades_tbl s)" for i
    proof (cases "class_upgrades_tbl s ! i = u")
      case True
      with nth[OF i] have "class_upgrades_tbl s' ! i =
          (class_upgrades_tbl s ! i)\<lparr>u_payments_in_new_class := a, u_status := b,
                                       u_activated_at := c\<rparr>" by simp
      moreover from pend True
      have "upgrades_get_list 0 20 user_id [(''status'', CStr ''pending'')] s
              = (class_upgrades_tbl s ! i) # rest" by simp
      ultimately show ?thesis by blast
    next
      case False
      with nth[OF i] show ?thesis by simp
    qed
    then show ?thesis by (simp add: s')
  qed
qed

lemma demo_db2_third_payment:
  "process_monthly_payment True True ''2024-11-01 10:00:00'' ''u1'' demo_db2
     = (Inr [(''success'', PBool True),
             (''message'', PStr (msg_activated_1 @ ''B'' @ msg_activated_2)),
             (''upgrade_activated'', PBool True)],
        \<lparr>profiles_tbl = [demo_profile],
         class_upgrades_tbl = [demo_upgrade\<lparr>u_payments_in_new_class := Some 3,
                                 u_status := Some ''active'',
                                 u_activated_at := Some ''2024-11-01 10:00:00''\<rparr>]\<rparr>)"
  by (simp add: process_monthly_payment_def demo_db2_def profiles_get_list_def demo_profile_def
      pending_list_eq demo_upgrade_def upgrades_update_def upgrades_get_by_id_def
      upgrades_apply_def upgrades_setattr_def to_int_null_def to_str_null_def col_str_def)

theorem process_monthly_payment_frame_witness:
  "distinct (map u_id (class_upgrades_tbl demo_db2))
   \<and> (let (res, s') = process_monthly_payment True True ''2024-11-01 10:00:00'' ''u1'' demo_db2
      in profiles_tbl s' = profiles_tbl demo_db2
       \<and> length (class_upgrades_tbl s') = length (class_upgrades_tbl demo_db2)
       \<and> class_upgrades_tbl s' ! 0 =
             (class_upgrades_tbl demo_db2 ! 0)\<lparr>u_payments_in_new_class := Some 3,
                u_status := Some ''active'', u_activated_at := Some ''2024-11-01 10:00:00''\<rparr>)"
proof -
  have h: "distinct (map u_id (class_upgrades_tbl demo_db2))"
    by (simp add: demo_db2_def)
  note run = demo_db2_third_payment
  from process_monthly_payment_frame[OF h run]
  have "profiles_tbl \<lparr>profiles_tbl = [demo_profile],
         class_upgrades_tbl = [demo_upgrade\<lparr>u_payments_in_new_class := Some 3,
                                 u_status := Some ''active'',
                                 u_activated_at := Some ''2024-11-01 10:00:00''\<rparr>]\<rparr>
          = profiles_tbl demo_db2" by blast
  then show ?thesis unfolding run Let_def prod.case using h by (simp add: demo_db2_def)
qed


section \<open>Requesting an upgrade\<close>

lemma next_id_fresh: "next_id ids \<notin> set ids"
proof (cases "ids = []")
  case True
  then show ?thesis by simp
next
  case False
  have "x < next_id ids" if "x \<in> set ids" for x
  proof -
    from that have "x \<le> Max (set ids)" by simp
    with False show ?thesis by (simp add: next_id_def)
  qed
  then show ?thesis by blast
qed

lemma upgrades_create_request:
  "upgrades_create ok
     [(''user_id'', CStr user_id), (''profile_id'', CInt pid), (''from_class'', CStr from_class),
      (''to_class'', CStr to_class), (''status'', CStr ''pending''),
      (''payments_in_new_class'', CInt 0), (''requested_at'', CStr now1)] user_id s =
   (let new = \<lparr>u_id = next_id (map u_id (class_upgrades_tbl s)), u_user_id = user_id,
                u_profile_id = Some pid, u_from_class = Some from_class,
                u_to_class = Some to_class, u_status = Some ''pending'',
                u_payments_in_new_class = Some 0, u_requested_at = Some now1,
                u_activated_at = None\<rparr>
    in if ok then (Inr new, s\<lparr>class_upgrades_tbl := class_upgrades_tbl s @ [new]\<rparr>)
       else (Inl DatabaseError, s))"
  using next_id_fresh[of "map u_id (class_upgrades_tbl s)"]
  by (simp add: upgrades_create_def upgrades_build_def upgrades_setattr_def upgrades_getattr_def
      blank_upgrade_def to_str_def to_int_null_def to_str_null_def Let_def)

lemma profiles_apply_class:
  "profiles_apply [(''membership_class'', CStr c), (''updated_at'', CStr t)] p
     = Some (p\<lparr>p_membership_class := c, p_updated_at := t\<rparr>)"
  by (simp add: profiles_apply_def profiles_setattr_def to_str_def)

lemma profiles_first:
  assumes "profiles_get_list 0 1 user_id s = p # rest"
  shows "p \<in> set (profiles_tbl s)" and "user_id \<noteq> [] \<longrightarrow> p_user_id p = user_id"
proof -
  have "p \<in> set (profiles_get_list 0 1 user_id s)" using assms by simp
  then have "p \<in> set (filter (\<lambda>r. user_id \<noteq> [] \<longrightarrow> p_user_id r = user_id) (profiles_tbl s))"
    unfolding profiles_get_list_def by (rule newest_first_member)
  then show "p \<in> set (profiles_tbl s)" and "user_id \<noteq> [] \<longrightarrow> p_user_id p = user_id"
    by simp_all
qed

lemma profiles_update_outcome:
  assumes "distinct (map p_id (profiles_tbl s))" and "p \<in> set (profiles_tbl s)"
    and "user_id \<noteq> [] \<longrightarrow> p_user_id p = user_id"
    and "profiles_apply update_data p = Some p'" and "p_id p' = p_id p"
  shows "profiles_update ok (p_id p) update_data user_id s =
           (if ok then (Inr (Some p'),
                        s\<lparr>profiles_tbl := map (\<lambda>r. if p_id r = p_id p then p' else r) (profiles_tbl s)\<rparr>)
            else (Inl DatabaseError, s))"
proof -
  have "filter (\<lambda>r. p_id r = p_id p \<and> (user_id \<noteq> [] \<longrightarrow> p_user_id r = user_id)) (profiles_tbl s) = [p]"
    using filter_key_single[OF assms(1,2), of "\<lambda>r. user_id \<noteq> [] \<longrightarrow> p_user_id r = user_id"] assms(3)
    by simp
  then show ?thesis using assms(4,5)
    by (simp add: profiles_update_def profiles_get_by_id_def)
qed

lemma request_class_upgrade_outcome:
  assumes wfp: "distinct (map p_id (profiles_tbl s))"
    and prof: "profiles_get_list 0 1 user_id s = profile # rest"
    and higher: "class_order_get (p_membership_class profile) < class_order_get to_class"
    and nopend: "upgrades_get_list 0 20 user_id [(''status'', CStr ''pending'')] s = []"
  shows "request_class_upgrade ok_create ok_update now1 now2 user_id to_class s =
     (let new = \<lparr>u_id = next_id (map u_id (class_upgrades_tbl s)), u_user_id = user_id,
                  u_profile_id = Some (p_id profile),
                  u_from_class = Some (p_membership_class profile),
                  u_to_class = Some to_class, u_status = Some ''pending'',
                  u_payments_in_new_class = Some 0, u_requested_at = Some now1,
                  u_activated_at = None\<rparr>
      in if \<not> ok_create then (Inl DatabaseError, s)
         else if \<not> ok_update
         then (Inl DatabaseError, s\<lparr>class_upgrades_tbl := class_upgrades_tbl s @ [new]\<rparr>)
         else (Inr [(''success'', PBool True),
                    (''message'', PStr (msg_requested_1 @ p_membership_class profile
                                         @ msg_requested_2 @ to_class @ msg_requested_3)),
                    (''upgrade_id'', PInt (u_id new))],
               s\<lparr>class_upgrades_tbl := class_upgrades_tbl s @ [new],
                  profiles_tbl :=
                    map (\<lambda>r. if p_id r = p_id profile
                              then profile\<lparr>p_membership_class := to_class, p_updated_at := now2\<rparr>
                              else r) (profiles_tbl s)\<rparr>))"
proof -
  note m = profiles_first[OF prof]
  have upd: "profiles_update ok_update (p_id profile)
               [(''membership_class'', CStr to_class), (''updated_at'', CStr now2)] user_id s1 =
           (if ok_update
            then (Inr (Some (profile\<lparr>p_membership_class := to_class, p_updated_at := now2\<rparr>)),
                  s1\<lparr>profiles_tbl :=
                       map (\<lambda>r. if p_id r = p_id profile
                                 then profile\<lparr>p_membership_class := to_class, p_updated_at := now2\<rparr>
                                 else r) (profiles_tbl s1)\<rparr>)
            else (Inl DatabaseError, s1))"
    if "profiles_tbl s1 = profiles_tbl s" for s1
    by (rule profiles_update_outcome) (use wfp m that in \<open>simp_all add: profiles_apply_class\<close>)
  show ?thesis
    using prof higher
    by (simp add: request_class_upgrade_def nopend upgrades_create_request Let_def upd)
qed


lemma profiles_get_list_replace:
  assumes wfp: "distinct (map p_id (profiles_tbl s))"
    and prof: "profiles_get_list 0 1 user_id s = p # rest"
    and same: "p_id p' = p_id p" "p_user_id p' = p_user_id p"
    and s1: "profiles_tbl s1 = map (\<lambda>r. if p_id r = p_id p then p' else r) (profiles_tbl s)"
  shows "profiles_get_list 0 1 user_id s1 = [p']"
proof -
  let ?Q = "\<lambda>r. user_id \<noteq> [] \<longrightarrow> p_user_id r = user_id"
  let ?g = "\<lambda>r. if p_id r = p_id p then p' else r"
  note m = profiles_first[OF prof]
  have "\<forall>r \<in> set (profiles_tbl s). (?Q \<circ> ?g) r = ?Q r"
    using key_inj[OF wfp _ m(1)] m(2) same(2) by auto
  then have "filter (?Q \<circ> ?g) (profiles_tbl s) = filter ?Q (profiles_tbl s)"
    by (intro filter_cong) auto
  then have f: "filter ?Q (map ?g (profiles_tbl s)) = map ?g (filter ?Q (profiles_tbl s))"
    by (simp only: filter_map)
  have k: "p_id (?g y) = p_id y" for y using same(1) by simp
  have "profiles_get_list 0 1 user_id s1
          = map ?g (take 1 (drop 0 (rev (sort_key p_id (filter ?Q (profiles_tbl s))))))"
    unfolding profiles_get_list_def s1 f sort_key_commute[of p_id ?g, OF k]
    by (simp only: rev_map drop_map take_map)
  also have "take 1 (drop 0 (rev (sort_key p_id (filter ?Q (profiles_tbl s))))) = p # rest"
    using prof by (simp only: profiles_get_list_def)
  finally have e: "profiles_get_list 0 1 user_id s1 = ?g p # map ?g rest" by simp
  have "length (profiles_get_list 0 1 user_id s1) \<le> 1"
    by (simp add: profiles_get_list_def)
  with e have "rest = []" by simp
  with e show ?thesis by simp
qed

text \<open>
  C8, as amended. For a member with a profile and a \<open>to_class\<close> that ranks strictly above
  the profile's class, \<open>request_class_upgrade\<close> raises the \<open>ValueError\<close> of the pending
  check whenever the member has a pending upgrade, and leaves the tables as they were.
  Consequently, after a request that went through, a second request to a still higher
  class raises that error and changes nothing.
\<close>

theorem request_class_upgrade_conflict:
  assumes prof: "profiles_get_list 0 1 user_id s = profile # rest"
    and higher: "class_order_get (p_membership_class profile) < class_order_get to_class"
  shows "(upgrades_get_list 0 20 user_id [(''status'', CStr ''pending'')] s \<noteq> [] \<longrightarrow>
            request_class_upgrade ok_create ok_update now1 now2 user_id to_class s
              = (Inl (ValueError msg_pending), s))
       \<and> (upgrades_get_list 0 20 user_id [(''status'', CStr ''pending'')] s = [] \<and>
          distinct (map p_id (profiles_tbl s)) \<and>
          class_order_get to_class < class_order_get to_class2 \<longrightarrow>
            request_class_upgrade ok_create ok_update now3 now4 user_id to_class2
                (snd (request_class_upgrade True True now1 now2 user_id to_class s))
              = (Inl (ValueError msg_pending),
                 snd (request_class_upgrade True True now1 now2 user_id to_class s)))"
proof (intro conjI impI)
  assume "upgrades_get_list 0 20 user_id [(''status'', CStr ''pending'')] s \<noteq> []"
  with prof higher
  show "request_class_upgrade ok_create ok_update now1 now2 user_id to_class s
          = (Inl (ValueError msg_pending), s)"
    by (simp add: request_class_upgrade_def)
next
  assume a: "upgrades_get_list 0 20 user_id [(''status'', CStr ''pending'')] s = [] \<and>
          distinct (map p_id (profiles_tbl s)) \<and>
          class_order_get to_class < class_order_get to_class2"
  define new where "new = \<lparr>u_id = next_id (map u_id (class_upgrades_tbl s)), u_user_id = user_id,
                  u_profile_id = Some (p_id profile),
                  u_from_class = Some (p_membership_class profile),
                  u_to_class = Some to_class, u_status = Some ''pending'',
                  u_payments_in_new_class = Some 0, u_requested_at = Some now1,
                  u_activated_at = None\<rparr>"
  define p' where "p' = profile\<lparr>p_membership_class := to_class, p_updated_at := now2\<rparr>"
  define s1 where "s1 = s\<lparr>class_upgrades_tbl := class_upgrades_tbl s @ [new],
                  profiles_tbl :=
                    map (\<lambda>r. if p_id r = p_id profile then p' else r) (profiles_tbl s)\<rparr>"
  have s1: "snd (request_class_upgrade True True now1 now2 user_id to_class s) = s1"
    using a request_class_upgrade_outcome[OF _ prof higher, of True True now1 now2]
    by (simp add: Let_def s1_def new_def p'_def)
  have prof1: "profiles_get_list 0 1 user_id s1 = [p']"
    by (rule profiles_get_list_replace[OF _ prof]) (use a in \<open>simp_all add: p'_def s1_def\<close>)
  let ?M = "\<lambda>r. (user_id \<noteq> [] \<longrightarrow> u_user_id r = user_id) \<and> u_status r = Some ''pending''"
  have "filter ?M (class_upgrades_tbl s1) \<noteq> []"
    by (simp add: s1_def new_def)
  then have pend1: "upgrades_get_list 0 20 user_id [(''status'', CStr ''pending'')] s1 \<noteq> []"
    using newest_first_nonempty[of "filter ?M (class_upgrades_tbl s1)" 19 u_id]
    by (simp add: pending_list_eq)
  have "request_class_upgrade ok_create ok_update now3 now4 user_id to_class2 s1
          = (Inl (ValueError msg_pending), s1)"
    using a prof1 pend1 by (simp add: request_class_upgrade_def p'_def)
  then show "request_class_upgrade ok_create ok_update now3 now4 user_id to_class2
                (snd (request_class_upgrade True True now1 now2 user_id to_class s))
              = (Inl (ValueError msg_pending),
                 snd (request_class_upgrade True True now1 now2 user_id to_class s))"
    by (simp only: s1)
qed


lemma msg_downgrade_not_pending: "msg_downgrade \<noteq> msg_pending"
  by (simp add: msg_downgrade_def msg_pending_def)

lemma demo_db_lists:
  "profiles_get_list 0 1 ''u1'' demo_db = [demo_profile]"
  "upgrades_get_list 0 20 ''u1'' [(''status'', CStr ''pending'')] demo_db = [demo_upgrade]"
  by (simp_all add: demo_db_def profiles_get_list_def demo_profile_def pending_list_eq
      demo_upgrade_def)

text \<open>
  C8 as stated fails: the sample member is in class B with a pending upgrade (the state
  a request from A to B leaves), and asking for B once more raises the error of the
  downgrade check, which comes first, not the one of the pending check.
\<close>

theorem request_class_upgrade_conflict_counterexample:
  "upgrades_get_list 0 20 ''u1'' [(''status'', CStr ''pending'')] demo_db = [demo_upgrade]
   \<and> request_class_upgrade True True ''2024-09-01 10:00:00'' ''2024-09-01 10:00:01'' ''u1'' ''B''
         demo_db = (Inl (ValueError msg_downgrade), demo_db)
   \<and> ValueError msg_downgrade \<noteq> ValueError msg_pending"
  by (simp del: One_nat_def add: demo_db_lists request_class_upgrade_def msg_downgrade_not_pending
      demo_profile_def class_order_get_def class_order_def)

theorem request_class_upgrade_conflict_witness:
  "profiles_get_list 0 1 ''u1'' demo_db = [demo_profile]
   \<and> class_order_get (p_membership_class demo_profile) < class_order_get ''C''
   \<and> upgrades_get_list 0 20 ''u1'' [(''status'', CStr ''pending'')] demo_db \<noteq> []
   \<and> request_class_upgrade True True ''2024-09-01 10:00:00'' ''2024-09-01 10:00:01'' ''u1'' ''C''
         demo_db = (Inl (ValueError msg_pending), demo_db)"
proof -
  have h1: "profiles_get_list 0 1 ''u1'' demo_db = demo_profile # []"
    by (rule demo_db_lists)
  have h2: "class_order_get (p_membership_class demo_profile) < class_order_get ''C''"
    by (simp add: demo_profile_def class_order_get_def class_order_def)
  have h3: "upgrades_get_list 0 20 ''u1'' [(''status'', CStr ''pending'')] demo_db \<noteq> []"
    by (simp add: demo_db_lists)
  from request_class_upgrade_conflict[OF h1 h2, of True True "''2024-09-01 10:00:00''"
      "''2024-09-01 10:00:01''"] h3
  have "request_class_upgrade True True ''2024-09-01 10:00:00'' ''2024-09-01 10:00:01'' ''u1'' ''C''
         demo_db = (Inl (ValueError msg_pending), demo_db)" by blast
  with h1 h2 h3 show ?thesis by blast
qed

text \<open>
  C2, as amended. For a valid request (distinct profile \<open>id\<close>s, a profile, a strictly
  higher \<open>to_class\<close>, no pending upgrade) the two writes are two commits, the record
  first. If the commit of the record fails, nothing changes. If it succeeds and the
  commit of the profile fails, the pending record with \<open>payments_in_new_class = 0\<close>
  stays in the table and the profile keeps its class. If both succeed, the record is
  there and the profile's class is \<open>to_class\<close>.
\<close>

theorem request_class_upgrade_two_commits:
  assumes "distinct (map p_id (profiles_tbl s))"
    and "profiles_get_list 0 1 user_id s = profile # rest"
    and "class_order_get (p_membership_class profile) < class_order_get to_class"
    and "upgrades_get_list 0 20 user_id [(''status'', CStr ''pending'')] s = []"
  shows "request_class_upgrade ok_create ok_update now1 now2 user_id to_class s =
     (let new = \<lparr>u_id = next_id (map u_id (class_upgrades_tbl s)), u_user_id = user_id,
                  u_profile_id = Some (p_id profile),
                  u_from_class = Some (p_membership_class profile),
                  u_to_class = Some to_class, u_status = Some ''pending'',
                  u_payments_in_new_class = Some 0, u_requested_at = Some now1,
                  u_activated_at = None\<rparr>
      in if \<not> ok_create then (Inl DatabaseError, s)
         else if \<not> ok_update
         then (Inl DatabaseError, s\<lparr>class_upgrades_tbl := class_upgrades_tbl s @ [new]\<rparr>)
         else (Inr [(''success'', PBool True),
                    (''message'', PStr (msg_requested_1 @ p_membership_class profile
                                         @ msg_requested_2 @ to_class @ msg_requested_3)),
                    (''upgrade_id'', PInt (u_id new))],
               s\<lparr>class_upgrades_tbl := class_upgrades_tbl s @ [new],
                  profiles_tbl :=
                    map (\<lambda>r. if p_id r = p_id profile
                              then profile\<lparr>p_membership_class := to_class, p_updated_at := now2\<rparr>
                              else r) (profiles_tbl s)\<rparr>))"
  using assms by (rule request_class_upgrade_outcome)

lemma demo_db_a_lists:
  "distinct (map p_id (profiles_tbl demo_db_a))"
  "profiles_get_list 0 1 ''u1'' demo_db_a = [demo_profile_a]"
  "upgrades_get_list 0 20 ''u1'' [(''status'', CStr ''pending'')] demo_db_a = []"
  "class_order_get (p_membership_class demo_profile_a) < class_order_get ''B''"
  by (simp_all add: demo_db_a_def profiles_get_list_def demo_profile_a_def demo_profile_def
      pending_list_eq class_order_get_def class_order_def)

text \<open>
  C2 as stated fails: when the second commit fails for the sample member of class A, the
  call raises, the upgrade record is in the table, and the profile is still in class A.
\<close>

theorem request_class_upgrade_two_commits_counterexample:
  "request_class_upgrade True False ''2024-08-01 10:00:00'' ''2024-08-01 10:00:01'' ''u1'' ''B''
     demo_db_a =
   (Inl DatabaseError,
    \<lparr>profiles_tbl = [demo_profile_a],
     class_upgrades_tbl =
       [\<lparr>u_id = 1, u_user_id = ''u1'', u_profile_id = Some 1, u_from_class = Some ''A'',
         u_to_class = Some ''B'', u_status = Some ''pending'', u_payments_in_new_class = Some 0,
         u_requested_at = Some ''2024-08-01 10:00:00'', u_activated_at = None\<rparr>]\<rparr>)
   \<and> p_membership_class demo_profile_a = ''A''"
  using request_class_upgrade_outcome[OF demo_db_a_lists(1,2,4,3), of True False
      "''2024-08-01 10:00:00''" "''2024-08-01 10:00:01''"]
  by (simp add: Let_def demo_db_a_def next_id_def demo_profile_a_def demo_profile_def)

theorem request_class_upgrade_two_commits_witness:
  "distinct (map p_id (profiles_tbl demo_db_a))
   \<and> profiles_get_list 0 1 ''u1'' demo_db_a = [demo_profile_a]
   \<and> class_order_get (p_membership_class demo_profile_a) < class_order_get ''B''
   \<and> upgrades_get_list 0 20 ''u1'' [(''status'', CStr ''pending'')] demo_db_a = []
   \<and> request_class_upgrade True True ''2024-08-01 10:00:00'' ''2024-08-01 10:00:01'' ''u1'' ''B''
        demo_db_a =
      (Inr [(''success'', PBool True),
            (''message'', PStr (msg_requested_1 @ ''A'' @ msg_requested_2 @ ''B'' @ msg_requested_3)),
            (''upgrade_id'', PInt 1)],
       \<lparr>profiles_tbl = [demo_profile_a\<lparr>p_membership_class := ''B'',
                          p_updated_at := ''2024-08-01 10:00:01''\<rparr>],
        class_upgrades_tbl =
          [\<lparr>u_id = 1, u_user_id = ''u1'', u_profile_id = Some 1, u_from_class = Some ''A'',
            u_to_class = Some ''B'', u_status = Some ''pending'', u_payments_in_new_class = Some 0,
            u_requested_at = Some ''2024-08-01 10:00:00'', u_activated_at = None\<rparr>]\<rparr>)"
proof -
  note h = demo_db_a_lists
  from request_class_upgrade_two_commits[OF h(1,2,4,3), of True True
      "''2024-08-01 10:00:00''" "''2024-08-01 10:00:01''"]
  have "request_class_upgrade True True ''2024-08-01 10:00:00'' ''2024-08-01 10:00:01'' ''u1'' ''B''
        demo_db_a =
      (Inr [(''success'', PBool True),
            (''message'', PStr (msg_requested_1 @ ''A'' @ msg_requested_2 @ ''B'' @ msg_requested_3)),
            (''upgrade_id'', PInt 1)],
       \<lparr>profiles_tbl = [demo_profile_a\<lparr>p_membership_class := ''B'',
                          p_updated_at := ''2024-08-01 10:00:01''\<rparr>],
        class_upgrades_tbl =
          [\<lparr>u_id = 1, u_user_id = ''u1'', u_profile_id = Some 1, u_from_class = Some ''A'',
            u_to_class = Some ''B'', u_status = Some ''pending'', u_payments_in_new_class = Some 0,
            u_requested_at = Some ''2024-08-01 10:00:00'', u_activated_at = None\<rparr>]\<rparr>)"
    by (simp add: Let_def demo_db_a_def next_id_def demo_profile_a_def demo_profile_def)
  with h show ?thesis by blast
qed

section \<open>Eligibility\<close>

lemma get_class_limits_limit:
  "dict_get (get_class_limits (CStr c)) ''limit'' =
     Some (if c = ''A'' then PFloat (Finite 2000)
           else if c = ''B'' then PFloat (Finite 3000)
           else if c = ''C'' then PFloat (Finite 5000)
           else if c = ''D'' then PFloat (Finite 10000)
           else PInt 0)"
  by (simp add: get_class_limits_def class_info_def dict_get_def)

text \<open>
  The branch that grants eligibility, over an object that carries the attributes the
  method reads: the dictionary has the keys \<open>eligible\<close>, \<open>class\<close>, \<open>limit\<close> and
  \<open>paid_months\<close>, the limit from the fixed table (0 for a class outside it), and no
  monthly due.
\<close>

lemma check_eligibility_items_eligible:
  assumes "profile ''join_fee_paid'' = Some join_fee_paid" and "truthy join_fee_paid"
    and "profile ''paid_months_count'' = Some (CInt n)" and "6 \<le> n"
    and "profile ''months_in_arrears'' = Some (CInt m)" and "m \<le> 2"
    and "profile ''membership_status'' = Some (CStr ''active'')"
    and "profile ''membership_class'' = Some (CStr c)"
  shows "check_eligibility_items (profile # rest) =
           Inr [(''eligible'', PBool True),
                (''class'', PStr c),
                (''limit'', if c = ''A'' then PFloat (Finite 2000)
                            else if c = ''B'' then PFloat (Finite 3000)
                            else if c = ''C'' then PFloat (Finite 5000)
                            else if c = ''D'' then PFloat (Finite 10000)
                            else PInt 0),
                (''paid_months'', PInt n)]"
  using assms
  by (simp add: check_eligibility_items_def getattr_def py_or_def get_class_limits_limit)

text \<open>
  C3 fails on the rows of the profiles table. Take a member whose profile row has
  \<open>consecutive_months_paid \<ge> 6\<close>, \<open>months_late \<le> 2\<close> and \<open>account_status = "active"\<close> (a
  row has no join-fee column to hold the fourth condition). \<open>check_eligibility\<close> does not
  return the eligible result with the limit and the monthly due of the class: its first
  read, \<open>profile.join_fee_paid\<close>, raises \<open>AttributeError\<close>, and no dictionary is returned.
\<close>

theorem check_eligibility_good_standing_raises:
  assumes "profiles_get_list 0 1 user_id s = profile # rest"
    and "p_consecutive_months_paid profile = Some n" and "6 \<le> n"
    and "p_months_late profile = Some m" and "m \<le> 2"
    and "p_account_status profile = ''active''"
  shows "check_eligibility user_id s = Inl (AttributeError ''join_fee_paid'')
       \<and> (\<forall>d. check_eligibility user_id s \<noteq> Inr d)"
  using assms(1)
  by (simp add: check_eligibility_def check_eligibility_items_def getattr_def profiles_getattr_def)

theorem check_eligibility_good_standing_raises_witness:
  "profiles_get_list 0 1 ''u1'' demo_db = [demo_profile]
   \<and> p_consecutive_months_paid demo_profile = Some 7 \<and> (6::int) \<le> 7
   \<and> p_months_late demo_profile = Some 0 \<and> (0::int) \<le> 2
   \<and> p_account_status demo_profile = ''active''
   \<and> p_membership_class demo_profile = ''B''
   \<and> check_eligibility ''u1'' demo_db = Inl (AttributeError ''join_fee_paid'')"
proof -
  have h: "profiles_get_list 0 1 ''u1'' demo_db = demo_profile # []"
    by (simp add: profiles_get_list_def demo_db_def demo_profile_def)
  have a: "p_consecutive_months_paid demo_profile = Some 7" "p_months_late demo_profile = Some 0"
    "p_account_status demo_profile = ''active''" "p_membership_class demo_profile = ''B''"
    by (simp_all add: demo_profile_def)
  have b: "(6::int) \<le> 7" "(0::int) \<le> 2" by simp_all
  from check_eligibility_good_standing_raises[OF h a(1) b(1) a(2) b(2) a(3)]
  have "check_eligibility ''u1'' demo_db = Inl (AttributeError ''join_fee_paid'')" by blast
  with h a b show ?thesis by simp
qed

text \<open>
  Failing closed. Without a profile the result is \<open>eligible = False\<close> with a reason, and
  so it is for an object that carries the attributes the method reads and misses one of
  the four conditions.
\<close>

lemma check_eligibility_no_profile:
  "profiles_get_list 0 1 user_id s = [] \<Longrightarrow>
   check_eligibility user_id s = Inr [(''eligible'', PBool False), (''reason'', PStr msg_not_found)]"
  by (simp add: check_eligibility_def check_eligibility_items_def)

lemma check_eligibility_items_fails_closed:
  assumes "profile ''join_fee_paid'' = Some jf"
    and "profile ''paid_months_count'' = Some (col_int pm)"
    and "profile ''months_in_arrears'' = Some (col_int ma)"
    and "profile ''membership_status'' = Some ms"
    and "\<not> truthy jf \<or> (case pm of None \<Rightarrow> 0 | Some n \<Rightarrow> n) < 6
         \<or> 2 < (case ma of None \<Rightarrow> 0 | Some n \<Rightarrow> n) \<or> ms \<noteq> CStr ''active''"
  shows "\<exists>reason. check_eligibility_items (profile # rest) =
           Inr [(''eligible'', PBool False), (''reason'', PStr reason)]"
  using assms
  by (cases pm; cases ma)
     (auto simp add: check_eligibility_items_def getattr_def py_or_def col_int_def)

text \<open>
  C4 fails on the rows of the profiles table. The method reads \<open>join_fee_paid\<close>,
  \<open>paid_months_count\<close>, \<open>months_in_arrears\<close> and \<open>membership_status\<close>, none of which is a
  column of \<open>models/profiles.py\<close> (the columns are \<open>consecutive_months_paid\<close>,
  \<open>months_late\<close> and \<open>account_status\<close>, which the payment routes use; there is no
  join-fee column): for every member whose profile is found, the first read raises
  \<open>AttributeError\<close>, whatever the row holds, and no dictionary is returned.
\<close>

theorem check_eligibility_row_raises:
  assumes "profiles_get_list 0 1 user_id s = profile # rest"
  shows "check_eligibility user_id s = Inl (AttributeError ''join_fee_paid'')"
  using assms
  by (simp add: check_eligibility_def check_eligibility_items_def getattr_def profiles_getattr_def)

theorem check_eligibility_row_raises_witness:
  "profiles_get_list 0 1 ''u1'' \<lparr>profiles_tbl = [demo_profile_new], class_upgrades_tbl = []\<rparr>
     = [demo_profile_new]
   \<and> p_consecutive_months_paid demo_profile_new = Some 0
   \<and> check_eligibility ''u1'' \<lparr>profiles_tbl = [demo_profile_new], class_upgrades_tbl = []\<rparr>
       = Inl (AttributeError ''join_fee_paid'')"
proof -
  have h: "profiles_get_list 0 1 ''u1'' \<lparr>profiles_tbl = [demo_profile_new], class_upgrades_tbl = []\<rparr>
     = demo_profile_new # []"
    by (simp add: profiles_get_list_def demo_profile_new_def demo_profile_def)
  from check_eligibility_row_raises[OF h] h show ?thesis
    by (simp add: demo_profile_new_def)
qed

section \<open>Rounding to a float\<close>

lemma ilog2_bounds:
  assumes "x \<noteq> 0"
  shows "2 powi (ilog2 x) \<le> \<bar>x\<bar>" and "\<bar>x\<bar> < 2 powi (ilog2 x + 1)"
proof -
  obtain p q where pq: "quotient_of \<bar>x\<bar> = (p, q)" by (cases "quotient_of \<bar>x\<bar>")
  have q: "0 < q" using pq by (rule quotient_of_denom_pos)
  have x: "\<bar>x\<bar> = of_int p / of_int q" using pq by (rule quotient_of_div)
  have "0 < \<bar>x\<bar>" using assms by simp
  then have p: "0 < p" using q unfolding x by (simp add: zero_less_divide_iff)
  define a where "a = bitlen p"
  define b where "b = bitlen q"
  have a1: "1 \<le> a" and b1: "1 \<le> b"
    using p q by (simp_all add: a_def b_def bitlen_alt_def)
  have pa: "(2::rat) powi (a - 1) \<le> of_int p" "of_int p < (2::rat) powi a"
  proof -
    from bitlen_bounds[OF p] have "2 ^ nat (a - 1) \<le> p" "p < 2 ^ nat a" by (simp_all add: a_def)
    then have "(of_int (2 ^ nat (a - 1)) :: rat) \<le> of_int p" "(of_int p :: rat) < of_int (2 ^ nat a)"
      by (simp_all only: of_int_le_iff of_int_less_iff)
    then show "(2::rat) powi (a - 1) \<le> of_int p" "of_int p < (2::rat) powi a"
      using a1 by (simp_all add: power_int_def)
  qed
  have qb: "(2::rat) powi (b - 1) \<le> of_int q" "of_int q < (2::rat) powi b"
  proof -
    from bitlen_bounds[OF q] have "2 ^ nat (b - 1) \<le> q" "q < 2 ^ nat b" by (simp_all add: b_def)
    then have "(of_int (2 ^ nat (b - 1)) :: rat) \<le> of_int q" "(of_int q :: rat) < of_int (2 ^ nat b)"
      by (simp_all only: of_int_le_iff of_int_less_iff)
    then show "(2::rat) powi (b - 1) \<le> of_int q" "of_int q < (2::rat) powi b"
      using b1 by (simp_all add: power_int_def)
  qed
  have qpos: "(0::rat) < of_int q" and ppos: "(0::rat) < of_int p" using p q by simp_all
  have up: "\<bar>x\<bar> < 2 powi (a - b + 1)"
  proof -
    have "of_int p / of_int q < (2::rat) powi a / 2 powi (b - 1)"
      by (rule frac_less) (use pa qb ppos in simp_all)
    also have "\<dots> = 2 powi (a - (b - 1))" by (simp add: power_int_diff)
    finally show ?thesis by (simp add: x algebra_simps)
  qed
  have lo: "2 powi (a - b - 1) < \<bar>x\<bar>"
  proof -
    have "(2::rat) powi (a - 1) / 2 powi b < of_int p / of_int q"
      by (rule frac_less2) (use pa qb ppos qpos in simp_all)
    moreover have "(2::rat) powi (a - 1) / 2 powi b = 2 powi (a - 1 - b)"
      by (simp add: power_int_diff)
    ultimately show ?thesis by (simp add: x algebra_simps)
  qed
  have il: "ilog2 x = (if 2 powi (a - b) \<le> \<bar>x\<bar> then a - b else a - b - 1)"
    by (simp add: ilog2_def pq a_def b_def)
  show "2 powi (ilog2 x) \<le> \<bar>x\<bar>" using lo by (simp add: il)
  show "\<bar>x\<bar> < 2 powi (ilog2 x + 1)" using up by (auto simp add: il not_le)
qed

lemma powi_less_cancel:
  assumes "(2::rat) powi a < 2 powi b"
  shows "a < b"
proof (rule ccontr)
  assume "\<not> a < b"
  then have "b \<le> a" by simp
  then have "(2::rat) powi b \<le> 2 powi a" by (rule power_int_increasing) simp
  with assms show False by simp
qed

lemma ilog2_unique:
  assumes "2 powi e \<le> \<bar>x\<bar>" and "\<bar>x\<bar> < 2 powi (e + 1)"
  shows "ilog2 x = e"
proof -
  have "(0::rat) < 2 powi e" by simp
  with assms(1) have "0 < \<bar>x\<bar>" by linarith
  then have nz: "x \<noteq> 0" by simp
  note b = ilog2_bounds[OF nz]
  have "(2::rat) powi e < 2 powi (ilog2 x + 1)" using assms(1) b(2) by simp
  then have "e < ilog2 x + 1" by (rule powi_less_cancel)
  moreover have "(2::rat) powi (ilog2 x) < 2 powi (e + 1)" using assms(2) b(1) by simp
  then have "ilog2 x < e + 1" by (rule powi_less_cancel)
  ultimately show ?thesis by simp
qed

lemma round_half_even_error: "\<bar>of_int (round_half_even y) - y\<bar> \<le> 1 / 2"
proof -
  have "of_int \<lfloor>y\<rfloor> \<le> y" "y < of_int \<lfloor>y\<rfloor> + 1" by linarith+
  then show ?thesis by (auto simp add: round_half_even_def Let_def)
qed

lemma round_half_even_int [simp]: "round_half_even (of_int i) = i"
  by (simp add: round_half_even_def)


lemma fl_eqI:
  assumes lo: "2 powi e \<le> \<bar>x\<bar>" and hi: "\<bar>x\<bar> < 2 powi (e + 1)"
    and e: "- 1022 \<le> e" "e \<le> 1022"
    and m: "round_half_even (x / 2 powi (e - 52)) = m"
  shows "fl x = Finite (of_int m * 2 powi (e - 52))"
proof -
  have "(0::rat) < 2 powi e" by simp
  with lo have "0 < \<bar>x\<bar>" by linarith
  then have nz: "x \<noteq> 0" by simp
  have il: "ilog2 x = e" using lo hi by (rule ilog2_unique)
  then have Q: "quantum x = 2 powi (e - 52)" using e by (simp add: quantum_def max_def)
  let ?Q = "(2::rat) powi (e - 52)"
  have Qpos: "0 < ?Q" by simp
  have "\<bar>x / ?Q\<bar> = \<bar>x\<bar> / ?Q" by simp
  also have "\<dots> < 2 powi (e + 1) / ?Q" using hi Qpos by (simp add: divide_strict_right_mono)
  also have "\<dots> = 2 powi (e + 1 - (e - 52))" by (rule power_int_diff[symmetric]) simp
  also have "e + 1 - (e - 52) = 53" by simp
  also have "(2::rat) powi 53 = 2 ^ 53" by simp
  finally have xq: "\<bar>x / ?Q\<bar> < 2 ^ 53" .
  have "\<bar>of_int m - x / ?Q\<bar> \<le> 1 / 2"
    using round_half_even_error[of "x / ?Q"] by (simp add: m)
  with xq have "\<bar>(of_int m :: rat)\<bar> < 2 ^ 53 + 1" by linarith
  also have "\<dots> < 2 ^ 54" by simp
  finally have mb: "\<bar>(of_int m :: rat)\<bar> < 2 powi 54" by simp
  have "\<bar>of_int m * ?Q\<bar> = \<bar>of_int m\<bar> * ?Q" by (simp add: abs_mult)
  also have "\<dots> < 2 powi 54 * ?Q" using mb Qpos by (simp add: mult_strict_right_mono)
  also have "\<dots> = 2 powi (54 + (e - 52))" by (rule power_int_add[symmetric]) simp
  also have "\<dots> \<le> 2 powi 1024" using e by (intro power_int_increasing) simp_all
  finally have "\<bar>of_int m * ?Q\<bar> < 2 ^ 1024" by simp
  then have "\<not> 2 ^ 1024 \<le> of_int m * ?Q" "\<not> of_int m * ?Q \<le> - (2 ^ 1024)" by linarith+
  then show ?thesis using nz by (simp add: fl_def Q m Let_def)
qed

lemma fl_exactI:
  assumes "2 powi e \<le> \<bar>x\<bar>" and "\<bar>x\<bar> < 2 powi (e + 1)"
    and "- 1022 \<le> e" "e \<le> 1022"
    and "x / 2 powi (e - 52) = of_int m"
  shows "fl x = Finite x"
proof -
  have "round_half_even (x / 2 powi (e - 52)) = m" by (simp add: assms(5))
  from fl_eqI[OF assms(1-4) this] have "fl x = Finite (of_int m * 2 powi (e - 52))" .
  also have "of_int m * 2 powi (e - 52) = x"
    using assms(5)[symmetric] by simp
  finally show ?thesis .
qed

lemma fl_error:
  assumes x: "\<bar>x\<bar> < 2 powi k" and k: "- 1021 \<le> k" "k \<le> 1023"
  shows "\<exists>y. fl x = Finite y \<and> \<bar>y - x\<bar> \<le> 2 powi (k - 54)"
proof (cases "x = 0")
  case True
  then show ?thesis by (simp add: fl_def)
next
  case False
  note b = ilog2_bounds[OF False]
  have "(2::rat) powi (ilog2 x) < 2 powi k" using b(1) x by linarith
  then have "ilog2 x < k" by (rule powi_less_cancel)
  then have E: "max (ilog2 x) (- 1022) - 52 \<le> k - 53" using k by simp
  let ?Q = "quantum x"
  have Qpos: "0 < ?Q" by (simp add: quantum_def)
  have Qle: "?Q \<le> 2 powi (k - 53)"
    unfolding quantum_def using E by (intro power_int_increasing) simp_all
  define m where "m = round_half_even (x / ?Q)"
  define r where "r = of_int m * ?Q"
  have "r - x = (of_int m - x / ?Q) * ?Q" using Qpos by (simp add: r_def field_simps)
  then have "\<bar>r - x\<bar> = \<bar>of_int m - x / ?Q\<bar> * ?Q" using Qpos by (simp add: abs_mult)
  also have "\<dots> \<le> 1 / 2 * ?Q"
    using round_half_even_error[of "x / ?Q"] Qpos unfolding m_def
    by (intro mult_right_mono) simp_all
  also have "\<dots> \<le> 1 / 2 * 2 powi (k - 53)" using Qle by simp
  also have "\<dots> = 2 powi (k - 54)"
  proof -
    have "(2::rat) powi (k - 53) = 2 powi (k - 54 + 1)" by simp
    also have "\<dots> = 2 powi (k - 54) * 2" by (subst power_int_add) simp_all
    finally show ?thesis by simp
  qed
  finally have err: "\<bar>r - x\<bar> \<le> 2 powi (k - 54)" .
  have "(2::rat) powi (k - 54) \<le> 2 powi k" by (intro power_int_increasing) simp_all
  with err x have "\<bar>r\<bar> < 2 powi k + 2 powi k" by linarith
  also have "\<dots> = 2 powi (k + 1)" by (subst power_int_add) simp_all
  also have "\<dots> \<le> 2 powi 1024" using k by (intro power_int_increasing) simp_all
  finally have "\<bar>r\<bar> < 2 ^ 1024" by simp
  then have "\<not> 2 ^ 1024 \<le> r" "\<not> r \<le> - (2 ^ 1024)" by linarith+
  then have "fl x = Finite r" using False by (simp add: fl_def Let_def r_def m_def)
  with err show ?thesis by blast
qed

lemma round_half_even_near:
  assumes "\<bar>y - of_int m\<bar> < 1 / 2"
  shows "round_half_even y = m"
proof -
  have "\<lfloor>y\<rfloor> = m \<or> \<lfloor>y\<rfloor> = m - 1" using assms by linarith
  then show ?thesis
  proof
    assume f: "\<lfloor>y\<rfloor> = m"
    with assms have "y - of_int m < 1 / 2" by linarith
    with f show ?thesis by (simp add: round_half_even_def)
  next
    assume f: "\<lfloor>y\<rfloor> = m - 1"
    from assms have "- (1 / 2) < y - of_int m" by linarith
    then have "1 / 2 < y - of_int (m - 1)" by simp
    with f show ?thesis by (simp add: round_half_even_def)
  qed
qed

lemma round_half_even_tie:
  assumes "y = of_int f + 1 / 2"
  shows "round_half_even y = (if even f then f else f + 1)"
proof -
  have "\<lfloor>y\<rfloor> = f" unfolding assms by linarith
  then show ?thesis by (simp add: round_half_even_def assms)
qed

lemma c102: "fl (102 / 100) = Finite (2296835809958953 / 2251799813685248)"
proof -
  have "round_half_even (102 / 100 / 2 powi (0 - 52)) = 4593671619917906"
    by (rule round_half_even_near) simp
  from fl_eqI[OF _ _ _ _ this] show ?thesis by simp
qed

lemma c002: "fl (2 / 100) = Finite (5764607523034235 / 288230376151711744)"
proof -
  have "round_half_even (2 / 100 / 2 powi (- 6 - 52)) = 5764607523034235"
    by (rule round_half_even_near) simp
  from fl_eqI[OF _ _ _ _ this] show ?thesis by simp
qed

lemma fl_int:
  assumes "i \<noteq> 0" and "\<bar>i\<bar> < 2 ^ 53"
  shows "fl (of_int i) = Finite (of_int i)"
proof -
  let ?x = "of_int i :: rat"
  have nz: "?x \<noteq> 0" using assms(1) by simp
  note b = ilog2_bounds[OF nz]
  define e where "e = ilog2 ?x"
  have "(1::rat) \<le> \<bar>?x\<bar>" using assms(1) by (simp flip: of_int_abs)
  then have "(2::rat) powi 0 < 2 powi (e + 1)" using b(2) by (simp add: e_def)
  then have "0 < e + 1" by (rule powi_less_cancel)
  then have e0: "0 \<le> e" by simp
  have "\<bar>?x\<bar> < 2 ^ 53" using assms(2) by (simp flip: of_int_abs)
  then have "(2::rat) powi e < 2 powi 53" using b(1) by (simp add: e_def)
  then have "e < 53" by (rule powi_less_cancel)
  then have e52: "e \<le> 52" by simp
  have "?x / 2 powi (e - 52) = ?x * 2 powi (52 - e)"
    by (simp add: power_int_diff[of 2 e 52] power_int_diff[of 2 52 e])
  also have "(2::rat) powi (52 - e) = 2 ^ nat (52 - e)" using e52 by (simp add: power_int_def)
  also have "?x * 2 ^ nat (52 - e) = of_int (i * 2 ^ nat (52 - e))" by simp
  finally have ex: "?x / 2 powi (e - 52) = of_int (i * 2 ^ nat (52 - e))" .
  show ?thesis
    by (rule fl_exactI[OF _ _ _ _ ex]) (use b e0 e52 in \<open>simp_all add: e_def\<close>)
qed

section \<open>The repayment plan\<close>

lemma float_of_int_small:
  assumes "1 \<le> n" and "n \<le> 12"
  shows "float_of_int n = Inr (Finite (of_int n))"
proof -
  have "n \<noteq> 0" "\<bar>n\<bar> < 2 ^ 53" using assms by simp_all
  then have "fl (of_int n) = Finite (of_int n)" by (rule fl_int)
  then show ?thesis by (simp add: float_of_int_def)
qed

lemma py_truediv_small:
  assumes "1 \<le> n" and "n \<le> 12"
  shows "py_truediv x n = Inr (fquot x (Finite (of_int n)))"
  using assms by (simp add: py_truediv_def float_of_int_small fdiv_def)

lemma shift_months_year:
  assumes "valid_date d" and "year d \<le> 9998" and "0 \<le> i" and "i \<le> 12"
  shows "1 \<le> year (shift_months d i)" and "year (shift_months d i) \<le> 9999"
proof -
  have d: "1 \<le> year d" "1 \<le> month d" "month d \<le> 12" using assms(1) by (simp_all add: valid_date_def)
  have "i div 12 = (if i = 12 then 1 else 0)" using assms(3,4) by auto
  moreover have "i mod 12 = (if i = 12 then 0 else i)" using assms(3,4) by auto
  ultimately show "1 \<le> year (shift_months d i)" and "year (shift_months d i) \<le> 9999"
    using d assms(2,3,4) by (auto simp add: shift_months_def Let_def)
qed

lemma add_months_ok:
  assumes "valid_date d" and "year d \<le> 9998" and "0 \<le> i" and "i \<le> 12"
  shows "add_months d i = Inr (shift_months d i)"
  using shift_months_year[OF assms] by (simp add: add_months_def Let_def)

lemma build_schedule_ok:
  assumes "\<forall>i \<in> set js. add_months current_date i = Inr (shift_months current_date i)"
  shows "build_schedule current_date installment_amount js =
           Inr (map (\<lambda>i. \<lparr>installment_number = i, amount = py_round installment_amount 2,
                            due_date = strftime (shift_months current_date i),
                            status = ''pending''\<rparr>) js)"
  using assms by (induction js) simp_all

lemma upto_from_one:
  assumes "1 \<le> n"
  shows "[1..n] = 1 # [2..n]" and "last [1..n] = n"
proof -
  show "[1..n] = 1 # [2..n]" using assms by (simp add: upto_rec1)
  have "[1..n] = [1..n - 1] @ [n]" using assms by (simp add: upto_rec2)
  then show "last [1..n] = n" by simp
qed

lemma calculate_repayment_plan_valid:
  assumes clock: "valid_date current_date" "year current_date \<le> 9998"
    and n: "1 \<le> installments" "installments \<le> 12"
  shows "calculate_repayment_plan current_date approved_amount installments =
     Inr \<lparr>rp_approved_amount = approved_amount,
          rp_administrative_fee = fmul approved_amount (fl (2 / 100)),
          rp_total_to_repay = py_round (fmul approved_amount (fl (102 / 100))) 2,
          rp_installments = installments,
          rp_installment_amount =
            py_round (fquot (fmul approved_amount (fl (102 / 100)))
                        (Finite (of_int installments))) 2,
          rp_schedule =
            map (\<lambda>i. \<lparr>installment_number = i,
                       amount = py_round (fquot (fmul approved_amount (fl (102 / 100)))
                                            (Finite (of_int installments))) 2,
                       due_date = strftime (shift_months current_date i),
                       status = ''pending''\<rparr>) [1..installments],
          rp_first_due_date = strftime (shift_months current_date 1),
          rp_last_due_date = strftime (shift_months current_date installments)\<rparr>"
proof -
  let ?q = "fquot (fmul approved_amount (fl (102 / 100))) (Finite (of_int installments))"
  let ?mk = "\<lambda>i. \<lparr>installment_number = i, amount = py_round ?q 2,
                    due_date = strftime (shift_months current_date i), status = ''pending''\<rparr>"
  have "\<forall>i \<in> set [1..installments]. add_months current_date i = Inr (shift_months current_date i)"
    using add_months_ok[OF clock] n by simp
  then have sched: "build_schedule current_date ?q [1..installments] = Inr (map ?mk [1..installments])"
    by (rule build_schedule_ok)
  note u = upto_from_one[OF n(1)]
  have m: "map ?mk [1..installments] = ?mk 1 # map ?mk [2..installments]"
    by (simp only: u(1) list.map)
  have ne: "[1..installments] \<noteq> []" unfolding u(1) by simp
  have l: "last (map ?mk [1..installments]) = ?mk installments"
    unfolding last_map[OF ne] u(2) ..
  have l': "due_date (last (?mk 1 # map ?mk [2..installments])) = strftime (shift_months current_date installments)"
    using l unfolding m by simp
  have c: "\<not> (installments < 1 \<or> 12 < installments)" using n by simp
  show ?thesis
    by (simp only: calculate_repayment_plan_def Let_def py_truediv_small[OF n] sum.case sched m
        list.case l' c if_False installment.select_convs)
qed


lemma fmul_1000_fee: "fmul (Finite 1000) (fl (102 / 100)) = Finite 1020"
proof -
  have "round_half_even (1000 * (2296835809958953 / 2251799813685248) / 2 powi (9 - 52))
          = 8972014882652160"
    by (rule round_half_even_near) simp
  from fl_eqI[OF _ _ _ _ this]
  have "fl (1000 * (2296835809958953 / 2251799813685248)) = Finite 1020" by simp
  then show ?thesis by (simp only: c102 fmul.simps)
qed

lemma fmul_1000_admin: "fmul (Finite 1000) (fl (2 / 100)) = Finite 20"
proof -
  have "round_half_even (1000 * (5764607523034235 / 288230376151711744) / 2 powi (4 - 52))
          = 5629499534213120"
    by (rule round_half_even_near) simp
  from fl_eqI[OF _ _ _ _ this]
  have "fl (1000 * (5764607523034235 / 288230376151711744)) = Finite 20" by simp
  then show ?thesis by (simp only: c002 fmul.simps)
qed

lemma fl_1020: "fl 1020 = Finite 1020" and fl_85: "fl 85 = Finite 85"
  using fl_int[of 1020] fl_int[of 85] by simp_all

lemma example_amounts:
  "py_round (Finite 1020) 2 = Finite 1020"
  "fquot (Finite 1020) (Finite 12) = Finite 85"
  "py_round (Finite 85) 2 = Finite 85"
  using round_half_even_int[of 102000] round_half_even_int[of 8500]
  by (simp_all add: fl_1020 fl_85)

lemma days_in_month_bounds: "28 \<le> days_in_month y m" "days_in_month y m \<le> 31"
  by (simp_all add: days_in_month_def)

lemma shift_months_index:
  assumes "1 \<le> month d" and "month d \<le> 12" and "0 \<le> i"
  shows "12 * year (shift_months d i) + month (shift_months d i) = 12 * year d + month d + i"
    and "1 \<le> month (shift_months d i)" and "month (shift_months d i) \<le> 12"
proof -
  define q where "q = i div 12"
  define r where "r = i mod 12"
  have m: "0 \<le> r" "r < 12" by (simp_all add: r_def)
  have i: "i = 12 * q + r" by (simp add: q_def r_def)
  have s: "shift_months d i =
      \<lparr>year = (if 12 < month d + r then year d + q + 1 else year d + q),
       month = (if 12 < month d + r then month d + r - 12 else month d + r),
       day = min (days_in_month (if 12 < month d + r then year d + q + 1 else year d + q)
                                (if 12 < month d + r then month d + r - 12 else month d + r))
                 (day d)\<rparr>"
    by (simp only: shift_months_def Let_def q_def r_def)
  have y: "year (shift_months d i) = (if 12 < month d + r then year d + q + 1 else year d + q)"
    and mo: "month (shift_months d i) = (if 12 < month d + r then month d + r - 12 else month d + r)"
    by (simp_all only: s date.select_convs)
  show "12 * year (shift_months d i) + month (shift_months d i) = 12 * year d + month d + i"
    using i unfolding y mo by (cases "12 < month d + r") simp_all
  show "1 \<le> month (shift_months d i)"
    unfolding mo using assms(1) m by (cases "12 < month d + r") simp_all
  show "month (shift_months d i) \<le> 12"
    unfolding mo using assms(2) m by (cases "12 < month d + r") simp_all
qed

lemma round_half_even_tie_even:
  assumes "\<bar>of_int (round_half_even y) - y\<bar> = 1 / 2"
  shows "even (round_half_even y)"
proof -
  define f where "f = \<lfloor>y\<rfloor>"
  define d where "d = y - of_int f"
  have b: "0 \<le> d" "d < 1" unfolding d_def f_def by linarith+
  have r: "round_half_even y =
             (if d < 1 / 2 then f else if 1 / 2 < d then f + 1 else if even f then f else f + 1)"
    by (simp add: round_half_even_def Let_def f_def d_def)
  have y: "y = of_int f + d" by (simp add: d_def)
  show ?thesis
  proof (cases "d < 1 / 2")
    case True
    with r have "round_half_even y = f" by simp
    with assms y b True show ?thesis by simp
  next
    case False
    show ?thesis
    proof (cases "1 / 2 < d")
      case True
      with r False have "round_half_even y = f + 1" by simp
      with assms y b True show ?thesis by simp
    next
      case h: False
      with r False show ?thesis by simp
    qed
  qed
qed

lemma py_round_cents:
  "\<exists>m. \<bar>of_int m - t * 100\<bar> \<le> 1 / 2 \<and> (\<bar>of_int m - t * 100\<bar> = 1 / 2 \<longrightarrow> even m)
       \<and> py_round (Finite t) 2 = fl (of_int m / 100)"
proof (intro exI[of _ "round_half_even (t * 100)"] conjI impI)
  show "\<bar>of_int (round_half_even (t * 100)) - t * 100\<bar> \<le> 1 / 2"
    by (rule round_half_even_error)
  show "even (round_half_even (t * 100))"
    if "\<bar>of_int (round_half_even (t * 100)) - t * 100\<bar> = 1 / 2"
    using that by (rule round_half_even_tie_even)
  show "py_round (Finite t) 2 = fl (of_int (round_half_even (t * 100)) / 100)"
    by simp
qed

lemma shift_months_valid:
  assumes v: "valid_date d" and y: "year d \<le> 9998" and i: "0 \<le> i" "i \<le> 12"
  shows "valid_date (shift_months d i)"
proof -
  from v have b: "1 \<le> month d" "month d \<le> 12" "1 \<le> day d" by (simp_all add: valid_date_def)
  note yr = shift_months_year[OF v y i]
  note mo = shift_months_index(2,3)[OF b(1,2) i(1)]
  have dy: "day (shift_months d i)
              = min (days_in_month (year (shift_months d i)) (month (shift_months d i))) (day d)"
    by (simp add: shift_months_def Let_def)
  have "1 \<le> day (shift_months d i)"
    unfolding dy using b(3) days_in_month_bounds(1)[of "year (shift_months d i)" "month (shift_months d i)"]
    by simp
  moreover have "day (shift_months d i)
                   \<le> days_in_month (year (shift_months d i)) (month (shift_months d i))"
    unfolding dy by simp
  ultimately show ?thesis using yr mo by (simp add: valid_date_def)
qed



text \<open>
  C5, as amended. Let the clock read a valid date at least a year before the last year
  of \<open>datetime\<close> (so that every due date exists). Then \<open>calculate_repayment_plan\<close> raises
  its \<open>ValueError\<close> when \<open>installments\<close> is outside 1..12, and for every
  \<open>approved_amount\<close> and \<open>installments\<close> in 1..12 it returns the plan whose
  \<open>total_to_repay\<close> is \<open>approved_amount * 1.02\<close> rounded to two places, whose
  \<open>installment_amount\<close> is that product, not yet rounded, divided by \<open>installments\<close> and
  then rounded to two places, and whose schedule has one pending installment for each
  \<open>i\<close> of 1..\<open>installments\<close>, due on the clock's date moved \<open>i\<close> months ahead. Rounding a
  finite float \<open>t\<close> to two places gives the float nearest to \<open>m / 100\<close>, where \<open>m\<close> is the
  integer nearest to \<open>100 t\<close>, the even one of the two when \<open>100 t\<close> lies half way. The
  date moved \<open>i\<close> months ahead is a valid date \<open>i\<close> months later in the count of months,
  on the day of the clock's date, or on the last day of its month when the month is
  shorter. For 1000 and 12 the total is 1020.0 and the installment 85.0.
\<close>

theorem calculate_repayment_plan_result:
  assumes "valid_date current_date" and "year current_date \<le> 9998"
  shows "(installments < 1 \<or> 12 < installments \<longrightarrow>
            calculate_repayment_plan current_date approved_amount installments
              = Inl (ValueError ''Installments must be between 1 and 12''))
       \<and> (1 \<le> installments \<and> installments \<le> 12 \<longrightarrow>
            calculate_repayment_plan current_date approved_amount installments =
              Inr \<lparr>rp_approved_amount = approved_amount,
                   rp_administrative_fee = fmul approved_amount (fl (2 / 100)),
                   rp_total_to_repay = py_round (fmul approved_amount (fl (102 / 100))) 2,
                   rp_installments = installments,
                   rp_installment_amount =
                     py_round (fquot (fmul approved_amount (fl (102 / 100)))
                                 (Finite (of_int installments))) 2,
                   rp_schedule =
                     map (\<lambda>i. \<lparr>installment_number = i,
                                amount = py_round (fquot (fmul approved_amount (fl (102 / 100)))
                                                     (Finite (of_int installments))) 2,
                                due_date = strftime (shift_months current_date i),
                                status = ''pending''\<rparr>) [1..installments],
                   rp_first_due_date = strftime (shift_months current_date 1),
                   rp_last_due_date = strftime (shift_months current_date installments)\<rparr>)
       \<and> (\<forall>t. \<exists>m. \<bar>of_int m - t * 100\<bar> \<le> 1 / 2
                  \<and> (\<bar>of_int m - t * 100\<bar> = 1 / 2 \<longrightarrow> even m)
                  \<and> py_round (Finite t) 2 = fl (of_int m / 100))
       \<and> (\<forall>i. 1 \<le> i \<and> i \<le> 12 \<longrightarrow>
              valid_date (shift_months current_date i)
            \<and> 12 * year (shift_months current_date i) + month (shift_months current_date i)
                = 12 * year current_date + month current_date + i
            \<and> day (shift_months current_date i)
                = min (day current_date)
                      (days_in_month (year (shift_months current_date i))
                                     (month (shift_months current_date i))))
       \<and> calculate_repayment_plan current_date (Finite 1000) 12 =
              Inr \<lparr>rp_approved_amount = Finite 1000,
                   rp_administrative_fee = Finite 20,
                   rp_total_to_repay = Finite 1020,
                   rp_installments = 12,
                   rp_installment_amount = Finite 85,
                   rp_schedule =
                     map (\<lambda>i. \<lparr>installment_number = i, amount = Finite 85,
                                due_date = strftime (shift_months current_date i),
                                status = ''pending''\<rparr>) [1..12],
                   rp_first_due_date = strftime (shift_months current_date 1),
                   rp_last_due_date = strftime (shift_months current_date 12)\<rparr>"
proof (intro conjI impI allI)
  assume "installments < 1 \<or> 12 < installments"
  then show "calculate_repayment_plan current_date approved_amount installments
              = Inl (ValueError ''Installments must be between 1 and 12'')"
    by (simp add: calculate_repayment_plan_def)
next
  assume "1 \<le> installments \<and> installments \<le> 12"
  then have n: "1 \<le> installments" "installments \<le> 12" by simp_all
  show "calculate_repayment_plan current_date approved_amount installments =
              Inr \<lparr>rp_approved_amount = approved_amount,
                   rp_administrative_fee = fmul approved_amount (fl (2 / 100)),
                   rp_total_to_repay = py_round (fmul approved_amount (fl (102 / 100))) 2,
                   rp_installments = installments,
                   rp_installment_amount =
                     py_round (fquot (fmul approved_amount (fl (102 / 100)))
                                 (Finite (of_int installments))) 2,
                   rp_schedule =
                     map (\<lambda>i. \<lparr>installment_number = i,
                                amount = py_round (fquot (fmul approved_amount (fl (102 / 100)))
                                                     (Finite (of_int installments))) 2,
                                due_date = strftime (shift_months current_date i),
                                status = ''pending''\<rparr>) [1..installments],
                   rp_first_due_date = strftime (shift_months current_date 1),
                   rp_last_due_date = strftime (shift_months current_date installments)\<rparr>"
    by (rule calculate_repayment_plan_valid[OF assms n])
next
  fix t
  show "\<exists>m. \<bar>of_int m - t * 100\<bar> \<le> 1 / 2
           \<and> (\<bar>of_int m - t * 100\<bar> = 1 / 2 \<longrightarrow> even m)
           \<and> py_round (Finite t) 2 = fl (of_int m / 100)"
    by (rule py_round_cents)
next
  fix i :: int
  assume "1 \<le> i \<and> i \<le> 12"
  then have i: "0 \<le> i" "i \<le> 12" by simp_all
  from assms(1) have b: "1 \<le> month current_date" "month current_date \<le> 12"
    by (simp_all add: valid_date_def)
  show "valid_date (shift_months current_date i)"
    by (rule shift_months_valid[OF assms i])
  show "12 * year (shift_months current_date i) + month (shift_months current_date i)
          = 12 * year current_date + month current_date + i"
    by (rule shift_months_index(1)[OF b i(1)])
  show "day (shift_months current_date i)
          = min (day current_date)
                (days_in_month (year (shift_months current_date i))
                               (month (shift_months current_date i)))"
    by (simp add: shift_months_def Let_def min.commute)
next
  have n: "(1::int) \<le> 12" "(12::int) \<le> 12" by simp_all
  have twelve: "Finite (of_int 12) = Finite 12" by simp
  show "calculate_repayment_plan current_date (Finite 1000) 12 =
              Inr \<lparr>rp_approved_amount = Finite 1000,
                   rp_administrative_fee = Finite 20,
                   rp_total_to_repay = Finite 1020,
                   rp_installments = 12,
                   rp_installment_amount = Finite 85,
                   rp_schedule =
                     map (\<lambda>i. \<lparr>installment_number = i, amount = Finite 85,
                                due_date = strftime (shift_months current_date i),
                                status = ''pending''\<rparr>) [1..12],
                   rp_first_due_date = strftime (shift_months current_date 1),
                   rp_last_due_date = strftime (shift_months current_date 12)\<rparr>"
    unfolding calculate_repayment_plan_valid[OF assms n]
    by (simp only: fmul_1000_fee fmul_1000_admin twelve example_amounts)
qed

lemma demo_today_valid: "valid_date demo_today" "year demo_today \<le> 9998"
  by (simp_all add: demo_today_def valid_date_def days_in_month_def)

lemma upto_1_12: "[1..12] = [1, 2, 3, 4, 5, 6, 7, 8, 9, 10, 11, 12::int]"
  by code_simp

lemma digit_char_values:
  "digit_char 0 = CHR ''0''" "digit_char 1 = CHR ''1''" "digit_char 2 = CHR ''2''"
  "digit_char 3 = CHR ''3''" "digit_char 4 = CHR ''4''" "digit_char 5 = CHR ''5''"
  "digit_char 6 = CHR ''6''" "digit_char 7 = CHR ''7''" "digit_char 8 = CHR ''8''"
  "digit_char 9 = CHR ''9''" "digit_char (Suc 0) = CHR ''1''"
  by code_simp+

lemma demo_due_dates:
  "strftime (shift_months demo_today 1) = ''2026-12-03''"
  "strftime (shift_months demo_today 2) = ''2027-01-03''"
  "strftime (shift_months demo_today 3) = ''2027-02-03''"
  "strftime (shift_months demo_today 4) = ''2027-03-03''"
  "strftime (shift_months demo_today 5) = ''2027-04-03''"
  "strftime (shift_months demo_today 6) = ''2027-05-03''"
  "strftime (shift_months demo_today 7) = ''2027-06-03''"
  "strftime (shift_months demo_today 8) = ''2027-07-03''"
  "strftime (shift_months demo_today 9) = ''2027-08-03''"
  "strftime (shift_months demo_today 10) = ''2027-09-03''"
  "strftime (shift_months demo_today 11) = ''2027-10-03''"
  "strftime (shift_months demo_today 12) = ''2027-11-03''"
  by (simp_all add: strftime_def shift_months_def demo_today_def days_in_month_def is_leap_def
      pad_def str_nat.simps digit_char_values Let_def)

lemma total_625: "fmul (Finite (25 / 4)) (fl (102 / 100)) = Finite (51 / 8)"
proof -
  have "round_half_even (25 / 4 * (2296835809958953 / 2251799813685248) / 2 powi (2 - 52))
          = 7177611906121728"
    by (rule round_half_even_near) simp
  from fl_eqI[OF _ _ _ _ this]
  have "fl (25 / 4 * (2296835809958953 / 2251799813685248)) = Finite (51 / 8)" by simp
  then show ?thesis by (simp only: c102 fmul.simps)
qed

lemma fee_625: "fmul (Finite (25 / 4)) (fl (2 / 100)) = Finite (1 / 8)"
proof -
  have "round_half_even (25 / 4 * (5764607523034235 / 288230376151711744) / 2 powi (- 3 - 52))
          = 4503599627370496"
    by (rule round_half_even_near) simp
  from fl_eqI[OF _ _ _ _ this]
  have "fl (25 / 4 * (5764607523034235 / 288230376151711744)) = Finite (1 / 8)" by simp
  then show ?thesis by (simp only: c002 fmul.simps)
qed

lemma fl_638: "fl (638 / 100) = Finite (7183241405655941 / 1125899906842624)"
proof -
  have "round_half_even (638 / 100 / 2 powi (2 - 52)) = 7183241405655941"
    by (rule round_half_even_near) simp
  from fl_eqI[OF _ _ _ _ this] show ?thesis by simp
qed

lemma fl_212: "fl (212 / 100) = Finite (2386907802506363 / 1125899906842624)"
proof -
  have "round_half_even (212 / 100 / 2 powi (1 - 52)) = 4773815605012726"
    by (rule round_half_even_near) simp
  from fl_eqI[OF _ _ _ _ this] show ?thesis by simp
qed

lemma round_total_625: "py_round (Finite (51 / 8)) 2 = Finite (7183241405655941 / 1125899906842624)"
proof -
  have "round_half_even (51 / 8 * 10 ^ 2) = (if even (637::int) then 637 else 637 + 1)"
    by (rule round_half_even_tie) simp
  then have "round_half_even (51 / 8 * 10 ^ 2) = 638" by simp
  then have "py_round (Finite (51 / 8)) 2 = fl (638 / 100)" by (simp only: py_round.simps) simp
  then show ?thesis by (simp only: fl_638)
qed

lemma quot_625: "fquot (Finite (51 / 8)) (Finite 3) = Finite (17 / 8)"
proof -
  have "fl (17 / 8) = Finite (17 / 8)"
    by (rule fl_exactI[of 1 _ 4785074604081152]) simp_all
  then show ?thesis by simp
qed

lemma round_installment_625:
  "py_round (Finite (17 / 8)) 2 = Finite (2386907802506363 / 1125899906842624)"
proof -
  have "round_half_even (17 / 8 * 10 ^ 2) = (if even (212::int) then 212 else 212 + 1)"
    by (rule round_half_even_tie) simp
  then have "round_half_even (17 / 8 * 10 ^ 2) = 212" by simp
  then have "py_round (Finite (17 / 8)) 2 = fl (212 / 100)" by (simp only: py_round.simps) simp
  then show ?thesis by (simp only: fl_212)
qed

lemma upto_1_3: "[1..3] = [1, 2, 3::int]"
  by code_simp

lemma demo_plan_run: "calculate_repayment_plan demo_today (Finite (25 / 4)) 3 = Inr demo_plan"
proof -
  have n: "(1::int) \<le> 3" "(3::int) \<le> 12" by simp_all
  have three: "Finite (of_int 3) = Finite 3" by simp
  show ?thesis
    unfolding calculate_repayment_plan_valid[OF demo_today_valid n] demo_plan_def
    by (simp only: total_625 fee_625 round_total_625 three quot_625 round_installment_625
        upto_1_3 list.map demo_due_dates)
qed

lemma quot_638: "fquot (Finite (7183241405655941 / 1125899906842624)) (Finite 3)
                   = Finite (4788827603770627 / 2251799813685248)"
proof -
  have "round_half_even (7183241405655941 / 1125899906842624 / 3 / 2 powi (1 - 52))
          = 4788827603770627"
    by (rule round_half_even_near) simp
  from fl_eqI[OF _ _ _ _ this]
  have "fl (7183241405655941 / 1125899906842624 / 3) = Finite (4788827603770627 / 2251799813685248)"
    by simp
  then show ?thesis by (simp only: fquot.simps)
qed

lemma fl_213: "fl (213 / 100) = Finite (2398166801574789 / 1125899906842624)"
proof -
  have "round_half_even (213 / 100 / 2 powi (1 - 52)) = 4796333603149578"
    by (rule round_half_even_near) simp
  from fl_eqI[OF _ _ _ _ this] show ?thesis by simp
qed

lemma round_quot_638:
  "py_round (Finite (4788827603770627 / 2251799813685248)) 2
     = Finite (2398166801574789 / 1125899906842624)"
proof -
  have "round_half_even (4788827603770627 / 2251799813685248 * 10 ^ 2) = 213"
    by (rule round_half_even_near) simp
  then have "py_round (Finite (4788827603770627 / 2251799813685248)) 2 = fl (213 / 100)"
    by (simp only: py_round.simps) simp
  then show ?thesis by (simp only: fl_213)
qed


text \<open>
  C5 as stated fails for 6.25 in three installments when \<open>total_to_repay\<close> is read as the
  returned total: that is the float 6.38, and a third of it rounds to 2.13, but the
  installment of the plan is 2.12, the rounding of a third of 6.375.
\<close>

theorem calculate_repayment_plan_result_counterexample:
  "calculate_repayment_plan demo_today (Finite (25 / 4)) 3 = Inr demo_plan
   \<and> rp_total_to_repay demo_plan = Finite (7183241405655941 / 1125899906842624)
   \<and> rp_installment_amount demo_plan = Finite (2386907802506363 / 1125899906842624)
   \<and> py_round (fquot (rp_total_to_repay demo_plan) (Finite 3)) 2
       = Finite (2398166801574789 / 1125899906842624)
   \<and> rp_installment_amount demo_plan \<noteq> py_round (fquot (rp_total_to_repay demo_plan) (Finite 3)) 2"
proof -
  have t: "rp_total_to_repay demo_plan = Finite (7183241405655941 / 1125899906842624)"
    and i: "rp_installment_amount demo_plan = Finite (2386907802506363 / 1125899906842624)"
    by (simp_all add: demo_plan_def)
  have r: "py_round (fquot (rp_total_to_repay demo_plan) (Finite 3)) 2
             = Finite (2398166801574789 / 1125899906842624)"
    unfolding t by (simp only: quot_638 round_quot_638)
  have n: "rp_installment_amount demo_plan
             \<noteq> py_round (fquot (rp_total_to_repay demo_plan) (Finite 3)) 2"
    unfolding r i by simp
  show ?thesis by (intro conjI demo_plan_run t i r n)
qed



lemma sample_clocks_valid:
  "valid_date \<lparr>year = 2028, month = 1, day = 31\<rparr>" "year \<lparr>year = 2028, month = 1, day = 31\<rparr> \<le> 9998"
  "valid_date \<lparr>year = 2026, month = 11, day = 30\<rparr>" "year \<lparr>year = 2026, month = 11, day = 30\<rparr> \<le> 9998"
  "valid_date \<lparr>year = 2100, month = 1, day = 31\<rparr>" "year \<lparr>year = 2100, month = 1, day = 31\<rparr> \<le> 9998"
  "valid_date \<lparr>year = 2399, month = 12, day = 31\<rparr>" "year \<lparr>year = 2399, month = 12, day = 31\<rparr> \<le> 9998"
  by (simp_all add: valid_date_def days_in_month_def)

lemma sample_due_dates:
  "strftime (shift_months \<lparr>year = 2028, month = 1, day = 31\<rparr> 1) = ''2028-02-29''"
  "strftime (shift_months \<lparr>year = 2028, month = 1, day = 31\<rparr> 2) = ''2028-03-31''"
  "strftime (shift_months \<lparr>year = 2028, month = 1, day = 31\<rparr> 3) = ''2028-04-30''"
  "strftime (shift_months \<lparr>year = 2026, month = 11, day = 30\<rparr> 1) = ''2026-12-30''"
  "strftime (shift_months \<lparr>year = 2026, month = 11, day = 30\<rparr> 2) = ''2027-01-30''"
  "strftime (shift_months \<lparr>year = 2026, month = 11, day = 30\<rparr> 3) = ''2027-02-28''"
  "strftime (shift_months \<lparr>year = 2100, month = 1, day = 31\<rparr> 1) = ''2100-02-28''"
  "strftime (shift_months \<lparr>year = 2399, month = 12, day = 31\<rparr> 1) = ''2400-01-31''"
  "strftime (shift_months \<lparr>year = 2399, month = 12, day = 31\<rparr> 2) = ''2400-02-29''"
  by (simp_all add: strftime_def shift_months_def days_in_month_def is_leap_def
      pad_def str_nat.simps digit_char_values Let_def)

lemma upto_small: "[1..1] = [1::int]" "[1..2] = [1, 2::int]"
  by code_simp+

lemma sample_amounts:
  "fquot (Finite 1020) (Finite 3) = Finite 340"
  "py_round (Finite 340) 2 = Finite 340"
  "fquot (Finite 1020) (Finite 1) = Finite 1020"
  "fquot (Finite 1020) (Finite 2) = Finite 510"
  "py_round (Finite 510) 2 = Finite 510"
  using round_half_even_int[of 34000] round_half_even_int[of 51000]
    fl_int[of 340] fl_int[of 510] fl_1020
  by simp_all


text \<open>
  Plans for sample clocks: the example of the spec; roundings at the half (6.375 to
  6.38 and 2.125 to 2.12) with due dates cut to the end of February in a leap year;
  the end of February in a common year after a change of year; a century that is no
  leap year; and one that is.
\<close>

theorem calculate_repayment_plan_result_witness:
  "valid_date demo_today \<and> year demo_today \<le> 9998
   \<and> calculate_repayment_plan demo_today (Finite 100) 13
       = Inl (ValueError ''Installments must be between 1 and 12'')
   \<and> calculate_repayment_plan demo_today (Finite 100) 0
       = Inl (ValueError ''Installments must be between 1 and 12'')
   \<and> calculate_repayment_plan demo_today (Finite 1000) 12 =
       Inr \<lparr>rp_approved_amount = Finite 1000,
            rp_administrative_fee = Finite 20,
            rp_total_to_repay = Finite 1020,
            rp_installments = 12,
            rp_installment_amount = Finite 85,
            rp_schedule =
              [\<lparr>installment_number = 1, amount = Finite 85, due_date = ''2026-12-03'', status = ''pending''\<rparr>,
               \<lparr>installment_number = 2, amount = Finite 85, due_date = ''2027-01-03'', status = ''pending''\<rparr>,
               \<lparr>installment_number = 3, amount = Finite 85, due_date = ''2027-02-03'', status = ''pending''\<rparr>,
               \<lparr>installment_number = 4, amount = Finite 85, due_date = ''2027-03-03'', status = ''pending''\<rparr>,
               \<lparr>installment_number = 5, amount = Finite 85, due_date = ''2027-04-03'', status = ''pending''\<rparr>,
               \<lparr>installment_number = 6, amount = Finite 85, due_date = ''2027-05-03'', status = ''pending''\<rparr>,
               \<lparr>installment_number = 7, amount = Finite 85, due_date = ''2027-06-03'', status = ''pending''\<rparr>,
               \<lparr>installment_number = 8, amount = Finite 85, due_date = ''2027-07-03'', status = ''pending''\<rparr>,
               \<lparr>installment_number = 9, amount = Finite 85, due_date = ''2027-08-03'', status = ''pending''\<rparr>,
               \<lparr>installment_number = 10, amount = Finite 85, due_date = ''2027-09-03'', status = ''pending''\<rparr>,
               \<lparr>installment_number = 11, amount = Finite 85, due_date = ''2027-10-03'', status = ''pending''\<rparr>,
               \<lparr>installment_number = 12, amount = Finite 85, due_date = ''2027-11-03'', status = ''pending''\<rparr>],
            rp_first_due_date = ''2026-12-03'',
            rp_last_due_date = ''2027-11-03''\<rparr>
   \<and> valid_date \<lparr>year = 2028, month = 1, day = 31\<rparr>
   \<and> calculate_repayment_plan \<lparr>year = 2028, month = 1, day = 31\<rparr> (Finite (25 / 4)) 3 =
       Inr \<lparr>rp_approved_amount = Finite (25 / 4),
            rp_administrative_fee = Finite (1 / 8),
            rp_total_to_repay = Finite (7183241405655941 / 1125899906842624),
            rp_installments = 3,
            rp_installment_amount = Finite (2386907802506363 / 1125899906842624),
            rp_schedule =
              [\<lparr>installment_number = 1, amount = Finite (2386907802506363 / 1125899906842624), due_date = ''2028-02-29'', status = ''pending''\<rparr>,
               \<lparr>installment_number = 2, amount = Finite (2386907802506363 / 1125899906842624), due_date = ''2028-03-31'', status = ''pending''\<rparr>,
               \<lparr>installment_number = 3, amount = Finite (2386907802506363 / 1125899906842624), due_date = ''2028-04-30'', status = ''pending''\<rparr>],
            rp_first_due_date = ''2028-02-29'',
            rp_last_due_date = ''2028-04-30''\<rparr>
   \<and> valid_date \<lparr>year = 2026, month = 11, day = 30\<rparr>
   \<and> calculate_repayment_plan \<lparr>year = 2026, month = 11, day = 30\<rparr> (Finite 1000) 3 =
       Inr \<lparr>rp_approved_amount = Finite 1000,
            rp_administrative_fee = Finite 20,
            rp_total_to_repay = Finite 1020,
            rp_installments = 3,
            rp_installment_amount = Finite 340,
            rp_schedule =
              [\<lparr>installment_number = 1, amount = Finite 340, due_date = ''2026-12-30'', status = ''pending''\<rparr>,
               \<lparr>installment_number = 2, amount = Finite 340, due_date = ''2027-01-30'', status = ''pending''\<rparr>,
               \<lparr>installment_number = 3, amount = Finite 340, due_date = ''2027-02-28'', status = ''pending''\<rparr>],
            rp_first_due_date = ''2026-12-30'',
            rp_last_due_date = ''2027-02-28''\<rparr>
   \<and> valid_date \<lparr>year = 2100, month = 1, day = 31\<rparr>
   \<and> calculate_repayment_plan \<lparr>year = 2100, month = 1, day = 31\<rparr> (Finite 1000) 1 =
       Inr \<lparr>rp_approved_amount = Finite 1000,
            rp_administrative_fee = Finite 20,
            rp_total_to_repay = Finite 1020,
            rp_installments = 1,
            rp_installment_amount = Finite 1020,
            rp_schedule =
              [\<lparr>installment_number = 1, amount = Finite 1020, due_date = ''2100-02-28'', status = ''pending''\<rparr>],
            rp_first_due_date = ''2100-02-28'',
            rp_last_due_date = ''2100-02-28''\<rparr>
   \<and> valid_date \<lparr>year = 2399, month = 12, day = 31\<rparr>
   \<and> calculate_repayment_plan \<lparr>year = 2399, month = 12, day = 31\<rparr> (Finite 1000) 2 =
       Inr \<lparr>rp_approved_amount = Finite 1000,
            rp_administrative_fee = Finite 20,
            rp_total_to_repay = Finite 1020,
            rp_installments = 2,
            rp_installment_amount = Finite 510,
            rp_schedule =
              [\<lparr>installment_number = 1, amount = Finite 510, due_date = ''2400-01-31'', status = ''pending''\<rparr>,
               \<lparr>installment_number = 2, amount = Finite 510, due_date = ''2400-02-29'', status = ''pending''\<rparr>],
            rp_first_due_date = ''2400-01-31'',
            rp_last_due_date = ''2400-02-29''\<rparr>"
proof -
  note t = calculate_repayment_plan_result[OF demo_today_valid]
  have a: "calculate_repayment_plan demo_today (Finite 100) 13
       = Inl (ValueError ''Installments must be between 1 and 12'')"
    using t[of 13 "Finite 100"] by simp
  have b: "calculate_repayment_plan demo_today (Finite 100) 0
       = Inl (ValueError ''Installments must be between 1 and 12'')"
    using t[of 0 "Finite 100"] by simp
  have c: "calculate_repayment_plan demo_today (Finite 1000) 12 =
              Inr \<lparr>rp_approved_amount = Finite 1000,
                   rp_administrative_fee = Finite 20,
                   rp_total_to_repay = Finite 1020,
                   rp_installments = 12,
                   rp_installment_amount = Finite 85,
                   rp_schedule =
                     map (\<lambda>i. \<lparr>installment_number = i, amount = Finite 85,
                                due_date = strftime (shift_months demo_today i),
                                status = ''pending''\<rparr>) [1..12],
                   rp_first_due_date = strftime (shift_months demo_today 1),
                   rp_last_due_date = strftime (shift_months demo_today 12)\<rparr>"
    using t[of 0 "Finite 100"] by blast
  have c1: "calculate_repayment_plan demo_today (Finite 1000) 12 =
       Inr \<lparr>rp_approved_amount = Finite 1000,
            rp_administrative_fee = Finite 20,
            rp_total_to_repay = Finite 1020,
            rp_installments = 12,
            rp_installment_amount = Finite 85,
            rp_schedule =
              [\<lparr>installment_number = 1, amount = Finite 85, due_date = ''2026-12-03'', status = ''pending''\<rparr>,
               \<lparr>installment_number = 2, amount = Finite 85, due_date = ''2027-01-03'', status = ''pending''\<rparr>,
               \<lparr>installment_number = 3, amount = Finite 85, due_date = ''2027-02-03'', status = ''pending''\<rparr>,
               \<lparr>installment_number = 4, amount = Finite 85, due_date = ''2027-03-03'', status = ''pending''\<rparr>,
               \<lparr>installment_number = 5, amount = Finite 85, due_date = ''2027-04-03'', status = ''pending''\<rparr>,
               \<lparr>installment_number = 6, amount = Finite 85, due_date = ''2027-05-03'', status = ''pending''\<rparr>,
               \<lparr>installment_number = 7, amount = Finite 85, due_date = ''2027-06-03'', status = ''pending''\<rparr>,
               \<lparr>installment_number = 8, amount = Finite 85, due_date = ''2027-07-03'', status = ''pending''\<rparr>,
               \<lparr>installment_number = 9, amount = Finite 85, due_date = ''2027-08-03'', status = ''pending''\<rparr>,
               \<lparr>installment_number = 10, amount = Finite 85, due_date = ''2027-09-03'', status = ''pending''\<rparr>,
               \<lparr>installment_number = 11, amount = Finite 85, due_date = ''2027-10-03'', status = ''pending''\<rparr>,
               \<lparr>installment_number = 12, amount = Finite 85, due_date = ''2027-11-03'', status = ''pending''\<rparr>],
            rp_first_due_date = ''2026-12-03'',
            rp_last_due_date = ''2027-11-03''\<rparr>"
    by (simp only: c upto_1_12 list.map demo_due_dates)
  have n3: "(1::int) \<le> 3 \<and> (3::int) \<le> 12" and n1: "(1::int) \<le> 1 \<and> (1::int) \<le> 12"
    and n2: "(1::int) \<le> 2 \<and> (2::int) \<le> 12" by simp_all
  have k: "Finite (of_int 3) = Finite 3" "Finite (of_int 1) = Finite 1" "Finite (of_int 2) = Finite 2"
    by simp_all
  from calculate_repayment_plan_result[OF sample_clocks_valid(1,2), of 3 "Finite (25 / 4)"] n3
  have "calculate_repayment_plan \<lparr>year = 2028, month = 1, day = 31\<rparr> (Finite (25 / 4)) 3 =
              Inr \<lparr>rp_approved_amount = Finite (25 / 4),
                   rp_administrative_fee = fmul (Finite (25 / 4)) (fl (2 / 100)),
                   rp_total_to_repay = py_round (fmul (Finite (25 / 4)) (fl (102 / 100))) 2,
                   rp_installments = 3,
                   rp_installment_amount =
                     py_round (fquot (fmul (Finite (25 / 4)) (fl (102 / 100)))
                                 (Finite (of_int 3))) 2,
                   rp_schedule =
                     map (\<lambda>i. \<lparr>installment_number = i,
                                amount = py_round (fquot (fmul (Finite (25 / 4)) (fl (102 / 100)))
                                                     (Finite (of_int 3))) 2,
                                due_date = strftime (shift_months \<lparr>year = 2028, month = 1, day = 31\<rparr> i),
                                status = ''pending''\<rparr>) [1..3],
                   rp_first_due_date = strftime (shift_months \<lparr>year = 2028, month = 1, day = 31\<rparr> 1),
                   rp_last_due_date = strftime (shift_months \<lparr>year = 2028, month = 1, day = 31\<rparr> 3)\<rparr>"
    by blast
  then have c2: "calculate_repayment_plan \<lparr>year = 2028, month = 1, day = 31\<rparr> (Finite (25 / 4)) 3 =
       Inr \<lparr>rp_approved_amount = Finite (25 / 4),
            rp_administrative_fee = Finite (1 / 8),
            rp_total_to_repay = Finite (7183241405655941 / 1125899906842624),
            rp_installments = 3,
            rp_installment_amount = Finite (2386907802506363 / 1125899906842624),
            rp_schedule =
              [\<lparr>installment_number = 1, amount = Finite (2386907802506363 / 1125899906842624), due_date = ''2028-02-29'', status = ''pending''\<rparr>,
               \<lparr>installment_number = 2, amount = Finite (2386907802506363 / 1125899906842624), due_date = ''2028-03-31'', status = ''pending''\<rparr>,
               \<lparr>installment_number = 3, amount = Finite (2386907802506363 / 1125899906842624), due_date = ''2028-04-30'', status = ''pending''\<rparr>],
            rp_first_due_date = ''2028-02-29'',
            rp_last_due_date = ''2028-04-30''\<rparr>"
    by (simp only: total_625 fee_625 round_total_625 k quot_625 round_installment_625
        upto_1_3 list.map sample_due_dates)
  from calculate_repayment_plan_result[OF sample_clocks_valid(3,4), of 3 "Finite 1000"] n3
  have "calculate_repayment_plan \<lparr>year = 2026, month = 11, day = 30\<rparr> (Finite 1000) 3 =
              Inr \<lparr>rp_approved_amount = Finite 1000,
                   rp_administrative_fee = fmul (Finite 1000) (fl (2 / 100)),
                   rp_total_to_repay = py_round (fmul (Finite 1000) (fl (102 / 100))) 2,
                   rp_installments = 3,
                   rp_installment_amount =
                     py_round (fquot (fmul (Finite 1000) (fl (102 / 100)))
                                 (Finite (of_int 3))) 2,
                   rp_schedule =
                     map (\<lambda>i. \<lparr>installment_number = i,
                                amount = py_round (fquot (fmul (Finite 1000) (fl (102 / 100)))
                                                     (Finite (of_int 3))) 2,
                                due_date = strftime (shift_months \<lparr>year = 2026, month = 11, day = 30\<rparr> i),
                                status = ''pending''\<rparr>) [1..3],
                   rp_first_due_date = strftime (shift_months \<lparr>year = 2026, month = 11, day = 30\<rparr> 1),
                   rp_last_due_date = strftime (shift_months \<lparr>year = 2026, month = 11, day = 30\<rparr> 3)\<rparr>"
    by blast
  then have c3: "calculate_repayment_plan \<lparr>year = 2026, month = 11, day = 30\<rparr> (Finite 1000) 3 =
       Inr \<lparr>rp_approved_amount = Finite 1000,
            rp_administrative_fee = Finite 20,
            rp_total_to_repay = Finite 1020,
            rp_installments = 3,
            rp_installment_amount = Finite 340,
            rp_schedule =
              [\<lparr>installment_number = 1, amount = Finite 340, due_date = ''2026-12-30'', status = ''pending''\<rparr>,
               \<lparr>installment_number = 2, amount = Finite 340, due_date = ''2027-01-30'', status = ''pending''\<rparr>,
               \<lparr>installment_number = 3, amount = Finite 340, due_date = ''2027-02-28'', status = ''pending''\<rparr>],
            rp_first_due_date = ''2026-12-30'',
            rp_last_due_date = ''2027-02-28''\<rparr>"
    by (simp only: fmul_1000_fee fmul_1000_admin k example_amounts sample_amounts
        upto_1_3 list.map sample_due_dates)
  from calculate_repayment_plan_result[OF sample_clocks_valid(5,6), of 1 "Finite 1000"] n1
  have "calculate_repayment_plan \<lparr>year = 2100, month = 1, day = 31\<rparr> (Finite 1000) 1 =
              Inr \<lparr>rp_approved_amount = Finite 1000,
                   rp_administrative_fee = fmul (Finite 1000) (fl (2 / 100)),
                   rp_total_to_repay = py_round (fmul (Finite 1000) (fl (102 / 100))) 2,
                   rp_installments = 1,
                   rp_installment_amount =
                     py_round (fquot (fmul (Finite 1000) (fl (102 / 100)))
                                 (Finite (of_int 1))) 2,
                   rp_schedule =
                     map (\<lambda>i. \<lparr>installment_number = i,
                                amount = py_round (fquot (fmul (Finite 1000) (fl (102 / 100)))
                                                     (Finite (of_int 1))) 2,
                                due_date = strftime (shift_months \<lparr>year = 2100, month = 1, day = 31\<rparr> i),
                                status = ''pending''\<rparr>) [1..1],
                   rp_first_due_date = strftime (shift_months \<lparr>year = 2100, month = 1, day = 31\<rparr> 1),
                   rp_last_due_date = strftime (shift_months \<lparr>year = 2100, month = 1, day = 31\<rparr> 1)\<rparr>"
    by blast
  then have c4: "calculate_repayment_plan \<lparr>year = 2100, month = 1, day = 31\<rparr> (Finite 1000) 1 =
       Inr \<lparr>rp_approved_amount = Finite 1000,
            rp_administrative_fee = Finite 20,
            rp_total_to_repay = Finite 1020,
            rp_installments = 1,
            rp_installment_amount = Finite 1020,
            rp_schedule =
              [\<lparr>installment_number = 1, amount = Finite 1020, due_date = ''2100-02-28'', status = ''pending''\<rparr>],
            rp_first_due_date = ''2100-02-28'',
            rp_last_due_date = ''2100-02-28''\<rparr>"
    by (simp only: fmul_1000_fee fmul_1000_admin k example_amounts sample_amounts
        upto_small list.map sample_due_dates)
  from calculate_repayment_plan_result[OF sample_clocks_valid(7,8), of 2 "Finite 1000"] n2
  have "calculate_repayment_plan \<lparr>year = 2399, month = 12, day = 31\<rparr> (Finite 1000) 2 =
              Inr \<lparr>rp_approved_amount = Finite 1000,
                   rp_administrative_fee = fmul (Finite 1000) (fl (2 / 100)),
                   rp_total_to_repay = py_round (fmul (Finite 1000) (fl (102 / 100))) 2,
                   rp_installments = 2,
                   rp_installment_amount =
                     py_round (fquot (fmul (Finite 1000) (fl (102 / 100)))
                                 (Finite (of_int 2))) 2,
                   rp_schedule =
                     map (\<lambda>i. \<lparr>installment_number = i,
                                amount = py_round (fquot (fmul (Finite 1000) (fl (102 / 100)))
                                                     (Finite (of_int 2))) 2,
                                due_date = strftime (shift_months \<lparr>year = 2399, month = 12, day = 31\<rparr> i),
                                status = ''pending''\<rparr>) [1..2],
                   rp_first_due_date = strftime (shift_months \<lparr>year = 2399, month = 12, day = 31\<rparr> 1),
                   rp_last_due_date = strftime (shift_months \<lparr>year = 2399, month = 12, day = 31\<rparr> 2)\<rparr>"
    by blast
  then have c5: "calculate_repayment_plan \<lparr>year = 2399, month = 12, day = 31\<rparr> (Finite 1000) 2 =
       Inr \<lparr>rp_approved_amount = Finite 1000,
            rp_administrative_fee = Finite 20,
            rp_total_to_repay = Finite 1020,
            rp_installments = 2,
            rp_installment_amount = Finite 510,
            rp_schedule =
              [\<lparr>installment_number = 1, amount = Finite 510, due_date = ''2400-01-31'', status = ''pending''\<rparr>,
               \<lparr>installment_number = 2, amount = Finite 510, due_date = ''2400-02-29'', status = ''pending''\<rparr>],
            rp_first_due_date = ''2400-01-31'',
            rp_last_due_date = ''2400-02-29''\<rparr>"
    by (simp only: fmul_1000_fee fmul_1000_admin k example_amounts sample_amounts
        upto_small list.map sample_due_dates)
  show ?thesis
    by (intro conjI demo_today_valid a b c1 c2 c3 c4 c5 sample_clocks_valid(1,3,5,7))
qed

section \<open>The sum of the installments and the due dates\<close>

lemma fl_error_30:
  assumes "\<bar>x\<bar> < 2 ^ 30"
  shows "\<exists>y. fl x = Finite y \<and> \<bar>y - x\<bar> \<le> 1 / 2 ^ 24"
proof -
  have "\<bar>x\<bar> < 2 powi 30" using assms by simp
  from fl_error[OF this] obtain y where "fl x = Finite y" "\<bar>y - x\<bar> \<le> 2 powi (30 - 54)"
    by auto
  moreover have "(2::rat) powi (30 - 54) = 1 / 2 ^ 24" by (simp add: power_int_minus_divide)
  ultimately show ?thesis by auto
qed

lemma py_round_2_error:
  assumes "\<bar>x\<bar> < 2 ^ 30 - 1"
  shows "\<exists>y. py_round (Finite x) 2 = Finite y \<and> \<bar>y - x\<bar> \<le> 1 / 200 + 1 / 2 ^ 24"
proof -
  define z where "z = (of_int (round_half_even (x * 10 ^ 2)) :: rat) / 10 ^ 2"
  have "\<bar>of_int (round_half_even (x * 10 ^ 2)) - x * 10 ^ 2\<bar> \<le> 1 / 2"
    by (rule round_half_even_error)
  then have zx: "\<bar>z - x\<bar> \<le> 1 / 200" unfolding z_def by (simp add: field_simps abs_le_iff)
  with assms have "\<bar>z\<bar> < 2 ^ 30" by linarith
  from fl_error_30[OF this] obtain y where y: "fl z = Finite y" "\<bar>y - z\<bar> \<le> 1 / 2 ^ 24" by auto
  have "py_round (Finite x) 2 = Finite y" using y(1) by (simp add: z_def)
  moreover have "\<bar>y - x\<bar> \<le> 1 / 200 + 1 / 2 ^ 24" using y(2) zx by linarith
  ultimately show ?thesis by blast
qed

lemma plan_amounts_close:
  assumes x: "\<bar>x\<bar> \<le> 10 ^ 9" and n: "1 \<le> n" "n \<le> 12"
  shows "\<exists>A R. py_round (fquot (fmul (Finite x) (fl (102 / 100))) (Finite (of_int n))) 2 = Finite A
             \<and> py_round (fmul (Finite x) (fl (102 / 100))) 2 = Finite R
             \<and> \<bar>of_int n * A - R\<bar> \<le> of_int n * (5 / 1000) + 5 / 1000 + 2 / 10 ^ 6"
proof -
  let ?c = "2296835809958953 / 2251799813685248 :: rat"
  define u :: rat where "u = 1 / 2 ^ 24"
  have u: "0 \<le> u" "u \<le> 6 / 100000000" by (simp_all add: u_def)
  have c: "fl (102 / 100) = Finite ?c" by (rule c102)
  define xc where "xc = x * ?c"
  have "\<bar>xc\<bar> = \<bar>x\<bar> * ?c" by (simp add: xc_def abs_mult)
  also have "\<dots> \<le> 10 ^ 9 * ?c" using x by (intro mult_right_mono) simp_all
  also have "\<dots> \<le> 1020000001" by simp
  finally have xcb: "\<bar>xc\<bar> \<le> 1020000001" .
  have p30: "(2::rat) ^ 30 = 1073741824" by simp
  have "\<bar>xc\<bar> < 2 ^ 30" unfolding p30 using xcb by linarith
  from fl_error_30[OF this] obtain T where T: "fl xc = Finite T" "\<bar>T - xc\<bar> \<le> u"
    unfolding u_def by auto
  have Tb: "\<bar>T\<bar> \<le> 1020000002" using T(2) xcb u by linarith
  have npos: "(0::rat) < of_int n" and n1: "(1::rat) \<le> of_int n" and n12: "(of_int n :: rat) \<le> 12"
    using n by simp_all
  define Tn where "Tn = T / of_int n"
  have "\<bar>Tn\<bar> = \<bar>T\<bar> / of_int n" using npos by (simp add: Tn_def)
  also have "\<dots> \<le> \<bar>T\<bar> / 1" using n1 by (intro divide_left_mono) simp_all
  finally have Tnb: "\<bar>Tn\<bar> \<le> 1020000002" using Tb by simp
  have "\<bar>Tn\<bar> < 2 ^ 30" unfolding p30 using Tnb by linarith
  from fl_error_30[OF this] obtain q where q: "fl Tn = Finite q" "\<bar>q - Tn\<bar> \<le> u"
    unfolding u_def by auto
  have "\<bar>q\<bar> \<le> 1020000003" using q(2) Tnb u by linarith
  then have "\<bar>q\<bar> < 2 ^ 30 - 1" unfolding p30 by linarith
  from py_round_2_error[OF this] obtain A where A: "py_round (Finite q) 2 = Finite A"
    "\<bar>A - q\<bar> \<le> 1 / 200 + u" unfolding u_def by auto
  have "\<bar>T\<bar> < 2 ^ 30 - 1" unfolding p30 using Tb by linarith
  from py_round_2_error[OF this] obtain R where R: "py_round (Finite T) 2 = Finite R"
    "\<bar>R - T\<bar> \<le> 1 / 200 + u" unfolding u_def by auto
  have "\<bar>A - Tn\<bar> \<le> 1 / 200 + 2 * u" using A(2) q(2) by linarith
  then have "of_int n * \<bar>A - Tn\<bar> \<le> of_int n * (1 / 200 + 2 * u)"
    using npos by (intro mult_left_mono) simp_all
  moreover have "of_int n * \<bar>A - Tn\<bar> = \<bar>of_int n * A - T\<bar>"
  proof -
    have "of_int n * A - T = of_int n * (A - Tn)" using npos by (simp add: Tn_def field_simps)
    then show ?thesis using npos by (simp add: abs_mult)
  qed
  ultimately have nA: "\<bar>of_int n * A - T\<bar> \<le> of_int n * (1 / 200) + of_int n * (2 * u)"
    by (simp add: algebra_simps)
  have "of_int n * (2 * u) \<le> 12 * (2 * u)" using n12 u by (intro mult_right_mono) simp_all
  with nA have nA': "\<bar>of_int n * A - T\<bar> \<le> of_int n * (1 / 200) + 24 * u" by linarith
  define nA where "nA = of_int n * A"
  define n200 where "n200 = (of_int n :: rat) * (1 / 200)"
  have "\<bar>nA - T\<bar> \<le> n200 + 24 * u" using nA' by (simp only: nA_def n200_def)
  then have "\<bar>nA - R\<bar> \<le> n200 + 1 / 200 + 2 / 1000000"
    using R(2) u by linarith
  then have bound: "\<bar>of_int n * A - R\<bar> \<le> of_int n * (5 / 1000) + 5 / 1000 + 2 / 10 ^ 6"
    by (simp add: nA_def n200_def)
  have "py_round (fquot (fmul (Finite x) (fl (102 / 100))) (Finite (of_int n))) 2 = Finite A"
    by (simp only: c fmul.simps xc_def[symmetric] T(1) fquot.simps Tn_def[symmetric] q(1) A(1))
  moreover have "py_round (fmul (Finite x) (fl (102 / 100))) 2 = Finite R"
    by (simp only: c fmul.simps xc_def[symmetric] T(1) R(1))
  ultimately show ?thesis using bound by blast
qed


lemma shift_months_increasing:
  assumes "1 \<le> month d" and "month d \<le> 12" and "0 \<le> i"
  shows "date_less (shift_months d i) (shift_months d (i + 1))"
proof -
  have i1: "0 \<le> i + 1" using assms(3) by simp
  note a = shift_months_index[OF assms]
  note b = shift_months_index[OF assms(1,2) i1]
  have "12 * year (shift_months d i) + month (shift_months d i)
          < 12 * year (shift_months d (i + 1)) + month (shift_months d (i + 1))"
    using a(1) b(1) by linarith
  then have "year (shift_months d i) < year (shift_months d (i + 1)) \<or>
      (year (shift_months d i) = year (shift_months d (i + 1)) \<and>
       month (shift_months d i) < month (shift_months d (i + 1)))"
    using a(2,3) b(2,3) by linarith
  then show ?thesis by (auto simp add: date_less_def)
qed

lemma schedule_total_const:
  assumes "0 \<le> n"
  shows "schedule_total (map (\<lambda>i. \<lparr>installment_number = i, amount = Finite A,
                                     due_date = f i, status = ''pending''\<rparr>) [1..n])
           = of_int n * A"
proof -
  have "schedule_total (map (\<lambda>i. \<lparr>installment_number = i, amount = Finite A,
                                     due_date = f i, status = ''pending''\<rparr>) [1..n])
          = (\<Sum>i\<leftarrow>[1..n]. A)"
    by (simp add: schedule_total_def finite_value_def comp_def)
  also have "\<dots> = of_nat (length [1..n]) * A" by (rule sum_list_triv)
  also have "of_nat (length [1..n]) = (of_int n :: rat)" using assms by simp
  finally show ?thesis .
qed

text \<open>
  C6, as amended. Let the clock read a valid date at least a year before the last
  year of \<open>datetime\<close>, \<open>installments\<close> be in 1..12 and the approved amount a finite
  float of at most 10^9 in absolute value. Then the plan has \<open>installments\<close>
  installments, all of the amount \<open>installment_amount\<close>, and their exact sum differs
  from the rounded \<open>total_to_repay\<close> by at most \<open>installments * 0.005 + 0.005\<close>, up to the
  representation error of the floats (below 0.000002): one half cent for each rounded
  installment, and one more for the rounding of the total itself. The due dates are
  the clock's date moved 1, 2, ... months ahead, so the first is one month after the
  request; each is strictly later than the one before, and one calendar month on.
\<close>

theorem repayment_plan_sum_and_dates:
  assumes clock: "valid_date current_date" "year current_date \<le> 9998"
    and n: "1 \<le> installments" "installments \<le> 12"
    and x: "\<bar>x\<bar> \<le> 10 ^ 9"
  shows "\<exists>plan. calculate_repayment_plan current_date (Finite x) installments = Inr plan
       \<and> length (rp_schedule plan) = nat installments
       \<and> (\<forall>inst \<in> set (rp_schedule plan). amount inst = rp_installment_amount plan)
       \<and> \<bar>schedule_total (rp_schedule plan) - finite_value (rp_total_to_repay plan)\<bar>
            \<le> of_int installments * (5 / 1000) + 5 / 1000 + 2 / 10 ^ 6
       \<and> map due_date (rp_schedule plan)
            = map (\<lambda>i. strftime (shift_months current_date i)) [1..installments]
       \<and> shift_months current_date 0 = current_date
       \<and> (\<forall>i. 0 \<le> i \<longrightarrow>
              date_less (shift_months current_date i) (shift_months current_date (i + 1)) \<and>
              12 * year (shift_months current_date (i + 1)) + month (shift_months current_date (i + 1))
                = 12 * year (shift_months current_date i) + month (shift_months current_date i) + 1)"
proof -
  from plan_amounts_close[OF x n] obtain A R where
    A: "py_round (fquot (fmul (Finite x) (fl (102 / 100))) (Finite (of_int installments))) 2 = Finite A"
    and R: "py_round (fmul (Finite x) (fl (102 / 100))) 2 = Finite R"
    and b: "\<bar>of_int installments * A - R\<bar> \<le> of_int installments * (5 / 1000) + 5 / 1000 + 2 / 10 ^ 6"
    by blast
  define plan where "plan =
     \<lparr>rp_approved_amount = Finite x,
      rp_administrative_fee = fmul (Finite x) (fl (2 / 100)),
      rp_total_to_repay = Finite R,
      rp_installments = installments,
      rp_installment_amount = Finite A,
      rp_schedule =
        map (\<lambda>i. \<lparr>installment_number = i, amount = Finite A,
                   due_date = strftime (shift_months current_date i),
                   status = ''pending''\<rparr>) [1..installments],
      rp_first_due_date = strftime (shift_months current_date 1),
      rp_last_due_date = strftime (shift_months current_date installments)\<rparr>"
  have p: "calculate_repayment_plan current_date (Finite x) installments = Inr plan"
    unfolding plan_def A[symmetric] R[symmetric]
    by (rule calculate_repayment_plan_valid[OF clock n])
  have d: "1 \<le> month current_date" "month current_date \<le> 12"
    "1 \<le> day current_date" "day current_date \<le> days_in_month (year current_date) (month current_date)"
    using clock(1) by (simp_all add: valid_date_def)
  have s0: "shift_months current_date 0 = current_date"
    using d by (simp add: shift_months_def Let_def)
  have n0: "0 \<le> installments" using n by simp
  have len: "length (rp_schedule plan) = nat installments" using n by (simp add: plan_def)
  have same: "\<forall>inst \<in> set (rp_schedule plan). amount inst = rp_installment_amount plan"
    by (auto simp add: plan_def)
  have tot: "schedule_total (rp_schedule plan) = of_int installments * A"
    unfolding plan_def by (simp add: schedule_total_const[OF n0])
  have bound: "\<bar>schedule_total (rp_schedule plan) - finite_value (rp_total_to_repay plan)\<bar>
            \<le> of_int installments * (5 / 1000) + 5 / 1000 + 2 / 10 ^ 6"
    using b unfolding tot by (simp add: plan_def finite_value_def)
  have dates: "map due_date (rp_schedule plan)
            = map (\<lambda>i. strftime (shift_months current_date i)) [1..installments]"
    by (simp add: plan_def comp_def)
  have inc: "\<forall>i. 0 \<le> i \<longrightarrow>
              date_less (shift_months current_date i) (shift_months current_date (i + 1)) \<and>
              12 * year (shift_months current_date (i + 1)) + month (shift_months current_date (i + 1))
                = 12 * year (shift_months current_date i) + month (shift_months current_date i) + 1"
  proof (intro allI impI conjI)
    fix i :: int assume i: "0 \<le> i"
    show "date_less (shift_months current_date i) (shift_months current_date (i + 1))"
      by (rule shift_months_increasing[OF d(1,2) i])
    have i1: "0 \<le> i + 1" using i by simp
    show "12 * year (shift_months current_date (i + 1)) + month (shift_months current_date (i + 1))
                = 12 * year (shift_months current_date i) + month (shift_months current_date i) + 1"
      using shift_months_index(1)[OF d(1,2) i] shift_months_index(1)[OF d(1,2) i1] by linarith
  qed
  show ?thesis using p len same bound dates s0 inc by blast
qed

text \<open>
  C6 as stated fails for 6.25 in three installments: \<open>6.25 * 1.02\<close> is 6.375, rounded
  to 6.38, while a third of it, 2.125, is rounded to 2.12; the installments sum to
  6.36, which is 0.02 below the total and more than \<open>3 * 0.005\<close> away from it.
\<close>

theorem repayment_plan_sum_counterexample:
  "calculate_repayment_plan demo_today (Finite (25 / 4)) 3 = Inr demo_plan
   \<and> schedule_total (rp_schedule demo_plan) = 3 * (2386907802506363 / 1125899906842624)
   \<and> finite_value (rp_total_to_repay demo_plan) = 7183241405655941 / 1125899906842624
   \<and> \<not> \<bar>schedule_total (rp_schedule demo_plan) - finite_value (rp_total_to_repay demo_plan)\<bar>
          \<le> 3 * (5 / 1000)"
proof -
  have s: "schedule_total (rp_schedule demo_plan) = 3 * (2386907802506363 / 1125899906842624)"
    by (simp add: demo_plan_def schedule_total_def finite_value_def)
  have t: "finite_value (rp_total_to_repay demo_plan) = 7183241405655941 / 1125899906842624"
    by (simp add: demo_plan_def finite_value_def)
  have "\<not> \<bar>3 * (2386907802506363 / 1125899906842624) - 7183241405655941 / 1125899906842624\<bar>
          \<le> (3 * (5 / 1000) :: rat)"
    by simp
  then show ?thesis using demo_plan_run unfolding s t by simp
qed

text \<open>The amended bound and the dates, for 1000 in twelve installments.\<close>

theorem repayment_plan_sum_and_dates_witness:
  "valid_date demo_today \<and> year demo_today \<le> 9998
   \<and> (\<exists>plan. calculate_repayment_plan demo_today (Finite 1000) 12 = Inr plan
        \<and> length (rp_schedule plan) = 12
        \<and> \<bar>schedule_total (rp_schedule plan) - finite_value (rp_total_to_repay plan)\<bar>
             \<le> 12 * (5 / 1000) + 5 / 1000 + 2 / 10 ^ 6
        \<and> map due_date (rp_schedule plan) =
            [''2026-12-03'', ''2027-01-03'', ''2027-02-03'', ''2027-03-03'', ''2027-04-03'',
             ''2027-05-03'', ''2027-06-03'', ''2027-07-03'', ''2027-08-03'', ''2027-09-03'',
             ''2027-10-03'', ''2027-11-03''])
   \<and> date_less (shift_months demo_today 1) (shift_months demo_today 2)"
proof -
  have n: "(1::int) \<le> 12" "(12::int) \<le> 12" and x: "\<bar>1000::rat\<bar> \<le> 10 ^ 9" by simp_all
  from repayment_plan_sum_and_dates[OF demo_today_valid n x]
  obtain plan where p: "calculate_repayment_plan demo_today (Finite 1000) 12 = Inr plan"
    and l: "length (rp_schedule plan) = nat 12"
    and b: "\<bar>schedule_total (rp_schedule plan) - finite_value (rp_total_to_repay plan)\<bar>
             \<le> of_int 12 * (5 / 1000) + 5 / 1000 + 2 / 10 ^ 6"
    and d: "map due_date (rp_schedule plan)
             = map (\<lambda>i. strftime (shift_months demo_today i)) [1..12]"
    and i: "\<forall>i. 0 \<le> i \<longrightarrow>
              date_less (shift_months demo_today i) (shift_months demo_today (i + 1)) \<and>
              12 * year (shift_months demo_today (i + 1)) + month (shift_months demo_today (i + 1))
                = 12 * year (shift_months demo_today i) + month (shift_months demo_today i) + 1"
    by blast
  have l': "length (rp_schedule plan) = 12" using l by simp
  have b': "\<bar>schedule_total (rp_schedule plan) - finite_value (rp_total_to_repay plan)\<bar>
             \<le> 12 * (5 / 1000) + 5 / 1000 + 2 / 10 ^ 6" using b by simp
  have d': "map due_date (rp_schedule plan) =
            [''2026-12-03'', ''2027-01-03'', ''2027-02-03'', ''2027-03-03'', ''2027-04-03'',
             ''2027-05-03'', ''2027-06-03'', ''2027-07-03'', ''2027-08-03'', ''2027-09-03'',
             ''2027-10-03'', ''2027-11-03'']"
    unfolding d by (simp only: upto_1_12 list.map demo_due_dates)
  have "(0::int) \<le> 1" by simp
  from i[rule_format, OF this]
  have i': "date_less (shift_months demo_today 1) (shift_months demo_today 2)" by simp
  have "\<exists>plan. calculate_repayment_plan demo_today (Finite 1000) 12 = Inr plan
        \<and> length (rp_schedule plan) = 12
        \<and> \<bar>schedule_total (rp_schedule plan) - finite_value (rp_total_to_repay plan)\<bar>
             \<le> 12 * (5 / 1000) + 5 / 1000 + 2 / 10 ^ 6
        \<and> map due_date (rp_schedule plan) =
            [''2026-12-03'', ''2027-01-03'', ''2027-02-03'', ''2027-03-03'', ''2027-04-03'',
             ''2027-05-03'', ''2027-06-03'', ''2027-07-03'', ''2027-08-03'', ''2027-09-03'',
             ''2027-10-03'', ''2027-11-03'']"
    by (rule exI[of _ plan]) (intro conjI p l' b' d')
  with demo_today_valid i' show ?thesis by (intro conjI)
qed

section \<open>Days between dates\<close>

lemma div_step:
  fixes y k :: int
  assumes k: "0 < k"
  shows "y div k - (y - 1) div k = (if y mod k = 0 then 1 else 0)"
proof -
  define q where "q = y div k"
  define r where "r = y mod k"
  have r: "0 \<le> r" "r < k" using k by (simp_all add: r_def)
  have y: "y = q * k + r" by (simp add: q_def r_def)
  show ?thesis
  proof (cases "r = 0")
    case True
    have k0: "k \<noteq> 0" using k by simp
    have "y - 1 = (q - 1) * k + (k - 1)" unfolding y True by (simp add: algebra_simps)
    also have "((q - 1) * k + (k - 1)) div k = (q - 1) + (k - 1) div k"
      using k0 by (rule div_mult_self3)
    also have "(k - 1) div k = 0" using k by (simp add: div_pos_pos_trivial)
    finally have "(y - 1) div k = q - 1" by simp
    with True show ?thesis by (simp add: q_def[symmetric] r_def[symmetric])
  next
    case False
    have k0: "k \<noteq> 0" using k by simp
    have "y - 1 = q * k + (r - 1)" unfolding y by simp
    also have "(q * k + (r - 1)) div k = q + (r - 1) div k"
      using k0 by (rule div_mult_self3)
    also have "(r - 1) div k = 0" using r False by (simp add: div_pos_pos_trivial)
    finally have "(y - 1) div k = q" by simp
    with False show ?thesis by (simp add: q_def[symmetric] r_def[symmetric])
  qed
qed

lemma mod_100_4: "(y::int) mod 100 = 0 \<Longrightarrow> y mod 4 = 0"
proof -
  assume "y mod 100 = 0"
  then have "100 dvd y" by (simp add: dvd_eq_mod_eq_0)
  moreover have "(4::int) dvd 100" by simp
  ultimately have "4 dvd y" by (rule dvd_trans[rotated])
  then show ?thesis by (simp add: dvd_eq_mod_eq_0)
qed

lemma mod_400_100: "(y::int) mod 400 = 0 \<Longrightarrow> y mod 100 = 0"
proof -
  assume "y mod 400 = 0"
  then have "400 dvd y" by (simp add: dvd_eq_mod_eq_0)
  moreover have "(100::int) dvd 400" by simp
  ultimately have "100 dvd y" by (rule dvd_trans[rotated])
  then show ?thesis by (simp add: dvd_eq_mod_eq_0)
qed

lemma days_before_year_step:
  "days_before_year (y + 1) = days_before_year y + (if is_leap y then 366 else 365)"
proof -
  define a where "a = y div 4 - (y - 1) div 4"
  define b where "b = y div 100 - (y - 1) div 100"
  define c where "c = y div 400 - (y - 1) div 400"
  have a: "a = (if y mod 4 = 0 then 1 else 0)" unfolding a_def by (rule div_step) simp
  have b: "b = (if y mod 100 = 0 then 1 else 0)" unfolding b_def by (rule div_step) simp
  have c: "c = (if y mod 400 = 0 then 1 else 0)" unfolding c_def by (rule div_step) simp
  have s: "days_before_year (y + 1) = days_before_year y + 365 + a - b + c"
    by (simp add: days_before_year_def a_def b_def c_def)
  have l: "a - b + c = (if is_leap y then 1 else 0)"
  proof (cases "y mod 4 = 0")
    case False
    with mod_100_4[of y] have n1: "y mod 100 \<noteq> 0" by auto
    with mod_400_100[of y] have n2: "y mod 400 \<noteq> 0" by auto
    note n1 n2
    with False show ?thesis by (simp add: a b c is_leap_def)
  next
    case True
    show ?thesis
    proof (cases "y mod 100 = 0")
      case False
      with mod_400_100[of y] have "y mod 400 \<noteq> 0" by auto
      with True False show ?thesis by (simp add: a b c is_leap_def)
    next
      case h: True
      show ?thesis by (cases "y mod 400 = 0") (simp_all add: a b c is_leap_def True h)
    qed
  qed
  have "days_before_year (y + 1) = days_before_year y + 365 + (a - b + c)" using s by simp
  then show ?thesis unfolding l by simp
qed


lemma days_before_month_step:
  assumes "1 \<le> m"
  shows "days_before_month y (m + 1) = days_before_month y m + days_in_month y m"
proof -
  have "[1..m + 1 - 1] = [1..m - 1] @ [m]" using assms by (simp add: upto_rec2)
  then show ?thesis by (simp add: days_before_month_def)
qed

lemma days_before_month_first: "days_before_month y 1 = 0"
  by (simp add: days_before_month_def)

lemma days_before_month_mono:
  assumes "1 \<le> m" and "m < n"
  shows "days_before_month y m + days_in_month y m \<le> days_before_month y n"
proof -
  have "m + 1 \<le> n" using assms(2) by simp
  then show ?thesis
  proof (induction n rule: int_ge_induct)
    case base
    show ?case using days_before_month_step[OF assms(1), of y] by simp
  next
    case (step i)
    have "1 \<le> i" using step.hyps assms(1) by simp
    from days_before_month_step[OF this, of y] days_in_month_bounds(1)[of y i] step.IH
    show ?case by simp
  qed
qed

lemma days_before_month_year:
  "days_before_month y 13 = (if is_leap y then 366 else 365)"
proof -
  have "[1..13 - 1] = [1, 2, 3, 4, 5, 6, 7, 8, 9, 10, 11, 12::int]" using upto_1_12 by simp
  then show ?thesis by (simp add: days_before_month_def days_in_month_def)
qed

lemma day_of_year_bounds:
  assumes "valid_date d"
  shows "1 \<le> days_before_month (year d) (month d) + day d"
    and "days_before_month (year d) (month d) + day d \<le> (if is_leap (year d) then 366 else 365)"
proof -
  from assms have v: "1 \<le> month d" "month d \<le> 12" "1 \<le> day d"
    "day d \<le> days_in_month (year d) (month d)" by (simp_all add: valid_date_def)
  have "0 \<le> days_before_month (year d) (month d)"
  proof (cases "month d = 1")
    case True
    then show ?thesis by (simp add: days_before_month_first)
  next
    case False
    with v(1) have "1 < month d" by simp
    from days_before_month_mono[OF _ this, of "year d"] days_in_month_bounds(1)[of "year d" 1]
    show ?thesis by (simp add: days_before_month_first)
  qed
  with v(3) show "1 \<le> days_before_month (year d) (month d) + day d" by simp
  have "month d < 13" using v(2) by simp
  from days_before_month_mono[OF v(1) this, of "year d"] v(4)
  show "days_before_month (year d) (month d) + day d \<le> (if is_leap (year d) then 366 else 365)"
    unfolding days_before_month_year by simp
qed

lemma days_before_year_mono:
  assumes "y < z"
  shows "days_before_year y + (if is_leap y then 366 else 365) \<le> days_before_year z"
proof -
  have "y + 1 \<le> z" using assms by simp
  then show ?thesis
  proof (induction z rule: int_ge_induct)
    case base
    show ?case by (simp add: days_before_year_step)
  next
    case (step i)
    from step.IH show ?case unfolding days_before_year_step[of i] by (simp split: if_splits)
  qed
qed

lemma toordinal_mono:
  assumes a: "valid_date a" and b: "valid_date b" and less: "date_less a b"
  shows "toordinal a < toordinal b"
proof -
  note ba = day_of_year_bounds[OF a]
  note bb = day_of_year_bounds[OF b]
  from a have va: "1 \<le> month a" "day a \<le> days_in_month (year a) (month a)"
    by (simp_all add: valid_date_def)
  from b have vb: "1 \<le> day b" by (simp add: valid_date_def)
  from less consider (y) "year a < year b"
    | (m) "year a = year b" "month a < month b"
    | (d) "year a = year b" "month a = month b" "day a < day b"
    unfolding date_less_def by blast
  then show ?thesis
  proof cases
    case y
    from days_before_year_mono[OF y] ba(2) bb(1) show ?thesis
      by (simp add: toordinal_def)
  next
    case m
    from days_before_month_mono[OF va(1) m(2), of "year a"] va(2) vb m(1)
    show ?thesis by (simp add: toordinal_def)
  next
    case d
    then show ?thesis by (simp add: toordinal_def)
  qed
qed

lemma date_less_total:
  fixes a b :: date
  shows "date_less a b \<or> a = b \<or> date_less b a"
  by (cases a; cases b) (auto simp add: date_less_def)

lemma date_less_iff_toordinal:
  assumes a: "valid_date a" and b: "valid_date b"
  shows "date_less a b \<longleftrightarrow> toordinal a < toordinal b"
proof
  assume "date_less a b"
  then show "toordinal a < toordinal b" by (rule toordinal_mono[OF a b])
next
  assume l: "toordinal a < toordinal b"
  from date_less_total[of a b] show "date_less a b"
  proof (elim disjE)
    assume "a = b"
    with l show ?thesis by simp
  next
    assume "date_less b a"
    from toordinal_mono[OF b a this] l show ?thesis by simp
  qed
qed

lemma toordinal_inj:
  assumes a: "valid_date a" and b: "valid_date b" and e: "toordinal a = toordinal b"
  shows "a = b"
  using date_less_total[of a b] toordinal_mono[OF a b] toordinal_mono[OF b a] e by auto

lemma toordinal_next_day:
  assumes v: "valid_date d"
  shows "toordinal (next_day d) = toordinal d + 1"
proof -
  from v have b: "1 \<le> month d" "month d \<le> 12" "day d \<le> days_in_month (year d) (month d)"
    by (simp_all add: valid_date_def)
  show ?thesis
  proof (cases "day d < days_in_month (year d) (month d)")
    case True
    then show ?thesis by (simp add: next_day_def toordinal_def)
  next
    case False
    with b(3) have e: "day d = days_in_month (year d) (month d)" by simp
    show ?thesis
    proof (cases "month d < 12")
      case True
      with False show ?thesis
        by (simp add: next_day_def toordinal_def e days_before_month_step[OF b(1)])
    next
      case m: False
      with b(2) have m12: "month d = 12" by simp
      have "days_before_month (year d) 13 = days_before_month (year d) 12 + days_in_month (year d) 12"
        using days_before_month_step[of 12 "year d"] by simp
      then have "days_before_month (year d) 12 + day d = (if is_leap (year d) then 366 else 365)"
        unfolding days_before_month_year using e m12 by simp
      with False m m12 show ?thesis
        by (simp add: next_day_def toordinal_def days_before_year_step days_before_month_first)
    qed
  qed
qed

lemma next_day_valid:
  assumes v: "valid_date d" and n: "year d < 9999 \<or> month d < 12 \<or> day d < 31"
  shows "valid_date (next_day d)"
proof -
  from v have b: "1 \<le> year d" "year d \<le> 9999" "1 \<le> month d" "month d \<le> 12" "1 \<le> day d"
    "day d \<le> days_in_month (year d) (month d)" by (simp_all add: valid_date_def)
  show ?thesis
  proof (cases "day d < days_in_month (year d) (month d)")
    case True
    with b show ?thesis by (simp add: next_day_def valid_date_def)
  next
    case False
    with b(6) have e: "day d = days_in_month (year d) (month d)" by simp
    show ?thesis
    proof (cases "month d < 12")
      case True
      with False b days_in_month_bounds(1)[of "year d" "month d + 1"] show ?thesis
        by (simp add: next_day_def valid_date_def)
    next
      case m: False
      with b(4) have m12: "month d = 12" by simp
      with e have "day d = 31" by (simp add: days_in_month_def)
      with n m12 have "year d < 9999" by simp
      with False m b show ?thesis
        by (simp add: next_day_def valid_date_def days_in_month_def)
    qed
  qed
qed

lemma days_apart:
  assumes b: "valid_date b"
  shows "valid_date a \<Longrightarrow> toordinal a \<le> toordinal b \<Longrightarrow> n = nat (toordinal b - toordinal a) \<Longrightarrow>
         (next_day ^^ n) a = b"
proof (induction n arbitrary: a)
  case 0
  then have "toordinal a = toordinal b" by simp
  with toordinal_inj[OF "0.prems"(1) b] show ?case by simp
next
  case (Suc n)
  then have l: "toordinal a < toordinal b" by simp
  then have less: "date_less a b" using date_less_iff_toordinal[OF Suc.prems(1) b] by simp
  from b have vb: "year b \<le> 9999" "month b \<le> 12" "day b \<le> days_in_month (year b) (month b)"
    by (simp_all add: valid_date_def)
  have "day b \<le> 31" using vb(3) days_in_month_bounds(2)[of "year b" "month b"] by simp
  with less vb have "year a < 9999 \<or> month a < 12 \<or> day a < 31"
    by (auto simp add: date_less_def)
  then have v': "valid_date (next_day a)" by (rule next_day_valid[OF Suc.prems(1)])
  have t': "toordinal (next_day a) = toordinal a + 1" by (rule toordinal_next_day[OF Suc.prems(1)])
  have "(next_day ^^ n) (next_day a) = b"
    by (rule Suc.IH[OF v']) (use t' l Suc.prems(3) in simp_all)
  then show ?case by (simp add: funpow_swap1)
qed

section \<open>Overdue installments\<close>

lemma digit_nonneg: "digit s = Some (v, r) \<Longrightarrow> 0 \<le> v"
  by (auto simp add: digit_def decimal_digit_def split: option.splits)

lemma strptime_valid: "strptime s = Inr d \<Longrightarrow> valid_date d"
  by (auto simp add: strptime_def Let_def split: option.splits list.splits if_splits prod.splits)

lemma strptime_error: "strptime s = Inl e \<Longrightarrow> \<exists>msg. e = ValueError msg"
  by (auto simp add: strptime_def Let_def split: option.splits list.splits if_splits prod.splits)

lemma overdue_scan_result:
  assumes "\<forall>inst \<in> set insts. status inst = ''pending'' \<longrightarrow> (\<exists>d. strptime (due_date inst) = Inr d)"
  shows "overdue_scan today insts =
     Inr (map (\<lambda>inst. \<lparr>od_installment_number = installment_number inst,
                        od_amount = amount inst,
                        od_due_date = due_date inst,
                        od_days_overdue =
                          toordinal today - toordinal (projr (strptime (due_date inst)))\<rparr>)
            (filter (\<lambda>inst. status inst = ''pending'' \<and>
                              date_less (projr (strptime (due_date inst))) today) insts))"
  using assms
proof (induction insts)
  case Nil
  then show ?case by simp
next
  case (Cons inst insts)
  show ?case
  proof (cases "status inst = ''pending''")
    case True
    with Cons.prems obtain d where d: "strptime (due_date inst) = Inr d" by auto
    from Cons show ?thesis by (simp add: True d)
  next
    case False
    with Cons show ?thesis by simp
  qed
qed

lemma overdue_scan_raises:
  assumes "\<exists>inst \<in> set insts. status inst = ''pending'' \<and> (\<forall>d. strptime (due_date inst) \<noteq> Inr d)"
  shows "\<exists>msg. overdue_scan today insts = Inl (ValueError msg)"
  using assms
proof (induction insts)
  case Nil
  then show ?case by simp
next
  case (Cons inst insts)
  show ?case
  proof (cases "status inst = ''pending''")
    case False
    with Cons show ?thesis by simp
  next
    case True
    show ?thesis
    proof (cases "strptime (due_date inst)")
      case (Inl e)
      with strptime_error[OF Inl] True show ?thesis by auto
    next
      case (Inr d)
      with Cons.prems True
      have "\<exists>inst \<in> set insts. status inst = ''pending'' \<and> (\<forall>d. strptime (due_date inst) \<noteq> Inr d)"
        by auto
      from Cons.IH[OF this] obtain msg where "overdue_scan today insts = Inl (ValueError msg)"
        by blast
      with True Inr show ?thesis by simp
    qed
  qed
qed


lemma foldl_fadd_bound:
  assumes "\<forall>x \<in> set xs. \<exists>a. x = Finite a \<and> \<bar>a\<bar> \<le> 1000000"
    and "length xs \<le> 100"
  shows "\<exists>t. foldl fadd (Finite 0) xs = Finite t
           \<and> \<bar>t - sum_list (map finite_value xs)\<bar> \<le> of_nat (length xs) / 16777216
           \<and> \<bar>sum_list (map finite_value xs)\<bar> \<le> of_nat (length xs) * 1000000"
  using assms
proof (induction xs rule: rev_induct)
  case Nil
  show ?case by simp
next
  case (snoc x xs)
  from snoc.prems obtain a where a: "x = Finite a" "\<bar>a\<bar> \<le> 1000000" by auto
  from snoc.prems have "\<forall>x \<in> set xs. \<exists>a. x = Finite a \<and> \<bar>a\<bar> \<le> 1000000" "length xs \<le> 100"
    by auto
  from snoc.IH[OF this] obtain t where t: "foldl fadd (Finite 0) xs = Finite t"
    and e: "\<bar>t - sum_list (map finite_value xs)\<bar> \<le> of_nat (length xs) / 16777216"
    and b: "\<bar>sum_list (map finite_value xs)\<bar> \<le> of_nat (length xs) * 1000000"
    by blast
  define n :: rat where "n = of_nat (length xs)"
  define S where "S = sum_list (map finite_value xs)"
  have n: "0 \<le> n" "n \<le> 99"
  proof -
    show "0 \<le> n" by (simp add: n_def)
    from snoc.prems(2) have "length xs \<le> 99" by simp
    then have "(of_nat (length xs) :: rat) \<le> of_nat 99" by (simp only: of_nat_le_iff)
    then show "n \<le> 99" by (simp add: n_def)
  qed
  note e' = e[folded n_def S_def]
  note b' = b[folded n_def S_def]
  have "\<bar>t + a\<bar> < 1073741824" using e' b' a(2) n by linarith
  then have "\<bar>t + a\<bar> < 2 ^ 30" by simp
  from fl_error_30[OF this] obtain y where y: "fl (t + a) = Finite y"
    and ye: "\<bar>y - (t + a)\<bar> \<le> 1 / 2 ^ 24" by blast
  have ye': "\<bar>y - (t + a)\<bar> \<le> 1 / 16777216" using ye by simp
  have r: "foldl fadd (Finite 0) (xs @ [x]) = Finite y"
    by (simp add: t a(1) y)
  have s: "sum_list (map finite_value (xs @ [x])) = S + a"
    by (simp add: S_def a(1) finite_value_def)
  have l: "(of_nat (length (xs @ [x])) :: rat) = n + 1" by (simp add: n_def)
  have d: "(n + 1) / 16777216 = n / 16777216 + 1 / 16777216" by (simp add: add_divide_distrib)
  have m: "(n + 1) * 1000000 = n * 1000000 + 1000000" by (simp add: algebra_simps)
  have "\<bar>y - (S + a)\<bar> \<le> (n + 1) / 16777216" unfolding d using ye' e' by linarith
  moreover have "\<bar>S + a\<bar> \<le> (n + 1) * 1000000" unfolding m using b' a(2) by linarith
  ultimately show ?case unfolding r s l by blast
qed

lemma py_sum_bound:
  assumes "xs \<noteq> []"
    and "\<forall>x \<in> set xs. \<exists>a. x = Finite a \<and> \<bar>a\<bar> \<le> 1000000"
    and "length xs \<le> 100"
  shows "\<exists>t. py_sum xs = PFloat (Finite t)
           \<and> \<bar>t - sum_list (map finite_value xs)\<bar> \<le> of_nat (length xs) / 16777216"
  using foldl_fadd_bound[OF assms(2,3)] assms(1) by (auto simp add: py_sum_def)


text \<open>
  C9. Let today be a valid date. \<open>check_overdue_installments\<close> leaves the list it is
  given as it was, whatever the list. If a pending installment has a due date that
  \<open>strptime\<close> does not read, the call raises \<open>ValueError\<close>. Otherwise it returns the report
  whose overdue entries are, in the order of the list, exactly the installments with
  status \<open>pending\<close> and a due date strictly before today (dates compared, no time of
  day); each entry carries the number, amount and due date of its installment.
  \<open>days_overdue\<close> is the number of days from the due date to today: it is at least 1, and
  that many steps of \<open>next_day\<close> lead from the due date to today, whereas from today some
  number of days (possibly none) leads to the due date of a pending installment that is
  not reported. \<open>overdue_count\<close> is the number of entries, \<open>has_overdue\<close> says whether there
  is one, and \<open>total_overdue_amount\<close> is the sum of the amounts of the entries as \<open>sum\<close>
  adds floats: for at most 100 entries of at most 1000000 each it is within \<open>2^-24\<close>
  per entry of their exact sum.
\<close>

theorem check_overdue_installments_result:
  assumes today: "valid_date today"
  shows "snd (check_overdue_installments today insts) = insts
     \<and> ((\<exists>inst \<in> set insts. status inst = ''pending'' \<and> (\<forall>d. strptime (due_date inst) \<noteq> Inr d))
          \<longrightarrow> (\<exists>msg. fst (check_overdue_installments today insts) = Inl (ValueError msg)))
     \<and> ((\<forall>inst \<in> set insts. status inst = ''pending'' \<longrightarrow> (\<exists>d. strptime (due_date inst) = Inr d))
          \<longrightarrow> (\<exists>report.
                fst (check_overdue_installments today insts) = Inr report
              \<and> overdue_installments report =
                  map (\<lambda>inst. \<lparr>od_installment_number = installment_number inst,
                                 od_amount = amount inst,
                                 od_due_date = due_date inst,
                                 od_days_overdue =
                                   toordinal today - toordinal (projr (strptime (due_date inst)))\<rparr>)
                    (filter (\<lambda>inst. status inst = ''pending'' \<and>
                                      date_less (projr (strptime (due_date inst))) today) insts)
              \<and> overdue_count report = length (overdue_installments report)
              \<and> has_overdue report = (overdue_installments report \<noteq> [])
              \<and> total_overdue_amount report = py_sum (map od_amount (overdue_installments report))
              \<and> (\<forall>e \<in> set (overdue_installments report).
                    1 \<le> od_days_overdue e \<and>
                    (\<exists>due. strptime (od_due_date e) = Inr due \<and>
                           (next_day ^^ nat (od_days_overdue e)) due = today))
              \<and> (\<forall>inst \<in> set insts.
                    status inst = ''pending'' \<and>
                    \<not> date_less (projr (strptime (due_date inst))) today \<longrightarrow>
                    (\<exists>n. (next_day ^^ n) today = projr (strptime (due_date inst))))
              \<and> (overdue_installments report \<noteq> [] \<and>
                  length (overdue_installments report) \<le> 100 \<and>
                  (\<forall>e \<in> set (overdue_installments report).
                     \<exists>a. od_amount e = Finite a \<and> \<bar>a\<bar> \<le> 1000000) \<longrightarrow>
                  (\<exists>t. total_overdue_amount report = PFloat (Finite t) \<and>
                       \<bar>t - sum_list (map (\<lambda>e. finite_value (od_amount e))
                                        (overdue_installments report))\<bar>
                         \<le> of_nat (overdue_count report) / 16777216))))"
proof (intro conjI impI)
  show "snd (check_overdue_installments today insts) = insts"
    by (simp add: check_overdue_installments_def split: sum.splits)
next
  assume "\<exists>inst \<in> set insts. status inst = ''pending'' \<and> (\<forall>d. strptime (due_date inst) \<noteq> Inr d)"
  from overdue_scan_raises[OF this, of today]
  show "\<exists>msg. fst (check_overdue_installments today insts) = Inl (ValueError msg)"
    by (auto simp add: check_overdue_installments_def)
next
  assume parse: "\<forall>inst \<in> set insts. status inst = ''pending'' \<longrightarrow>
                   (\<exists>d. strptime (due_date inst) = Inr d)"
  let ?due = "\<lambda>inst. projr (strptime (due_date inst))"
  let ?entry = "\<lambda>inst. \<lparr>od_installment_number = installment_number inst,
                         od_amount = amount inst,
                         od_due_date = due_date inst,
                         od_days_overdue = toordinal today - toordinal (?due inst)\<rparr>"
  let ?late = "\<lambda>inst. status inst = ''pending'' \<and> date_less (?due inst) today"
  define overdue where "overdue = map ?entry (filter ?late insts)"
  define report where "report =
     \<lparr>has_overdue = (0 < length overdue), overdue_count = length overdue,
      overdue_installments = overdue,
      total_overdue_amount = py_sum (map od_amount overdue)\<rparr>"
  have scan: "overdue_scan today insts = Inr overdue"
    unfolding overdue_def by (rule overdue_scan_result[OF parse])
  have run: "fst (check_overdue_installments today insts) = Inr report"
    by (simp add: check_overdue_installments_def scan report_def)
  have sel: "overdue_installments report = overdue" "overdue_count report = length overdue"
    "has_overdue report = (overdue \<noteq> [])"
    "total_overdue_amount report = py_sum (map od_amount overdue)"
    by (simp_all add: report_def)
  have due: "strptime (due_date inst) = Inr (?due inst)" "valid_date (?due inst)"
    if "inst \<in> set insts" "status inst = ''pending''" for inst
  proof -
    from parse that obtain d where d: "strptime (due_date inst) = Inr d" by blast
    then show "strptime (due_date inst) = Inr (?due inst)" by simp
    from strptime_valid[OF d] d show "valid_date (?due inst)" by simp
  qed
  have days: "1 \<le> od_days_overdue e \<and>
                (\<exists>due. strptime (od_due_date e) = Inr due \<and>
                       (next_day ^^ nat (od_days_overdue e)) due = today)"
    if "e \<in> set overdue" for e
  proof -
    from that obtain inst where i: "inst \<in> set insts" "status inst = ''pending''"
      "date_less (?due inst) today" and e: "e = ?entry inst"
      unfolding overdue_def by auto
    note d = due[OF i(1,2)]
    have l: "toordinal (?due inst) < toordinal today"
      using date_less_iff_toordinal[OF d(2) today] i(3) by simp
    have n: "(next_day ^^ nat (toordinal today - toordinal (?due inst))) (?due inst) = today"
      by (rule days_apart[OF today d(2)]) (use l in simp_all)
    have "\<exists>due. strptime (due_date inst) = Inr due \<and>
            (next_day ^^ nat (toordinal today - toordinal (?due inst))) due = today"
      using d(1) n by blast
    with l show ?thesis unfolding e by simp
  qed
  have not_late: "\<exists>n. (next_day ^^ n) today = ?due inst"
    if "inst \<in> set insts" "status inst = ''pending'' \<and> \<not> date_less (?due inst) today" for inst
  proof -
    from that have p: "status inst = ''pending''" and n: "\<not> date_less (?due inst) today" by simp_all
    note d = due[OF that(1) p]
    have l: "toordinal today \<le> toordinal (?due inst)"
      using date_less_iff_toordinal[OF d(2) today] n by simp
    have "(next_day ^^ nat (toordinal (?due inst) - toordinal today)) today = ?due inst"
      by (rule days_apart[OF d(2) today l]) simp
    then show ?thesis by blast
  qed
  have total: "\<exists>t. total_overdue_amount report = PFloat (Finite t) \<and>
                 \<bar>t - sum_list (map (\<lambda>e. finite_value (od_amount e)) (overdue_installments report))\<bar>
                   \<le> of_nat (overdue_count report) / 16777216"
    if "overdue_installments report \<noteq> [] \<and> length (overdue_installments report) \<le> 100 \<and>
        (\<forall>e \<in> set (overdue_installments report). \<exists>a. od_amount e = Finite a \<and> \<bar>a\<bar> \<le> 1000000)"
  proof -
    from that have a: "map od_amount overdue \<noteq> []" "length (map od_amount overdue) \<le> 100"
      "\<forall>x \<in> set (map od_amount overdue). \<exists>a. x = Finite a \<and> \<bar>a\<bar> \<le> 1000000"
      unfolding sel by simp_all
    from py_sum_bound[OF a(1) a(3) a(2)] show ?thesis
      unfolding sel by (simp add: comp_def)
  qed
  show "\<exists>report.
          fst (check_overdue_installments today insts) = Inr report
        \<and> overdue_installments report = map ?entry (filter ?late insts)
        \<and> overdue_count report = length (overdue_installments report)
        \<and> has_overdue report = (overdue_installments report \<noteq> [])
        \<and> total_overdue_amount report = py_sum (map od_amount (overdue_installments report))
        \<and> (\<forall>e \<in> set (overdue_installments report).
              1 \<le> od_days_overdue e \<and>
              (\<exists>due. strptime (od_due_date e) = Inr due \<and>
                     (next_day ^^ nat (od_days_overdue e)) due = today))
        \<and> (\<forall>inst \<in> set insts.
              status inst = ''pending'' \<and> \<not> date_less (?due inst) today \<longrightarrow>
              (\<exists>n. (next_day ^^ n) today = ?due inst))
        \<and> (overdue_installments report \<noteq> [] \<and>
            length (overdue_installments report) \<le> 100 \<and>
            (\<forall>e \<in> set (overdue_installments report).
               \<exists>a. od_amount e = Finite a \<and> \<bar>a\<bar> \<le> 1000000) \<longrightarrow>
            (\<exists>t. total_overdue_amount report = PFloat (Finite t) \<and>
                 \<bar>t - sum_list (map (\<lambda>e. finite_value (od_amount e))
                                  (overdue_installments report))\<bar>
                   \<le> of_nat (overdue_count report) / 16777216))"
  proof (intro exI[of _ report] conjI ballI impI)
    show "fst (check_overdue_installments today insts) = Inr report" by (rule run)
    show "overdue_installments report = map ?entry (filter ?late insts)"
      by (simp only: sel overdue_def)
    show "overdue_count report = length (overdue_installments report)" by (simp only: sel)
    show "has_overdue report = (overdue_installments report \<noteq> [])" by (simp only: sel)
    show "total_overdue_amount report = py_sum (map od_amount (overdue_installments report))"
      by (simp only: sel)
  next
    fix e assume "e \<in> set (overdue_installments report)"
    then have m: "e \<in> set overdue" by (simp only: sel)
    from days[OF m] show "1 \<le> od_days_overdue e" by blast
    from days[OF m] show "\<exists>due. strptime (od_due_date e) = Inr due \<and>
                     (next_day ^^ nat (od_days_overdue e)) due = today" by blast
  next
    fix inst assume "inst \<in> set insts"
      and "status inst = ''pending'' \<and> \<not> date_less (?due inst) today"
    then show "\<exists>n. (next_day ^^ n) today = ?due inst" by (rule not_late)
  next
    assume "overdue_installments report \<noteq> [] \<and> length (overdue_installments report) \<le> 100 \<and>
        (\<forall>e \<in> set (overdue_installments report). \<exists>a. od_amount e = Finite a \<and> \<bar>a\<bar> \<le> 1000000)"
    then show "\<exists>t. total_overdue_amount report = PFloat (Finite t) \<and>
                 \<bar>t - sum_list (map (\<lambda>e. finite_value (od_amount e)) (overdue_installments report))\<bar>
                   \<le> of_nat (overdue_count report) / 16777216"
      by (rule total)
  qed
qed

lemma demo_parse:
  "strptime ''2026-10-24'' = Inr \<lparr>year = 2026, month = 10, day = 24\<rparr>"
  "strptime ''2026-11-03'' = Inr \<lparr>year = 2026, month = 11, day = 3\<rparr>"
  "strptime ''2026-11-13'' = Inr \<lparr>year = 2026, month = 11, day = 13\<rparr>"
  "strptime ''2026-11-2'' = Inr \<lparr>year = 2026, month = 11, day = 2\<rparr>"
  "strptime (''2024-02-2'' @ [CHR 0xD9, CHR 0xA8]) = Inr \<lparr>year = 2024, month = 2, day = 28\<rparr>"
  by (simp_all add: strptime_def parse_year_def digit_def utf8_head_def decimal_digit_def
      decimal_zeros_def continuation_def parse_month_def parse_day_def is_digit_def digit_val_def
      valid_date_def days_in_month_def is_leap_def Let_def)

lemma demo_ordinals:
  "toordinal demo_today = 739923"
  "toordinal \<lparr>year = 2026, month = 10, day = 24\<rparr> = 739913"
  "toordinal \<lparr>year = 2026, month = 11, day = 2\<rparr> = 739922"
  "toordinal \<lparr>year = 2024, month = 2, day = 28\<rparr> = 738944"
  by code_simp+

lemma demo_sum: "py_sum [Finite 85, Finite (201 / 2), Finite (169 / 4)] = PFloat (Finite (911 / 4))"
proof -
  have a: "fl 85 = Finite 85" using fl_int[of 85] by simp
  have b: "fl (371 / 2) = Finite (371 / 2)"
    by (rule fl_exactI[of 7 _ 6526701022478336]) simp_all
  have c: "fl (911 / 4) = Finite (911 / 4)"
    by (rule fl_exactI[of 7 _ 8013240743231488]) simp_all
  show ?thesis by (simp add: py_sum_def a b c)
qed


lemma demo_overdue:
  "filter (\<lambda>inst. status inst = ''pending'' \<and>
                  date_less (projr (strptime (due_date inst))) demo_today) demo_installments
     = [\<lparr>installment_number = 2, amount = Finite 85, due_date = ''2026-10-24'',
         status = ''pending''\<rparr>,
        \<lparr>installment_number = 5, amount = Finite (201 / 2), due_date = ''2026-11-2'',
         status = ''pending''\<rparr>,
        \<lparr>installment_number = 6, amount = Finite (169 / 4),
         due_date = ''2024-02-2'' @ [CHR 0xD9, CHR 0xA8], status = ''pending''\<rparr>]"
  using demo_parse(5)
  by (simp add: demo_installments_def demo_parse(1-4) date_less_def demo_today_def)

text \<open>
  The report for \<open>demo_installments\<close> on \<open>demo_today\<close>: of the five pending installments,
  the three due before that day are reported, with 10, 1 and 979 days and the sum
  227.75 of their amounts; the one due that day and the one due later are not, nor is
  the paid one.
\<close>

theorem check_overdue_installments_result_witness:
  "valid_date demo_today
   \<and> strptime ''2026-10-24'' = Inr \<lparr>year = 2026, month = 10, day = 24\<rparr>
   \<and> strptime ''2026-11-03'' = Inr demo_today
   \<and> strptime ''2026-11-13'' = Inr \<lparr>year = 2026, month = 11, day = 13\<rparr>
   \<and> strptime ''2026-11-2'' = Inr \<lparr>year = 2026, month = 11, day = 2\<rparr>
   \<and> strptime (''2024-02-2'' @ [CHR 0xD9, CHR 0xA8]) = Inr \<lparr>year = 2024, month = 2, day = 28\<rparr>
   \<and> check_overdue_installments demo_today demo_installments =
       (Inr \<lparr>has_overdue = True, overdue_count = 3,
             overdue_installments =
               [\<lparr>od_installment_number = 2, od_amount = Finite 85,
                 od_due_date = ''2026-10-24'', od_days_overdue = 10\<rparr>,
                \<lparr>od_installment_number = 5, od_amount = Finite (201 / 2),
                 od_due_date = ''2026-11-2'', od_days_overdue = 1\<rparr>,
                \<lparr>od_installment_number = 6, od_amount = Finite (169 / 4),
                 od_due_date = ''2024-02-2'' @ [CHR 0xD9, CHR 0xA8], od_days_overdue = 979\<rparr>],
             total_overdue_amount = PFloat (Finite (911 / 4))\<rparr>,
        demo_installments)
   \<and> (next_day ^^ 10) \<lparr>year = 2026, month = 10, day = 24\<rparr> = demo_today
   \<and> (next_day ^^ 1) \<lparr>year = 2026, month = 11, day = 2\<rparr> = demo_today
   \<and> (next_day ^^ 979) \<lparr>year = 2024, month = 2, day = 28\<rparr> = demo_today"
proof -
  let ?e2 = "\<lparr>od_installment_number = 2, od_amount = Finite 85,
              od_due_date = ''2026-10-24'', od_days_overdue = 10\<rparr>"
  let ?e5 = "\<lparr>od_installment_number = 5, od_amount = Finite (201 / 2),
              od_due_date = ''2026-11-2'', od_days_overdue = 1\<rparr>"
  let ?e6 = "\<lparr>od_installment_number = 6, od_amount = Finite (169 / 4),
              od_due_date = ''2024-02-2'' @ [CHR 0xD9, CHR 0xA8], od_days_overdue = 979\<rparr>"
  have p: "\<forall>inst \<in> set demo_installments.
             status inst = ''pending'' \<longrightarrow> (\<exists>d. strptime (due_date inst) = Inr d)"
    using demo_parse(5) by (simp add: demo_installments_def demo_parse(1-4))
  note t = check_overdue_installments_result[OF demo_today_valid(1), of demo_installments]
  from t have s: "snd (check_overdue_installments demo_today demo_installments) = demo_installments"
    by blast
  from t p obtain report where
    r: "fst (check_overdue_installments demo_today demo_installments) = Inr report"
    and o: "overdue_installments report =
              map (\<lambda>inst. \<lparr>od_installment_number = installment_number inst,
                             od_amount = amount inst,
                             od_due_date = due_date inst,
                             od_days_overdue =
                               toordinal demo_today - toordinal (projr (strptime (due_date inst)))\<rparr>)
                (filter (\<lambda>inst. status inst = ''pending'' \<and>
                                  date_less (projr (strptime (due_date inst))) demo_today)
                   demo_installments)"
    and c: "overdue_count report = length (overdue_installments report)"
    and h: "has_overdue report = (overdue_installments report \<noteq> [])"
    and a: "total_overdue_amount report = py_sum (map od_amount (overdue_installments report))"
    and d: "\<forall>e \<in> set (overdue_installments report).
              1 \<le> od_days_overdue e \<and>
              (\<exists>due. strptime (od_due_date e) = Inr due \<and>
                     (next_day ^^ nat (od_days_overdue e)) due = demo_today)"
    by blast
  have o': "overdue_installments report = [?e2, ?e5, ?e6]"
    unfolding o demo_overdue using demo_parse(5) by (simp add: demo_parse(1-4) demo_ordinals)
  have report: "report = \<lparr>has_overdue = True, overdue_count = 3,
                          overdue_installments = [?e2, ?e5, ?e6],
                          total_overdue_amount = PFloat (Finite (911 / 4))\<rparr>"
    using c h a o' by (cases report) (simp add: demo_sum)
  have run: "check_overdue_installments demo_today demo_installments =
               (Inr \<lparr>has_overdue = True, overdue_count = 3,
                     overdue_installments = [?e2, ?e5, ?e6],
                     total_overdue_amount = PFloat (Finite (911 / 4))\<rparr>, demo_installments)"
    using r s unfolding report by (simp add: prod_eq_iff)
  from d have d2: "\<exists>due. strptime (od_due_date ?e2) = Inr due \<and>
                     (next_day ^^ nat (od_days_overdue ?e2)) due = demo_today"
    and d5: "\<exists>due. strptime (od_due_date ?e5) = Inr due \<and>
                     (next_day ^^ nat (od_days_overdue ?e5)) due = demo_today"
    and d6: "\<exists>due. strptime (od_due_date ?e6) = Inr due \<and>
                     (next_day ^^ nat (od_days_overdue ?e6)) due = demo_today"
    unfolding o' by simp_all
  have n2: "(next_day ^^ 10) \<lparr>year = 2026, month = 10, day = 24\<rparr> = demo_today"
    using d2 by (simp add: demo_parse)
  have n5: "(next_day ^^ 1) \<lparr>year = 2026, month = 11, day = 2\<rparr> = demo_today"
    using d5 by (simp add: demo_parse)
  have n6: "(next_day ^^ 979) \<lparr>year = 2024, month = 2, day = 28\<rparr> = demo_today"
    using d6 demo_parse(5) by simp
  have today: "strptime ''2026-11-03'' = Inr demo_today"
    by (simp add: demo_parse demo_today_def)
  show ?thesis
    by (intro conjI demo_today_valid(1) demo_parse(1) today demo_parse(3) demo_parse(4)
        demo_parse(5) run n2 n5 n6)
qed

end
